theory Spec2Isabelle
  imports Main "HOL-Library.AList"
begin

section \<open>Errors and runtime values\<close>

text \<open>
  Exceptions of the TypeScript code are values: \<open>Error msg\<close> is \<open>new Error(msg)\<close>,
  \<open>SyntaxError\<close> is what \<open>JSON.parse\<close> throws. A function that may throw returns
  \<open>error + 'a\<close>, with \<open>Inl\<close> for the exception.

  Numbers that the code uses as counters, identifiers, timestamps and lengths are integers
  far below \<open>2^53\<close>, where JavaScript numbers are exact; they are \<open>int\<close> or \<open>nat\<close> here.
  A \<open>Buffer\<close> is a list of bytes (\<open>char list\<close>, one \<open>char\<close> per byte).
\<close>

datatype error = Error string | SyntaxError

type_synonym buffer = "char list"

text \<open>A \<open>Record<string, string>\<close>: the own properties in enumeration order.\<close>

type_synonym headers = "(string \<times> string) list"

section \<open>JSON text (\<open>JSON.parse\<close>, \<open>JSON.stringify\<close>)\<close>

text \<open>
  The header columns of the store hold JSON text. \<open>json_parse\<close> accepts exactly the JSON
  grammar that \<open>JSON.parse\<close> accepts (RFC 8259: the four whitespace characters, the three
  literals, numbers, strings with the nine escapes, arrays, objects) and returns the syntax
  tree; \<open>None\<close> is the thrown \<open>SyntaxError\<close>. Number and string tokens are kept as
  written: escapes are checked, not decoded.
\<close>

datatype json =
    JNull
  | JBool bool
  | JNumber string
  | JString string
  | JArray "json list"
  | JObject "(string \<times> json) list"

definition is_ws :: "char \<Rightarrow> bool" where
  "is_ws c = (c = CHR '' '' \<or> c = CHR 0x09 \<or> c = CHR 0x0A \<or> c = CHR 0x0D)"

definition skip_ws :: "string \<Rightarrow> string" where
  "skip_ws cs = dropWhile is_ws cs"

definition is_digit :: "char \<Rightarrow> bool" where
  "is_digit c = (48 \<le> (of_char c :: nat) \<and> (of_char c :: nat) \<le> 57)"

definition is_hex :: "char \<Rightarrow> bool" where
  "is_hex c = (is_digit c \<or> (97 \<le> (of_char c :: nat) \<and> (of_char c :: nat) \<le> 102)
     \<or> (65 \<le> (of_char c :: nat) \<and> (of_char c :: nat) \<le> 70))"

text \<open>
  \<open>scan_string\<close> reads a string token after its opening quote and returns the characters
  between the quotes and the input after the closing quote.
\<close>

fun scan_string :: "string \<Rightarrow> (string \<times> string) option" where
  "scan_string [] = None"
| "scan_string (c # cs) =
     (if c = CHR 0x22 then Some ([], cs)
      else if c = CHR 0x5C then
        (case cs of
           [] \<Rightarrow> None
         | e # cs' \<Rightarrow>
             if e \<in> set [CHR 0x22, CHR 0x5C, CHR ''/'', CHR ''b'', CHR ''f'', CHR ''n'',
                          CHR ''r'', CHR ''t''] then
               map_option (\<lambda>(s, r). (c # e # s, r)) (scan_string cs')
             else if e = CHR ''u'' \<and> 4 \<le> length cs' \<and> list_all is_hex (take 4 cs') then
               map_option (\<lambda>(s, r). (c # e # take 4 cs' @ s, r)) (scan_string (drop 4 cs'))
             else None)
      else if (of_char c :: nat) < 32 then None
      else map_option (\<lambda>(s, r). (c # s, r)) (scan_string cs))"

definition scan_digits :: "string \<Rightarrow> (string \<times> string) option" where
  "scan_digits cs =
     (if takeWhile is_digit cs = [] then None
      else Some (takeWhile is_digit cs, dropWhile is_digit cs))"

definition scan_int :: "string \<Rightarrow> (string \<times> string) option" where
  "scan_int cs =
     (case cs of
        [] \<Rightarrow> None
      | c # r \<Rightarrow>
          if c = CHR ''0'' then Some ([c], r)
          else if is_digit c then Some (c # takeWhile is_digit r, dropWhile is_digit r)
          else None)"

definition scan_frac :: "string \<Rightarrow> (string \<times> string) option" where
  "scan_frac cs =
     (case cs of
        [] \<Rightarrow> Some ([], cs)
      | c # r \<Rightarrow>
          if c = CHR ''.'' then map_option (\<lambda>(ds, r'). (c # ds, r')) (scan_digits r)
          else Some ([], cs))"

definition scan_sign :: "string \<Rightarrow> string \<times> string" where
  "scan_sign cs =
     (case cs of
        [] \<Rightarrow> ([], cs)
      | c # r \<Rightarrow> if c = CHR ''+'' \<or> c = CHR ''-'' then ([c], r) else ([], cs))"

definition scan_exp :: "string \<Rightarrow> (string \<times> string) option" where
  "scan_exp cs =
     (case cs of
        [] \<Rightarrow> Some ([], cs)
      | c # r \<Rightarrow>
          if c = CHR ''e'' \<or> c = CHR ''E'' then
            (case scan_sign r of
               (sg, r1) \<Rightarrow> map_option (\<lambda>(ds, r2). (c # sg @ ds, r2)) (scan_digits r1))
          else Some ([], cs))"

definition scan_number :: "string \<Rightarrow> (string \<times> string) option" where
  "scan_number cs =
     (case (case cs of
              [] \<Rightarrow> ([], cs)
            | c # r \<Rightarrow> if c = CHR ''-'' then ([c], r) else ([], cs)) of
        (sg, r0) \<Rightarrow>
          (case scan_int r0 of
             None \<Rightarrow> None
           | Some (ip, r1) \<Rightarrow>
               (case scan_frac r1 of
                  None \<Rightarrow> None
                | Some (fp, r2) \<Rightarrow>
                    (case scan_exp r2 of
                       None \<Rightarrow> None
                     | Some (ep, r3) \<Rightarrow> Some (sg @ ip @ fp @ ep, r3)))))"

lemma length_skip_ws: "length (skip_ws cs) \<le> length cs"
  by (simp add: skip_ws_def length_dropWhile_le)

lemma skip_ws_Cons_shorter: "skip_ws cs = c # r \<Longrightarrow> length r < length cs"
  using length_skip_ws [of cs] by simp

lemma scan_string_shorter: "scan_string cs = Some (s, r) \<Longrightarrow> length r < length cs"
proof (induction cs arbitrary: s r rule: scan_string.induct)
  case 1
  then show ?case by simp
next
  case (2 c cs)
  show ?case
  proof (cases "c = CHR 0x22")
    case True
    with "2.prems" show ?thesis by simp
  next
    case quote: False
    show ?thesis
    proof (cases "c = CHR 0x5C")
      case True
      with quote "2.prems" "2.IH"(1,2) show ?thesis
        by (fastforce split: list.splits if_splits)
    next
      case False
      with quote "2.prems" "2.IH"(3) show ?thesis
        by (fastforce split: if_splits)
    qed
  qed
qed

text \<open>
  The recursive descent. \<open>parse_elems\<close> reads the elements of a non-empty array up to its
  closing bracket, \<open>parse_members\<close> the members of a non-empty object up to its closing
  brace. The two tests \<open>length r' < length cs\<close> after a parsed value only make the
  recursion visibly well-founded: a value always consumes a character (lemma
  \<open>parse_value_shorter\<close> below), so they never fail.
\<close>

function parse_value :: "string \<Rightarrow> (json \<times> string) option"
  and parse_elems :: "string \<Rightarrow> (json list \<times> string) option"
  and parse_members :: "string \<Rightarrow> ((string \<times> json) list \<times> string) option"
where
  "parse_value cs =
     (case skip_ws cs of
        [] \<Rightarrow> None
      | c # r \<Rightarrow>
          if c = CHR ''{'' then
            (case skip_ws r of
               [] \<Rightarrow> None
             | d # r' \<Rightarrow>
                 if d = CHR ''}'' then Some (JObject [], r')
                 else map_option (\<lambda>(ms, r''). (JObject ms, r'')) (parse_members r))
          else if c = CHR ''['' then
            (case skip_ws r of
               [] \<Rightarrow> None
             | d # r' \<Rightarrow>
                 if d = CHR '']'' then Some (JArray [], r')
                 else map_option (\<lambda>(vs, r''). (JArray vs, r'')) (parse_elems r))
          else if c = CHR 0x22 then map_option (\<lambda>(s, r'). (JString s, r')) (scan_string r)
          else if c = CHR ''-'' \<or> is_digit c then
            map_option (\<lambda>(s, r'). (JNumber s, r')) (scan_number (c # r))
          else if take 4 (c # r) = ''true'' then Some (JBool True, drop 4 (c # r))
          else if take 5 (c # r) = ''false'' then Some (JBool False, drop 5 (c # r))
          else if take 4 (c # r) = ''null'' then Some (JNull, drop 4 (c # r))
          else None)"
| "parse_elems cs =
     (case parse_value cs of
        None \<Rightarrow> None
      | Some (v, r) \<Rightarrow>
          (case skip_ws r of
             [] \<Rightarrow> None
           | d # r' \<Rightarrow>
               if d = CHR '']'' then Some ([v], r')
               else if d = CHR '','' \<and> length r' < length cs then
                 map_option (\<lambda>(vs, r''). (v # vs, r'')) (parse_elems r')
               else None))"
| "parse_members cs =
     (case skip_ws cs of
        [] \<Rightarrow> None
      | q # r \<Rightarrow>
          if q = CHR 0x22 then
            (case scan_string r of
               None \<Rightarrow> None
             | Some (k, r1) \<Rightarrow>
                 (case skip_ws r1 of
                    [] \<Rightarrow> None
                  | col # r2 \<Rightarrow>
                      if col = CHR '':'' then
                        (case parse_value r2 of
                           None \<Rightarrow> None
                         | Some (v, r3) \<Rightarrow>
                             (case skip_ws r3 of
                                [] \<Rightarrow> None
                              | d # r4 \<Rightarrow>
                                  if d = CHR ''}'' then Some ([(k, v)], r4)
                                  else if d = CHR '','' \<and> length r4 < length cs then
                                    map_option (\<lambda>(ms, r5). ((k, v) # ms, r5)) (parse_members r4)
                                  else None))
                      else None))
          else None)"
  by pat_completeness auto
termination
proof (relation "measure (\<lambda>x. case x of
        Inl cs \<Rightarrow> 2 * length cs
      | Inr (Inl cs) \<Rightarrow> 2 * length cs + 1
      | Inr (Inr cs) \<Rightarrow> 2 * length cs + 1)", goal_cases)
  case 1
  then show ?case by simp
next
  case (2 cs c r d r')
  then show ?case using skip_ws_Cons_shorter [of cs c r] by simp
next
  case (3 cs c r d r')
  then show ?case using skip_ws_Cons_shorter [of cs c r] by simp
next
  case (4 cs)
  then show ?case by simp
next
  case (5 cs x2 v r d r')
  then show ?case by simp
next
  case (6 cs q r x2 k r1 col r2)
  then show ?case
    using skip_ws_Cons_shorter [of cs q r] scan_string_shorter [of r k r1]
      skip_ws_Cons_shorter [of r1 col r2]
    by simp
next
  case (7 cs q r x2 k r1 col r2 x2a v r3 d r4)
  then show ?case by simp
qed

declare parse_value.simps [simp del] parse_elems.simps [simp del] parse_members.simps [simp del]

lemma scan_digits_shorter: "scan_digits cs = Some (s, r) \<Longrightarrow> length r \<le> length cs"
  by (auto simp: scan_digits_def length_dropWhile_le split: if_splits)

lemma scan_int_shorter: "scan_int cs = Some (s, r) \<Longrightarrow> length r < length cs"
  by (auto simp: scan_int_def less_Suc_eq_le length_dropWhile_le split: list.splits if_splits)

lemma scan_frac_shorter: "scan_frac cs = Some (s, r) \<Longrightarrow> length r \<le> length cs"
  by (auto simp: scan_frac_def le_Suc_eq dest!: scan_digits_shorter split: list.splits if_splits)

lemma scan_sign_shorter: "scan_sign cs = (s, r) \<Longrightarrow> length r \<le> length cs"
  by (auto simp: scan_sign_def split: list.splits if_splits)

lemma scan_exp_shorter: "scan_exp cs = Some (s, r) \<Longrightarrow> length r \<le> length cs"
  by (auto simp: scan_exp_def le_Suc_eq dest!: scan_digits_shorter scan_sign_shorter
      split: list.splits if_splits prod.splits)

lemma scan_number_shorter: "scan_number cs = Some (s, r) \<Longrightarrow> length r < length cs"
  by (auto simp: scan_number_def dest!: scan_int_shorter scan_frac_shorter scan_exp_shorter
      split: list.splits if_splits option.splits prod.splits)

lemma parse_value_shorter:
  "parse_value cs = Some (v, r) \<Longrightarrow> length r < length cs"
  "parse_elems cs = Some (vs, r) \<Longrightarrow> length r < length cs"
  "parse_members cs = Some (ms, r) \<Longrightarrow> length r < length cs"
proof (induction cs and cs and cs arbitrary: v r and vs r and ms r
    rule: parse_value_parse_elems_parse_members.induct)
  case (1 cs)
  from "1.prems" obtain c r0 where sk: "skip_ws cs = c # r0"
    by (auto simp: parse_value.simps [of cs] split: list.splits)
  have le: "length r0 < length cs" using sk by (rule skip_ws_Cons_shorter)
  note pv = "1.prems" [unfolded parse_value.simps [of cs] sk list.case]
  show ?case
  proof (cases "c = CHR ''{''")
    case True
    with pv obtain d r' where sk': "skip_ws r0 = d # r'"
      by (auto split: list.splits)
    have le': "length r' < length r0" using sk' by (rule skip_ws_Cons_shorter)
    show ?thesis
    proof (cases "d = CHR ''}''")
      case True
      with pv \<open>c = CHR ''{''\<close> sk' le le' show ?thesis by simp
    next
      case False
      with pv \<open>c = CHR ''{''\<close> sk' obtain ms where "parse_members r0 = Some (ms, r)"
        by auto
      from "1.IH"(1) [OF sk \<open>c = CHR ''{''\<close> sk' False this] le show ?thesis by simp
    qed
  next
    case nobrace: False
    show ?thesis
    proof (cases "c = CHR ''[''")
      case True
      with pv nobrace obtain d r' where sk': "skip_ws r0 = d # r'"
        by (auto split: list.splits)
      have le': "length r' < length r0" using sk' by (rule skip_ws_Cons_shorter)
      show ?thesis
      proof (cases "d = CHR '']''")
        case True
        with pv nobrace \<open>c = CHR ''[''\<close> sk' le le' show ?thesis by simp
      next
        case False
        with pv nobrace \<open>c = CHR ''[''\<close> sk' obtain vs where "parse_elems r0 = Some (vs, r)"
          by auto
        from "1.IH"(2) [OF sk nobrace \<open>c = CHR ''[''\<close> sk' False this] le show ?thesis by simp
      qed
    next
      case nobracket: False
      show ?thesis
      proof (cases "c = CHR 0x22")
        case True
        with pv nobrace nobracket obtain s where "scan_string r0 = Some (s, r)"
          by auto
        from scan_string_shorter [OF this] le show ?thesis by simp
      next
        case noquote: False
        show ?thesis
        proof (cases "c = CHR ''-'' \<or> is_digit c")
          case True
          with pv nobrace nobracket noquote obtain s where "scan_number (c # r0) = Some (s, r)"
            by auto
          from scan_number_shorter [OF this] le show ?thesis by simp
        next
          case False
          with pv nobrace nobracket noquote
          have "r = drop 4 (c # r0) \<or> r = drop 5 (c # r0)"
            by (auto split: if_splits)
          with le show ?thesis by auto
        qed
      qed
    qed
  qed
next
  case (2 cs)
  from "2.prems" obtain v r1 where pv: "parse_value cs = Some (v, r1)"
    by (auto simp: parse_elems.simps [of cs] split: option.splits)
  have l1: "length r1 < length cs" using pv by (rule "2.IH"(1))
  from "2.prems" pv obtain d r' where sk: "skip_ws r1 = d # r'"
    by (auto simp: parse_elems.simps [of cs] split: list.splits)
  have l2: "length r' < length r1" using sk by (rule skip_ws_Cons_shorter)
  note pe = "2.prems" [unfolded parse_elems.simps [of cs] pv option.case prod.case sk list.case]
  show ?case
  proof (cases "d = CHR '']''")
    case True
    with pe l1 l2 show ?thesis by simp
  next
    case False
    with pe have comma: "d = CHR '',''" and g: "length r' < length cs"
      by (auto split: if_splits)
    from pe False comma g obtain vs' where "parse_elems r' = Some (vs', r)"
      by auto
    from "2.IH"(2) [OF pv refl sk False _ this] comma g show ?thesis by simp
  qed
next
  case (3 cs)
  from "3.prems" obtain q r0 where sk: "skip_ws cs = q # r0"
    by (auto simp: parse_members.simps [of cs] split: list.splits)
  have l0: "length r0 < length cs" using sk by (rule skip_ws_Cons_shorter)
  note pm0 = "3.prems" [unfolded parse_members.simps [of cs] sk list.case]
  from pm0 have q: "q = CHR 0x22" by (auto split: if_splits)
  from pm0 q obtain k r1 where ss: "scan_string r0 = Some (k, r1)"
    by (auto split: option.splits)
  from pm0 q ss obtain col r2 where sk1: "skip_ws r1 = col # r2"
    by (auto split: list.splits)
  note pm1 = pm0 [unfolded ss option.case prod.case sk1 list.case]
  from pm1 q have col: "col = CHR '':''" by (auto split: if_splits)
  from pm1 q col obtain v r3 where pv: "parse_value r2 = Some (v, r3)"
    by (auto split: option.splits)
  from pm1 q col pv obtain d r4 where sk3: "skip_ws r3 = d # r4"
    by (auto split: list.splits)
  note pm2 = pm1 [unfolded pv option.case prod.case sk3 list.case]
  have l1: "length r1 < length r0" using ss by (rule scan_string_shorter)
  have l2: "length r2 < length r1" using sk1 by (rule skip_ws_Cons_shorter)
  have l3: "length r3 < length r2" using "3.IH"(1) [OF sk q ss refl sk1 col pv] .
  have l4: "length r4 < length r3" using sk3 by (rule skip_ws_Cons_shorter)
  show ?case
  proof (cases "d = CHR ''}''")
    case True
    with pm2 q col l0 l1 l2 l3 l4 show ?thesis by simp
  next
    case False
    with pm2 q col have comma: "d = CHR '',''" and g: "length r4 < length cs"
      by (auto split: if_splits)
    from pm2 q col False comma g obtain ms' where pm': "parse_members r4 = Some (ms', r)"
      by auto
    from "3.IH"(2) [OF sk q ss refl sk1 col pv refl sk3 False _ pm'] comma g
    show ?thesis by simp
  qed
qed

definition json_parse :: "string \<Rightarrow> json option" where
  "json_parse s =
     (case parse_value s of
        None \<Rightarrow> None
      | Some (v, r) \<Rightarrow> if skip_ws r = [] then Some v else None)"

text \<open>
  \<open>JSON.stringify\<close> of a \<open>Record<string, string>\<close>: the members in enumeration order,
  keys and values quoted, no whitespace.
\<close>

definition hex_digit :: "nat \<Rightarrow> char" where
  "hex_digit n = (if n < 10 then char_of (48 + n) else char_of (87 + n))"

definition json_quote_char :: "char \<Rightarrow> string" where
  "json_quote_char c =
     (if c = CHR 0x22 then [CHR 0x5C, CHR 0x22]
      else if c = CHR 0x5C then [CHR 0x5C, CHR 0x5C]
      else if c = CHR 0x08 then [CHR 0x5C, CHR ''b'']
      else if c = CHR 0x0C then [CHR 0x5C, CHR ''f'']
      else if c = CHR 0x0A then [CHR 0x5C, CHR ''n'']
      else if c = CHR 0x0D then [CHR 0x5C, CHR ''r'']
      else if c = CHR 0x09 then [CHR 0x5C, CHR ''t'']
      else if (of_char c :: nat) < 32 then
        [CHR 0x5C, CHR ''u'', CHR ''0'', CHR ''0'',
         hex_digit ((of_char c :: nat) div 16), hex_digit ((of_char c :: nat) mod 16)]
      else [c])"

definition json_escape :: "string \<Rightarrow> string" where
  "json_escape s = concat (map json_quote_char s)"

definition json_quote :: "string \<Rightarrow> string" where
  "json_quote s = CHR 0x22 # json_escape s @ [CHR 0x22]"

fun stringify_members :: "headers \<Rightarrow> string" where
  "stringify_members [] = []"
| "stringify_members [(k, v)] = json_quote k @ CHR '':'' # json_quote v"
| "stringify_members ((k, v) # m # ms) =
     json_quote k @ CHR '':'' # json_quote v @ CHR '','' # stringify_members (m # ms)"

definition json_stringify :: "headers \<Rightarrow> string" where
  "json_stringify h = CHR ''{'' # stringify_members h @ [CHR ''}'']"

text \<open>The syntax tree of the text that \<open>json_stringify\<close> writes.\<close>

definition headers_json :: "headers \<Rightarrow> json" where
  "headers_json h = JObject (map (\<lambda>(k, v). (json_escape k, JString (json_escape v))) h)"

section \<open>The request store (\<open>TrafficStorage\<close>)\<close>

text \<open>
  \<open>RequestDbRow\<close> is a row of the table \<open>requests\<close>, \<open>NewRequest\<close> is
  \<open>Omit<CapturedRequest, 'id'>\<close> and \<open>CapturedRequest\<close> adds the id. The header type is a
  parameter: the proxy builds \<open>headers\<close>, a row read back carries whatever
  \<open>JSON.parse\<close> returned (\<open>json\<close>).
\<close>

record RequestDbRow =
  row_id :: int
  row_timestamp :: int
  row_method :: string
  row_url :: string
  row_host :: string
  row_path :: string
  row_status :: int
  row_request_headers :: string
  row_request_body :: "string option"
  row_response_headers :: string
  row_response_body :: "string option"
  row_content_type :: string
  row_duration :: int
  row_size :: int

record 'h NewRequest =
  cr_timestamp :: int
  cr_method :: string
  cr_url :: string
  cr_host :: string
  cr_path :: string
  cr_status :: int
  cr_requestHeaders :: 'h
  cr_requestBody :: "string option"
  cr_responseHeaders :: 'h
  cr_responseBody :: "string option"
  cr_contentType :: string
  cr_duration :: int
  cr_size :: int

record 'h CapturedRequest = "'h NewRequest" +
  cr_id :: int

record ResponseData =
  rd_status :: int
  rd_responseHeaders :: headers
  rd_responseBody :: "string option"
  rd_contentType :: string
  rd_duration :: int
  rd_size :: int

record FilterOptions =
  searchQuery :: "string option"
  methods :: "string list option"
  statusCodes :: "int list option"
  hosts :: "string list option"
  contentTypes :: "string list option"
  dateRange :: "(int \<times> int) option"
  limit :: "int option"
  offset :: "int option"

text \<open>
  The database: the rows of \<open>requests\<close> in rowid order, the AUTOINCREMENT sequence
  (the largest id ever assigned; deleting rows does not lower it), and the engine's query
  planner. For a \<open>SELECT\<close> the planner picks an access path, the table in rowid order or
  one of the indexes \<open>idx_timestamp\<close>, \<open>idx_host\<close>, \<open>idx_method\<close>, \<open>idx_status\<close>,
  \<open>idx_content_type\<close>, and the path decides in which order the engine returns rows that
  the \<open>ORDER BY\<close> of the query leaves tied. \<open>planner d fo rows r\<close> is the rank of the
  row \<open>r\<close> in that order, for the query that \<open>getRequests\<close> builds from the filter \<open>fo\<close>
  over the table \<open>rows\<close>. The choice is the engine's business, so the planner is a
  parameter of the model: it may rank the rows in any way. \<open>db_handle = None\<close> is
  \<open>this.db === null\<close>, before \<open>initialize\<close> and after \<open>close\<close>. The engine's resource
  limits (pattern length, number of bound parameters, 64-bit rowids) are not modelled.
\<close>

record database =
  requests :: "RequestDbRow list"
  sequence :: int
  planner :: "FilterOptions option \<Rightarrow> RequestDbRow list \<Rightarrow> RequestDbRow \<Rightarrow> nat"

record TrafficStorage =
  db_handle :: "database option"

definition not_initialized :: error where
  "not_initialized = Error ''Database not initialized''"

text \<open>The row that the \<open>INSERT\<close> of \<open>saveRequest\<close> writes under the id \<open>i\<close>.\<close>

definition insert_row :: "int \<Rightarrow> headers NewRequest \<Rightarrow> RequestDbRow" where
  "insert_row i request =
     \<lparr> row_id = i,
       row_timestamp = cr_timestamp request,
       row_method = cr_method request,
       row_url = cr_url request,
       row_host = cr_host request,
       row_path = cr_path request,
       row_status = cr_status request,
       row_request_headers = json_stringify (cr_requestHeaders request),
       row_request_body = cr_requestBody request,
       row_response_headers = json_stringify (cr_responseHeaders request),
       row_response_body = cr_responseBody request,
       row_content_type = cr_contentType request,
       row_duration = cr_duration request,
       row_size = cr_size request \<rparr>"

definition saveRequest :: "TrafficStorage \<Rightarrow> headers NewRequest \<Rightarrow> error + (int \<times> TrafficStorage)" where
  "saveRequest st request =
     (case db_handle st of
        None \<Rightarrow> Inl not_initialized
      | Some d \<Rightarrow>
          let i = sequence d + 1
          in Inr (i, st\<lparr>db_handle := Some (d\<lparr>requests := requests d @ [insert_row i request],
                                                sequence := i\<rparr>)\<rparr>))"

definition update_row :: "ResponseData \<Rightarrow> RequestDbRow \<Rightarrow> RequestDbRow" where
  "update_row data r =
     r\<lparr> row_status := rd_status data,
        row_response_headers := json_stringify (rd_responseHeaders data),
        row_response_body := rd_responseBody data,
        row_content_type := rd_contentType data,
        row_duration := rd_duration data,
        row_size := rd_size data \<rparr>"

definition updateResponse :: "TrafficStorage \<Rightarrow> int \<Rightarrow> ResponseData \<Rightarrow> error + TrafficStorage" where
  "updateResponse st i data =
     (case db_handle st of
        None \<Rightarrow> Inl not_initialized
      | Some d \<Rightarrow>
          Inr (st\<lparr>db_handle := Some (d\<lparr>requests :=
            map (\<lambda>r. if row_id r = i then update_row data r else r) (requests d)\<rparr>)\<rparr>))"

definition deleteRequest :: "TrafficStorage \<Rightarrow> int \<Rightarrow> error + TrafficStorage" where
  "deleteRequest st i =
     (case db_handle st of
        None \<Rightarrow> Inl not_initialized
      | Some d \<Rightarrow>
          Inr (st\<lparr>db_handle := Some (d\<lparr>requests := filter (\<lambda>r. row_id r \<noteq> i) (requests d)\<rparr>)\<rparr>))"

definition clearAll :: "TrafficStorage \<Rightarrow> error + TrafficStorage" where
  "clearAll st =
     (case db_handle st of
        None \<Rightarrow> Inl not_initialized
      | Some d \<Rightarrow> Inr (st\<lparr>db_handle := Some (d\<lparr>requests := []\<rparr>)\<rparr>))"

text \<open>
  \<open>deleteOlderThan hours\<close> at the clock reading \<open>now\<close> (\<open>Date.now()\<close>): returns the number
  of deleted rows.
\<close>

definition deleteOlderThan :: "TrafficStorage \<Rightarrow> int \<Rightarrow> int \<Rightarrow> error + (nat \<times> TrafficStorage)" where
  "deleteOlderThan st now hours =
     (case db_handle st of
        None \<Rightarrow> Inl not_initialized
      | Some d \<Rightarrow>
          let cutoff = now - hours * 60 * 60 * 1000
          in Inr (length (filter (\<lambda>r. row_timestamp r < cutoff) (requests d)),
                  st\<lparr>db_handle := Some (d\<lparr>requests :=
                    filter (\<lambda>r. \<not> row_timestamp r < cutoff) (requests d)\<rparr>)\<rparr>))"

subsection \<open>Queries\<close>

text \<open>
  SQLite's \<open>LIKE\<close>: \<open>%\<close> matches any sequence, \<open>_\<close> any one character, every other
  character itself, ASCII letters without regard to case.
\<close>

definition ascii_lower :: "char \<Rightarrow> char" where
  "ascii_lower c =
     (if 65 \<le> (of_char c :: nat) \<and> (of_char c :: nat) \<le> 90
      then char_of ((of_char c :: nat) + 32) else c)"

fun sql_like :: "string \<Rightarrow> string \<Rightarrow> bool" where
  "sql_like [] s = (s = [])"
| "sql_like (p # ps) s =
     (if p = CHR ''%'' then
        (sql_like ps s \<or> (case s of [] \<Rightarrow> False | _ # s' \<Rightarrow> sql_like (p # ps) s'))
      else
        (case s of
           [] \<Rightarrow> False
         | c # s' \<Rightarrow> (p = CHR ''_'' \<or> ascii_lower p = ascii_lower c) \<and> sql_like ps s'))"

definition like_contains :: "string \<Rightarrow> string \<Rightarrow> bool" where
  "like_contains q s = sql_like (CHR ''%'' # q @ ''%'') s"

text \<open>
  The clauses the code appends to \<open>WHERE 1=1\<close>. A clause is appended when the filter's
  field is truthy (a non-empty string, a non-empty array, an object).
\<close>

definition search_clause :: "string option \<Rightarrow> RequestDbRow \<Rightarrow> bool" where
  "search_clause q r =
     (case q of
        None \<Rightarrow> True
      | Some s \<Rightarrow>
          s = [] \<or> like_contains s (row_url r) \<or> like_contains s (row_host r)
            \<or> like_contains s (row_path r))"

definition in_clause :: "'a list option \<Rightarrow> 'a \<Rightarrow> bool" where
  "in_clause vs x = (case vs of None \<Rightarrow> True | Some l \<Rightarrow> l = [] \<or> x \<in> set l)"

definition content_type_clause :: "string list option \<Rightarrow> RequestDbRow \<Rightarrow> bool" where
  "content_type_clause cts r =
     (case cts of
        None \<Rightarrow> True
      | Some l \<Rightarrow> l = [] \<or> list_ex (\<lambda>ct. like_contains ct (row_content_type r)) l)"

definition date_clause :: "(int \<times> int) option \<Rightarrow> RequestDbRow \<Rightarrow> bool" where
  "date_clause dr r =
     (case dr of
        None \<Rightarrow> True
      | Some (start, end) \<Rightarrow> start \<le> row_timestamp r \<and> row_timestamp r \<le> end)"

definition list_where :: "FilterOptions option \<Rightarrow> RequestDbRow \<Rightarrow> bool" where
  "list_where fo r =
     (case fo of
        None \<Rightarrow> True
      | Some f \<Rightarrow>
          search_clause (searchQuery f) r \<and> in_clause (methods f) (row_method r)
            \<and> in_clause (statusCodes f) (row_status r) \<and> in_clause (hosts f) (row_host r)
            \<and> content_type_clause (contentTypes f) r \<and> date_clause (dateRange f) r)"

definition count_where :: "FilterOptions option \<Rightarrow> RequestDbRow \<Rightarrow> bool" where
  "count_where fo r = (case fo of None \<Rightarrow> True | Some f \<Rightarrow> search_clause (searchQuery f) r)"

text \<open>
  \<open>ORDER BY timestamp DESC\<close> names no second key: the rows come out by timestamp
  descending, and rows with the same timestamp in the order the engine chooses, here by
  the \<open>rank\<close> its planner gives them (rows of the same rank in rowid order).
\<close>

definition order_by_timestamp_desc :: "(RequestDbRow \<Rightarrow> nat) \<Rightarrow> RequestDbRow list \<Rightarrow> RequestDbRow list" where
  "order_by_timestamp_desc rank rows =
     sort_key (\<lambda>r. - row_timestamp r) (sort_key rank rows)"

text \<open>
  \<open>LIMIT\<close> is appended when \<open>limit\<close> is truthy (set and not 0), \<open>OFFSET\<close> only inside that
  branch and when \<open>offset\<close> is truthy. A negative \<open>LIMIT\<close> is no limit, a negative
  \<open>OFFSET\<close> is 0.
\<close>

definition sql_limit :: "int \<Rightarrow> 'a list \<Rightarrow> 'a list" where
  "sql_limit n xs = (if n < 0 then xs else take (nat n) xs)"

definition paginate :: "FilterOptions option \<Rightarrow> 'a list \<Rightarrow> 'a list" where
  "paginate fo xs =
     (case fo of
        None \<Rightarrow> xs
      | Some f \<Rightarrow>
          (case limit f of
             None \<Rightarrow> xs
           | Some n \<Rightarrow>
               if n = 0 then xs
               else (case offset f of
                       None \<Rightarrow> sql_limit n xs
                     | Some m \<Rightarrow> if m = 0 then sql_limit n xs else sql_limit n (drop (nat m) xs))))"

definition select_requests :: "database \<Rightarrow> FilterOptions option \<Rightarrow> RequestDbRow list" where
  "select_requests d fo =
     paginate fo (order_by_timestamp_desc (planner d fo (requests d))
       (filter (list_where fo) (requests d)))"

definition truthy_or :: "string \<Rightarrow> string \<Rightarrow> string" where
  "truthy_or s dflt = (if s = [] then dflt else s)"

definition mapRowToRequest :: "RequestDbRow \<Rightarrow> error + json CapturedRequest" where
  "mapRowToRequest row =
     (case json_parse (truthy_or (row_request_headers row) ''{}'') of
        None \<Rightarrow> Inl SyntaxError
      | Some reqh \<Rightarrow>
          (case json_parse (truthy_or (row_response_headers row) ''{}'') of
             None \<Rightarrow> Inl SyntaxError
           | Some resh \<Rightarrow>
               Inr \<lparr> cr_timestamp = row_timestamp row,
                     cr_method = row_method row,
                     cr_url = row_url row,
                     cr_host = row_host row,
                     cr_path = row_path row,
                     cr_status = row_status row,
                     cr_requestHeaders = reqh,
                     cr_requestBody = row_request_body row,
                     cr_responseHeaders = resh,
                     cr_responseBody = row_response_body row,
                     cr_contentType = row_content_type row,
                     cr_duration = row_duration row,
                     cr_size = row_size row,
                     cr_id = row_id row \<rparr>))"

text \<open>\<open>rows.map(this.mapRowToRequest)\<close>: the first row that throws ends the map.\<close>

fun map_rows :: "RequestDbRow list \<Rightarrow> error + json CapturedRequest list" where
  "map_rows [] = Inr []"
| "map_rows (r # rs) =
     (case mapRowToRequest r of
        Inl e \<Rightarrow> Inl e
      | Inr c \<Rightarrow> (case map_rows rs of Inl e \<Rightarrow> Inl e | Inr cs \<Rightarrow> Inr (c # cs)))"

definition getRequests :: "TrafficStorage \<Rightarrow> FilterOptions option \<Rightarrow> error + json CapturedRequest list" where
  "getRequests st fo =
     (case db_handle st of
        None \<Rightarrow> Inl not_initialized
      | Some d \<Rightarrow> map_rows (select_requests d fo))"

definition getRequestById :: "TrafficStorage \<Rightarrow> int \<Rightarrow> error + json CapturedRequest option" where
  "getRequestById st i =
     (case db_handle st of
        None \<Rightarrow> Inl not_initialized
      | Some d \<Rightarrow>
          (case find (\<lambda>r. row_id r = i) (requests d) of
             None \<Rightarrow> Inr None
           | Some row \<Rightarrow> map_sum (\<lambda>e. e) Some (mapRowToRequest row)))"

definition getRequestCount :: "TrafficStorage \<Rightarrow> FilterOptions option \<Rightarrow> error + nat" where
  "getRequestCount st fo =
     (case db_handle st of
        None \<Rightarrow> Inl not_initialized
      | Some d \<Rightarrow> Inr (length (filter (count_where fo) (requests d))))"

section \<open>The JavaScript runtime\<close>

text \<open>
  What the code calls and does not define is a parameter of the model: \<open>regexp_test p s\<close>
  is \<open>new RegExp(p, 'i').test(s)\<close> (\<open>None\<close> when the constructor throws),
  \<open>url_parse\<close> is \<open>new URL(s)\<close> (\<open>None\<close> when it throws), \<open>utf8_decode\<close> is
  \<open>Buffer.toString('utf-8')\<close> (total: invalid sequences are replaced, nothing is thrown),
  \<open>utf8_encode\<close> is \<open>Buffer.from(s)\<close>, the three \<open>zlib\<close> functions return \<open>None\<close> when
  they throw, and \<open>status_text\<close> is the table \<open>http.STATUS_CODES\<close>.
\<close>

record parsed_url =
  pu_protocol :: string
  pu_hostname :: string
  pu_port :: string
  pu_pathname :: string
  pu_search :: string

record runtime =
  regexp_test :: "string \<Rightarrow> string \<Rightarrow> bool option"
  url_parse :: "string \<Rightarrow> parsed_url option"
  utf8_decode :: "buffer \<Rightarrow> string"
  utf8_encode :: "string \<Rightarrow> buffer"
  gunzipSync :: "buffer \<Rightarrow> buffer option"
  inflateSync :: "buffer \<Rightarrow> buffer option"
  brotliDecompressSync :: "buffer \<Rightarrow> buffer option"
  status_text :: "int \<Rightarrow> string option"

text \<open>Numbers in template strings.\<close>

definition digit_char :: "nat \<Rightarrow> char" where
  "digit_char n = ''0123456789'' ! n"

function show_nat :: "nat \<Rightarrow> string" where
  "show_nat n =
     (if n < 10 then [digit_char n] else show_nat (n div 10) @ [digit_char (n mod 10)])"
  by pat_completeness auto
termination
  by (relation "measure (\<lambda>n. n)") auto

declare show_nat.simps [simp del]

definition show_int :: "int \<Rightarrow> string" where
  "show_int i = (if i < 0 then CHR ''-'' # show_nat (nat (- i)) else show_nat (nat i))"

text \<open>\<open>a || b\<close> on an optional string: \<open>undefined\<close> and the empty string are falsy.\<close>

definition opt_or :: "string option \<Rightarrow> string \<Rightarrow> string" where
  "opt_or s dflt = (case s of None \<Rightarrow> dflt | Some v \<Rightarrow> truthy_or v dflt)"

text \<open>\<open>s || null\<close> on a string.\<close>

definition or_null :: "string \<Rightarrow> string option" where
  "or_null s = (if s = [] then None else Some s)"

section \<open>The mock engine (\<open>MockService\<close>)\<close>

record MockRule =
  rule_id :: string
  rule_enabled :: bool
  rule_name :: string
  rule_urlPattern :: string
  rule_method :: "string option"
  rule_responseStatus :: int
  rule_responseHeaders :: headers
  rule_responseBody :: string
  rule_delay :: "int option"

text \<open>
  The rules are the values of the \<open>Map\<close> in its iteration order (insertion order).
  \<open>findMatchingRule\<close> is the \<open>for\<close> loop: each \<open>continue\<close> and the fall-through after a
  failed test or a caught constructor error go on with the rest of the list.
\<close>

fun findMatchingRule :: "runtime \<Rightarrow> MockRule list \<Rightarrow> string \<Rightarrow> string \<Rightarrow> MockRule option" where
  "findMatchingRule rt [] method url = None"
| "findMatchingRule rt (rule # rest) method url =
     (if \<not> rule_enabled rule then findMatchingRule rt rest method url
      else if (case rule_method rule of
                 None \<Rightarrow> False
               | Some m \<Rightarrow> m \<noteq> [] \<and> m \<noteq> method) then findMatchingRule rt rest method url
      else (case regexp_test rt (rule_urlPattern rule) url of
              None \<Rightarrow> findMatchingRule rt rest method url
            | Some matched \<Rightarrow>
                if matched then Some rule else findMatchingRule rt rest method url))"

definition generateMockResponse :: "MockRule \<Rightarrow> int \<times> headers \<times> string" where
  "generateMockResponse rule =
     (rule_responseStatus rule, rule_responseHeaders rule, rule_responseBody rule)"

section \<open>The breakpoint rendezvous (\<open>BreakpointService\<close>)\<close>

record BreakpointConfig =
  bp_enabled :: bool
  breakOnRequest :: bool
  breakOnResponse :: bool
  bp_urlPattern :: "string option"

datatype direction = OnRequest | OnResponse

record InterceptedRequest =
  icp_id :: string
  icp_type :: direction
  icp_timestamp :: int
  icp_method :: string
  icp_url :: string
  icp_headers :: headers
  icp_body :: "string option"
  icp_status :: "int option"

text \<open>
  \<open>pendingRequests\<close> is the \<open>Map\<close> from pause id to the snapshot; the \<open>resolve\<close> and
  \<open>reject\<close> callbacks stored next to it are the one promise of that pause, whose
  settlement the operations below return: \<open>Resolved v\<close> or \<open>Rejected e\<close>.
\<close>

datatype 'a settled = Resolved 'a | Rejected error

record BreakpointService =
  bp_config :: BreakpointConfig
  pendingRequests :: "(string \<times> InterceptedRequest) list"

definition shouldBreak :: "runtime \<Rightarrow> BreakpointService \<Rightarrow> direction \<Rightarrow> string \<Rightarrow> string \<Rightarrow> bool" where
  "shouldBreak rt bs type method url =
     (if \<not> bp_enabled (bp_config bs) then False
      else if type = OnRequest \<and> \<not> breakOnRequest (bp_config bs) then False
      else if type = OnResponse \<and> \<not> breakOnResponse (bp_config bs) then False
      else (case bp_urlPattern (bp_config bs) of
              None \<Rightarrow> True
            | Some p \<Rightarrow>
                if p = [] then True
                else (case regexp_test rt p url of
                        None \<Rightarrow> False
                      | Some matched \<Rightarrow> matched)))"

text \<open>
  \<open>pauseAtBreakpoint\<close> up to the point where the caller waits: \<open>new_id\<close> is the
  \<open>randomUUID()\<close>, \<open>now\<close> the \<open>Date.now()\<close>. It returns the snapshot, which is also the
  payload of the \<open>breakpoint:hit\<close> event.
\<close>

definition pauseAtBreakpoint ::
  "BreakpointService \<Rightarrow> string \<Rightarrow> int \<Rightarrow> direction \<Rightarrow> string \<Rightarrow> string \<Rightarrow> headers
     \<Rightarrow> string option \<Rightarrow> int option \<Rightarrow> InterceptedRequest \<times> BreakpointService" where
  "pauseAtBreakpoint bs new_id now type method url hdrs body status =
     (let intercepted = \<lparr> icp_id = new_id, icp_type = type, icp_timestamp = now,
            icp_method = method, icp_url = url, icp_headers = hdrs, icp_body = body,
            icp_status = status \<rparr>
      in (intercepted,
          bs\<lparr>pendingRequests := AList.update new_id intercepted (pendingRequests bs)\<rparr>))"

text \<open>
  \<open>continue\<close>, \<open>drop\<close> and the five-minute timer. Each returns the settlement it delivers
  to the paused caller (\<open>None\<close> when it delivers none) and the new state.
\<close>

definition continue_bp ::
  "BreakpointService \<Rightarrow> string \<Rightarrow> InterceptedRequest option
     \<Rightarrow> InterceptedRequest option settled option \<times> BreakpointService" where
  "continue_bp bs i modified =
     (case map_of (pendingRequests bs) i of
        None \<Rightarrow> (None, bs)
      | Some pending \<Rightarrow>
          (Some (Resolved (Some (case modified of None \<Rightarrow> pending | Some m \<Rightarrow> m))),
           bs\<lparr>pendingRequests := AList.delete i (pendingRequests bs)\<rparr>))"

definition drop_bp ::
  "BreakpointService \<Rightarrow> string \<Rightarrow> InterceptedRequest option settled option \<times> BreakpointService" where
  "drop_bp bs i =
     (case map_of (pendingRequests bs) i of
        None \<Rightarrow> (None, bs)
      | Some pending \<Rightarrow>
          (Some (Rejected (Error ''Request dropped by user'')),
           bs\<lparr>pendingRequests := AList.delete i (pendingRequests bs)\<rparr>))"

definition timeout_bp ::
  "BreakpointService \<Rightarrow> string \<Rightarrow> InterceptedRequest option settled option \<times> BreakpointService" where
  "timeout_bp bs i =
     (case map_of (pendingRequests bs) i of
        None \<Rightarrow> (None, bs)
      | Some pending \<Rightarrow>
          (Some (Resolved None), bs\<lparr>pendingRequests := AList.delete i (pendingRequests bs)\<rparr>))"

text \<open>What the controller (or the timer) does with a pause.\<close>

datatype controller = CtlContinue "InterceptedRequest option" | CtlDrop | CtlTimeout

definition settle ::
  "BreakpointService \<Rightarrow> string \<Rightarrow> controller
     \<Rightarrow> InterceptedRequest option settled option \<times> BreakpointService" where
  "settle bs i ctl =
     (case ctl of
        CtlContinue modified \<Rightarrow> continue_bp bs i modified
      | CtlDrop \<Rightarrow> drop_bp bs i
      | CtlTimeout \<Rightarrow> timeout_bp bs i)"

section \<open>The proxy (\<open>ProxyServer\<close>)\<close>

subsection \<open>Messages, effects and the environment of one request\<close>

text \<open>
  \<open>http.IncomingHttpHeaders\<close>: a value is a string, an array of strings or undefined.
\<close>

datatype header_value = HString string | HArray "string list" | HUndefined

type_synonym raw_headers = "(string \<times> header_value) list"

fun join_strings :: "string \<Rightarrow> string list \<Rightarrow> string" where
  "join_strings sep [] = []"
| "join_strings sep [x] = x"
| "join_strings sep (x # y # ys) = x @ sep @ join_strings sep (y # ys)"

fun headersToRecord :: "raw_headers \<Rightarrow> headers" where
  "headersToRecord [] = []"
| "headersToRecord ((k, HString v) # rest) = (k, v) # headersToRecord rest"
| "headersToRecord ((k, HArray vs) # rest) = (k, join_strings '', '' vs) # headersToRecord rest"
| "headersToRecord ((k, HUndefined) # rest) = headersToRecord rest"

definition record_headers :: "headers \<Rightarrow> raw_headers" where
  "record_headers h = map (\<lambda>(k, v). (k, HString v)) h"

text \<open>
  \<open>headers['content-type'] || ''\<close> on incoming headers; Node delivers \<open>content-type\<close> and
  \<open>content-encoding\<close> as single strings.
\<close>

definition header_string :: "raw_headers \<Rightarrow> string \<Rightarrow> string" where
  "header_string h k = (case map_of h k of Some (HString v) \<Rightarrow> v | _ \<Rightarrow> [])"

datatype payload = Text string | Bytes buffer

record client_request =
  rq_method :: "string option"
  rq_url :: "string option"
  rq_headers :: raw_headers
  rq_chunks :: "buffer list"

record upstream_request =
  up_secure :: bool
  up_hostname :: string
  up_port :: string
  up_path :: string
  up_method :: "string option"
  up_headers :: raw_headers
  up_body :: "payload option"

record incoming_response =
  res_statusCode :: "int option"
  res_statusMessage :: "string option"
  res_headers :: raw_headers
  res_chunks :: "buffer list"

text \<open>
  The origin either fails before it answers (the \<open>error\<close> event, with its message) or
  answers with a complete response.
\<close>

datatype origin = OriginError string | OriginResponse incoming_response

datatype event =
    RequestComplete "json CapturedRequest"
  | RequestSaved "headers CapturedRequest"
  | BreakpointHit InterceptedRequest

text \<open>
  The effects of a handler, in the order they happen: a timer wait, an emitted event, a
  request opened to the origin, and what is written to the client (\<open>writeHead\<close>, piped
  chunks and \<open>end\<close> on the plain path, raw writes to the TLS socket on the MITM path).
\<close>

datatype action =
    Sleep int
  | Emit event
  | Upstream upstream_request
  | ClientWriteHead int raw_headers
  | ClientWrite buffer
  | ClientEnd "payload option"
  | SocketWrite payload

record ProxyServer =
  storage :: TrafficStorage
  breakpointService :: "BreakpointService option"
  mockService :: "MockRule list option"

text \<open>
  What one request meets: the clock at its start and at its completion, the id and clock of
  a pause, what the controller does with the pause, what the origin does, and whether the
  TLS client socket is still writable when its response is written.
\<close>

record environment =
  env_startTime :: int
  env_endTime :: int
  env_uuid :: string
  env_pauseTime :: int
  env_controller :: controller
  env_origin :: origin
  env_writable :: bool

text \<open>
  \<open>thrown\<close> is an exception that leaves the handler (a store that throws); \<open>suspended\<close>
  says that the handler still waits at a pause nobody settled.
\<close>

record outcome =
  trace :: "action list"
  final :: ProxyServer
  thrown :: "error option"
  suspended :: bool

definition finished :: "action list \<Rightarrow> ProxyServer \<Rightarrow> outcome" where
  "finished tr ps = \<lparr> trace = tr, final = ps, thrown = None, suspended = False \<rparr>"

definition threw :: "action list \<Rightarrow> ProxyServer \<Rightarrow> error \<Rightarrow> outcome" where
  "threw tr ps e = \<lparr> trace = tr, final = ps, thrown = Some e, suspended = False \<rparr>"

definition crlf :: string where
  "crlf = [CHR 0x0D, CHR 0x0A]"

subsection \<open>Stored copy of a response body\<close>

definition decompress_for_storage :: "runtime \<Rightarrow> string \<Rightarrow> buffer \<Rightarrow> buffer" where
  "decompress_for_storage rt contentEncoding body =
     (if contentEncoding = ''gzip'' then
        (case gunzipSync rt body of None \<Rightarrow> body | Some b \<Rightarrow> b)
      else if contentEncoding = ''deflate'' then
        (case inflateSync rt body of None \<Rightarrow> body | Some b \<Rightarrow> b)
      else if contentEncoding = ''br'' then
        (case brotliDecompressSync rt body of None \<Rightarrow> body | Some b \<Rightarrow> b)
      else body)"

definition maxSize :: nat where
  "maxSize = 5 * 1024 * 1024"

definition stored_body :: "runtime \<Rightarrow> buffer \<Rightarrow> string" where
  "stored_body rt decompressed =
     (if length decompressed \<le> maxSize then utf8_decode rt decompressed
      else ''[Body too large: '' @ show_nat (length decompressed) @ '' bytes]'')"

definition response_data :: "runtime \<Rightarrow> environment \<Rightarrow> incoming_response \<Rightarrow> ResponseData" where
  "response_data rt env res =
     \<lparr> rd_status = (case res_statusCode res of None \<Rightarrow> 0 | Some c \<Rightarrow> c),
       rd_responseHeaders = headersToRecord (res_headers res),
       rd_responseBody = Some (stored_body rt
         (decompress_for_storage rt (header_string (res_headers res) ''content-encoding'')
            (concat (res_chunks res)))),
       rd_contentType = header_string (res_headers res) ''content-type'',
       rd_duration = env_endTime env - env_startTime env,
       rd_size = int (length (concat (res_chunks res))) \<rparr>"

definition error_data :: "environment \<Rightarrow> string \<Rightarrow> ResponseData" where
  "error_data env msg =
     \<lparr> rd_status = 502, rd_responseHeaders = [], rd_responseBody = Some msg,
       rd_contentType = ''text/plain'', rd_duration = env_endTime env - env_startTime env,
       rd_size = 0 \<rparr>"

text \<open>
  \<open>updateResponse\<close>, then \<open>getRequestById\<close> and the \<open>request:complete\<close> event when the row
  is found; the continuation receives the trace so far and the new state.
\<close>

definition record_response ::
  "ProxyServer \<Rightarrow> int \<Rightarrow> ResponseData \<Rightarrow> action list \<Rightarrow> (action list \<Rightarrow> ProxyServer \<Rightarrow> outcome)
     \<Rightarrow> outcome" where
  "record_response ps requestId data tr k =
     (case updateResponse (storage ps) requestId data of
        Inl e \<Rightarrow> threw tr ps e
      | Inr st' \<Rightarrow>
          (case getRequestById st' requestId of
             Inl e \<Rightarrow> threw tr (ps\<lparr>storage := st'\<rparr>) e
           | Inr None \<Rightarrow> k tr (ps\<lparr>storage := st'\<rparr>)
           | Inr (Some done) \<Rightarrow> k (tr @ [Emit (RequestComplete done)]) (ps\<lparr>storage := st'\<rparr>)))"

subsection \<open>Mock responses\<close>

definition mock_delay :: "MockRule \<Rightarrow> action list" where
  "mock_delay rule =
     (case rule_delay rule of
        None \<Rightarrow> []
      | Some d \<Rightarrow> if d \<noteq> 0 \<and> 0 < d then [Sleep d] else [])"

definition mock_exchange ::
  "runtime \<Rightarrow> environment \<Rightarrow> MockRule \<Rightarrow> string \<Rightarrow> string \<Rightarrow> string \<Rightarrow> string \<Rightarrow> headers
     \<Rightarrow> string option \<Rightarrow> headers NewRequest" where
  "mock_exchange rt env rule method url host path reqHeaders reqBody =
     (case generateMockResponse rule of
        (status, hdrs, body) \<Rightarrow>
          \<lparr> cr_timestamp = env_startTime env,
            cr_method = method,
            cr_url = url,
            cr_host = host,
            cr_path = path,
            cr_status = status,
            cr_requestHeaders = reqHeaders,
            cr_requestBody = reqBody,
            cr_responseHeaders = hdrs,
            cr_responseBody = Some body,
            cr_contentType = opt_or (map_of hdrs ''content-type'') ''text/plain'',
            cr_duration = env_endTime env - env_startTime env
              + (case rule_delay rule of None \<Rightarrow> 0 | Some d \<Rightarrow> d),
            cr_size = int (length (utf8_encode rt body)) \<rparr>)"

text \<open>
  Saving the synthetic exchange, reading it back and emitting \<open>request:complete\<close>; the
  continuation writes the response.
\<close>

definition save_mock ::
  "ProxyServer \<Rightarrow> headers NewRequest \<Rightarrow> action list \<Rightarrow> (action list \<Rightarrow> ProxyServer \<Rightarrow> outcome)
     \<Rightarrow> outcome" where
  "save_mock ps captured tr k =
     (case saveRequest (storage ps) captured of
        Inl e \<Rightarrow> threw tr ps e
      | Inr (requestId, st') \<Rightarrow>
          (case getRequestById st' requestId of
             Inl e \<Rightarrow> threw tr (ps\<lparr>storage := st'\<rparr>) e
           | Inr None \<Rightarrow> k tr (ps\<lparr>storage := st'\<rparr>)
           | Inr (Some saved) \<Rightarrow> k (tr @ [Emit (RequestComplete saved)]) (ps\<lparr>storage := st'\<rparr>)))"

subsection \<open>\<open>handleRequest\<close>: plain HTTP\<close>

definition pending_exchange ::
  "environment \<Rightarrow> string \<Rightarrow> string \<Rightarrow> string \<Rightarrow> string \<Rightarrow> headers \<Rightarrow> string option
     \<Rightarrow> headers NewRequest" where
  "pending_exchange env method url host path reqHeaders reqBody =
     \<lparr> cr_timestamp = env_startTime env,
       cr_method = method,
       cr_url = url,
       cr_host = host,
       cr_path = path,
       cr_status = 0,
       cr_requestHeaders = reqHeaders,
       cr_requestBody = reqBody,
       cr_responseHeaders = [],
       cr_responseBody = None,
       cr_contentType = [],
       cr_duration = 0,
       cr_size = 0 \<rparr>"

text \<open>
  \<open>handleProxyResponse\<close>: the head and the chunks go to the client as they arrive; at the
  end of the response the row is updated from the collected chunks.
\<close>

definition handleProxyResponse ::
  "runtime \<Rightarrow> environment \<Rightarrow> ProxyServer \<Rightarrow> int \<Rightarrow> incoming_response \<Rightarrow> action list \<Rightarrow> outcome" where
  "handleProxyResponse rt env ps requestId proxyRes tr =
     record_response ps requestId (response_data rt env proxyRes)
       (tr @ [ClientWriteHead (case res_statusCode proxyRes of
                                 None \<Rightarrow> 200
                               | Some c \<Rightarrow> if c = 0 then 200 else c) (res_headers proxyRes)]
           @ map ClientWrite (res_chunks proxyRes) @ [ClientEnd None])
       finished"

text \<open>
  The exchange with the origin: the pending row is saved, the request is opened with
  \<open>options\<close> and the body string, and the response or the error is recorded.
\<close>

definition forward_plain ::
  "runtime \<Rightarrow> environment \<Rightarrow> ProxyServer \<Rightarrow> client_request \<Rightarrow> parsed_url \<Rightarrow> string
     \<Rightarrow> upstream_request \<Rightarrow> action list \<Rightarrow> outcome" where
  "forward_plain rt env ps clientReq parsedUrl reqBodyStr options tr =
     (case saveRequest (storage ps)
             (pending_exchange env (opt_or (rq_method clientReq) ''GET'')
                (opt_or (rq_url clientReq) []) (pu_hostname parsedUrl)
                (pu_pathname parsedUrl @ pu_search parsedUrl)
                (headersToRecord (rq_headers clientReq)) (or_null reqBodyStr)) of
        Inl e \<Rightarrow> threw tr ps e
      | Inr (requestId, st') \<Rightarrow>
          (let ps' = ps\<lparr>storage := st'\<rparr>;
               tr' = tr @ [Upstream (options\<lparr>up_body := map_option Text (or_null reqBodyStr)\<rparr>)]
           in case env_origin env of
                OriginResponse proxyRes \<Rightarrow> handleProxyResponse rt env ps' requestId proxyRes tr'
              | OriginError msg \<Rightarrow>
                  (case updateResponse st' requestId (error_data env msg) of
                     Inl e \<Rightarrow> threw tr' ps' e
                   | Inr st'' \<Rightarrow>
                       finished
                         (tr' @ [ClientWriteHead 502 [],
                                 ClientEnd (Some (Text (''Proxy Error: '' @ msg)))])
                         (ps'\<lparr>storage := st''\<rparr>))))"

text \<open>The \<open>options\<close> of the upstream request: the client's headers without \<open>proxy-connection\<close>.\<close>

definition request_options :: "client_request \<Rightarrow> parsed_url \<Rightarrow> upstream_request" where
  "request_options clientReq parsedUrl =
     \<lparr> up_secure = False,
       up_hostname = pu_hostname parsedUrl,
       up_port = truthy_or (pu_port parsedUrl) ''80'',
       up_path = pu_pathname parsedUrl @ pu_search parsedUrl,
       up_method = rq_method clientReq,
       up_headers = AList.delete ''proxy-connection'' (rq_headers clientReq),
       up_body = None \<rparr>"

definition handleRequest ::
  "runtime \<Rightarrow> environment \<Rightarrow> ProxyServer \<Rightarrow> client_request \<Rightarrow> outcome" where
  "handleRequest rt env ps clientReq =
     (let requestUrl = opt_or (rq_url clientReq) [];
          method = opt_or (rq_method clientReq) ''GET''
      in case url_parse rt requestUrl of
           None \<Rightarrow> finished [ClientWriteHead 400 [], ClientEnd (Some (Text ''Bad Request''))] ps
         | Some parsedUrl \<Rightarrow>
             (let options = request_options clientReq parsedUrl;
                  reqBodyStr = utf8_decode rt (concat (rq_chunks clientReq))
              in case (case mockService ps of
                         None \<Rightarrow> None
                       | Some rules \<Rightarrow> findMatchingRule rt rules method requestUrl) of
                   Some mockRule \<Rightarrow>
                     save_mock ps
                       (mock_exchange rt env mockRule method requestUrl (pu_hostname parsedUrl)
                          (pu_pathname parsedUrl @ pu_search parsedUrl)
                          (headersToRecord (rq_headers clientReq)) (or_null reqBodyStr))
                       (mock_delay mockRule)
                       (\<lambda>tr ps'. finished
                          (tr @ [ClientWriteHead (rule_responseStatus mockRule)
                                   (record_headers (rule_responseHeaders mockRule)),
                                 ClientEnd (Some (Text (rule_responseBody mockRule)))]) ps')
                 | None \<Rightarrow>
                     (case breakpointService ps of
                        None \<Rightarrow> forward_plain rt env ps clientReq parsedUrl reqBodyStr options []
                      | Some bs \<Rightarrow>
                          if shouldBreak rt bs OnRequest method requestUrl then
                            (case pauseAtBreakpoint bs (env_uuid env) (env_pauseTime env) OnRequest
                                    method requestUrl (headersToRecord (rq_headers clientReq))
                                    (or_null reqBodyStr) None of
                               (intercepted, bs1) \<Rightarrow>
                                 (case settle bs1 (env_uuid env) (env_controller env) of
                                    (None, bs2) \<Rightarrow>
                                      \<lparr> trace = [Emit (BreakpointHit intercepted)],
                                        final = ps\<lparr>breakpointService := Some bs2\<rparr>,
                                        thrown = None, suspended = True \<rparr>
                                  | (Some (Rejected e), bs2) \<Rightarrow>
                                      finished
                                        [Emit (BreakpointHit intercepted),
                                         ClientWriteHead 499
                                           [(''Content-Type'', HString ''text/plain'')],
                                         ClientEnd (Some (Text ''Request dropped by user''))]
                                        (ps\<lparr>breakpointService := Some bs2\<rparr>)
                                  | (Some (Resolved None), bs2) \<Rightarrow>
                                      forward_plain rt env (ps\<lparr>breakpointService := Some bs2\<rparr>)
                                        clientReq parsedUrl reqBodyStr options
                                        [Emit (BreakpointHit intercepted)]
                                  | (Some (Resolved (Some modified)), bs2) \<Rightarrow>
                                      forward_plain rt env (ps\<lparr>breakpointService := Some bs2\<rparr>)
                                        clientReq parsedUrl reqBodyStr
                                        (options\<lparr>up_method := Some (icp_method modified),
                                                 up_headers := record_headers (icp_headers modified)\<rparr>)
                                        [Emit (BreakpointHit intercepted)]))
                          else forward_plain rt env ps clientReq parsedUrl reqBodyStr options [])))"

subsection \<open>\<open>processHttpsRequest\<close>: the MITM path\<close>

definition fullUrl :: "string \<Rightarrow> int \<Rightarrow> string \<Rightarrow> string" where
  "fullUrl hostname port path =
     ''https://'' @ hostname @ (if port \<noteq> 443 then '':'' @ show_int port else []) @ path"

definition header_lines :: "headers \<Rightarrow> string" where
  "header_lines h = concat (map (\<lambda>(k, v). k @ '': '' @ v @ crlf) h)"

text \<open>The response head of a mock: status line, the rule's headers, \<open>Content-Length\<close>.\<close>

definition mock_head :: "runtime \<Rightarrow> int \<Rightarrow> headers \<Rightarrow> nat \<Rightarrow> string" where
  "mock_head rt status hdrs len =
     ''HTTP/1.1 '' @ show_int status @ '' ''
       @ opt_or (status_text rt status) ''OK'' @ crlf
       @ header_lines hdrs
       @ ''Content-Length: '' @ show_nat len @ crlf
       @ crlf"

definition sendMockResponseToHttpsClient ::
  "runtime \<Rightarrow> environment \<Rightarrow> ProxyServer \<Rightarrow> MockRule \<Rightarrow> string \<Rightarrow> string \<Rightarrow> string \<Rightarrow> string
     \<Rightarrow> headers \<Rightarrow> buffer \<Rightarrow> action list \<Rightarrow> outcome" where
  "sendMockResponseToHttpsClient rt env ps mockRule url hostname path method reqHeaders body tr =
     save_mock ps
       (mock_exchange rt env mockRule method url hostname path reqHeaders
          (if body = [] then None else Some (utf8_decode rt body)))
       tr
       (\<lambda>tr' ps'.
          if \<not> env_writable env then finished tr' ps'
          else finished
            (tr' @ [SocketWrite (Text (mock_head rt (rule_responseStatus mockRule)
                       (rule_responseHeaders mockRule)
                       (length (utf8_encode rt (rule_responseBody mockRule))))),
                    SocketWrite (Bytes (utf8_encode rt (rule_responseBody mockRule)))]) ps')"

text \<open>
  The head written back for an origin response: every header but \<open>Transfer-Encoding\<close>, an
  array value as one line per element, then the \<open>Content-Length\<close> of the collected body.
\<close>

fun forwarded_header_lines :: "raw_headers \<Rightarrow> string" where
  "forwarded_header_lines [] = []"
| "forwarded_header_lines ((k, v) # rest) =
     (if map ascii_lower k = ''transfer-encoding'' then forwarded_header_lines rest
      else (case v of
              HString s \<Rightarrow> k @ '': '' @ s @ crlf
            | HArray vs \<Rightarrow> concat (map (\<lambda>s. k @ '': '' @ s @ crlf) vs)
            | HUndefined \<Rightarrow> []) @ forwarded_header_lines rest)"

definition response_head :: "incoming_response \<Rightarrow> nat \<Rightarrow> string" where
  "response_head proxyRes len =
     ''HTTP/1.1 ''
       @ (case res_statusCode proxyRes of None \<Rightarrow> ''undefined'' | Some c \<Rightarrow> show_int c)
       @ '' '' @ opt_or (res_statusMessage proxyRes) [] @ crlf
       @ forwarded_header_lines (res_headers proxyRes)
       @ ''Content-Length: '' @ show_nat len @ crlf
       @ crlf"

definition processHttpsRequest ::
  "runtime \<Rightarrow> environment \<Rightarrow> ProxyServer \<Rightarrow> string \<Rightarrow> int \<Rightarrow> string \<Rightarrow> string \<Rightarrow> headers
     \<Rightarrow> buffer \<Rightarrow> outcome" where
  "processHttpsRequest rt env ps hostname port method path reqHeaders body =
     (let url = fullUrl hostname port path;
          outHeaders = AList.update ''host'' hostname (AList.delete ''proxy-connection'' reqHeaders)
      in case (case mockService ps of
                 None \<Rightarrow> None
               | Some rules \<Rightarrow> findMatchingRule rt rules method url) of
           Some mockRule \<Rightarrow>
             sendMockResponseToHttpsClient rt env ps mockRule url hostname path method reqHeaders
               body (mock_delay mockRule)
         | None \<Rightarrow>
             (let captured = pending_exchange env method url hostname path reqHeaders
                    (if body = [] then None else Some (utf8_decode rt body))
              in case saveRequest (storage ps) captured of
                   Inl e \<Rightarrow> threw [] ps e
                 | Inr (requestId, st') \<Rightarrow>
                     (let ps' = ps\<lparr>storage := st'\<rparr>;
                          tr = [Emit (RequestSaved (NewRequest.extend captured
                                    (CapturedRequest.fields requestId))),
                                Upstream \<lparr> up_secure = True, up_hostname = hostname,
                                  up_port = show_int port, up_path = path,
                                  up_method = Some method,
                                  up_headers = record_headers outHeaders,
                                  up_body = (if body = [] then None else Some (Bytes body)) \<rparr>]
                      in case env_origin env of
                           OriginResponse proxyRes \<Rightarrow>
                             record_response ps' requestId (response_data rt env proxyRes) tr
                               (\<lambda>tr' ps''.
                                  if \<not> env_writable env then finished tr' ps''
                                  else finished
                                    (tr' @ [SocketWrite (Text (response_head proxyRes
                                               (length (concat (res_chunks proxyRes))))),
                                            SocketWrite (Bytes (concat (res_chunks proxyRes)))])
                                    ps'')
                         | OriginError msg \<Rightarrow>
                             (case updateResponse st' requestId (error_data env msg) of
                                Inl e \<Rightarrow> threw tr ps' e
                              | Inr st'' \<Rightarrow>
                                  finished
                                    (tr @ [SocketWrite (Text (''HTTP/1.1 502 Bad Gateway'' @ crlf @ crlf))])
                                    (ps'\<lparr>storage := st''\<rparr>)))))"

section \<open>Replay and composer (\<open>RequestComposer\<close>)\<close>

record ComposedRequest =
  cmp_method :: string
  cmp_url :: string
  cmp_headers :: headers
  cmp_body :: "string option"

record RequestComposer =
  requestIdCounter :: int

definition new_composer :: RequestComposer where
  "new_composer = \<lparr> requestIdCounter = 1000000 \<rparr>"

text \<open>
  \<open>sendRequest\<close> returns the settlement of its promise, the new state of the composer and
  the request it opened, if any. The counter is read and incremented before the promise is
  built, so a call that is rejected consumes an id as well. \<open>now\<close> is the clock at entry,
  \<open>env_endTime\<close> the clock when the response has ended.
\<close>

definition lower_headers :: "raw_headers \<Rightarrow> headers" where
  "lower_headers h = headersToRecord (map (\<lambda>(k, v). (map ascii_lower k, v)) h)"

definition sendRequest ::
  "runtime \<Rightarrow> environment \<Rightarrow> RequestComposer \<Rightarrow> ComposedRequest
     \<Rightarrow> headers CapturedRequest settled \<times> RequestComposer \<times> upstream_request option" where
  "sendRequest rt env rc composedRequest =
     (let startTime = env_startTime env;
          requestId = requestIdCounter rc;
          rc' = rc\<lparr>requestIdCounter := requestIdCounter rc + 1\<rparr>
      in case url_parse rt (cmp_url composedRequest) of
           None \<Rightarrow> (Rejected (Error ''Invalid URL''), rc', None)
         | Some parsedUrl \<Rightarrow>
             (let isHttps = (pu_protocol parsedUrl = ''https:'');
                  body = (case cmp_body composedRequest of None \<Rightarrow> [] | Some b \<Rightarrow> b);
                  hdrs = (if body = [] then cmp_headers composedRequest
                          else AList.update ''content-length''
                                 (show_nat (length (utf8_encode rt body)))
                                 (cmp_headers composedRequest));
                  request = \<lparr> up_secure = isHttps,
                              up_hostname = pu_hostname parsedUrl,
                              up_port = truthy_or (pu_port parsedUrl) (if isHttps then ''443'' else ''80''),
                              up_path = pu_pathname parsedUrl @ pu_search parsedUrl,
                              up_method = Some (cmp_method composedRequest),
                              up_headers = record_headers hdrs,
                              up_body = map_option Text (or_null body) \<rparr>
              in case env_origin env of
                   OriginError msg \<Rightarrow> (Rejected (Error (''Request failed: '' @ msg)), rc', Some request)
                 | OriginResponse incomingMessage \<Rightarrow>
                     (let responseBody = utf8_decode rt (concat (res_chunks incomingMessage));
                          responseHeaders = lower_headers (res_headers incomingMessage)
                      in (Resolved
                            \<lparr> cr_timestamp = startTime,
                              cr_method = cmp_method composedRequest,
                              cr_url = cmp_url composedRequest,
                              cr_host = pu_hostname parsedUrl,
                              cr_path = pu_pathname parsedUrl @ pu_search parsedUrl,
                              cr_status = (case res_statusCode incomingMessage of
                                             None \<Rightarrow> 0 | Some c \<Rightarrow> c),
                              cr_requestHeaders = cmp_headers composedRequest,
                              cr_requestBody = or_null body,
                              cr_responseHeaders = responseHeaders,
                              cr_responseBody = or_null responseBody,
                              cr_contentType = opt_or (map_of responseHeaders ''content-type'')
                                                 ''text/plain'',
                              cr_duration = env_endTime env - startTime,
                              cr_size = int (length responseBody),
                              cr_id = requestId \<rparr>,
                          rc', Some request))))"

definition replayRequest ::
  "runtime \<Rightarrow> environment \<Rightarrow> RequestComposer \<Rightarrow> headers CapturedRequest
     \<Rightarrow> headers CapturedRequest settled \<times> RequestComposer \<times> upstream_request option" where
  "replayRequest rt env rc originalRequest =
     sendRequest rt env rc
       \<lparr> cmp_method = cr_method originalRequest,
         cmp_url = cr_url originalRequest,
         cmp_headers = cr_requestHeaders originalRequest,
         cmp_body = (case cr_requestBody originalRequest of
                       None \<Rightarrow> None
                     | Some b \<Rightarrow> or_null b) \<rparr>"

text \<open>A sequence of \<open>sendRequest\<close> calls on one composer: the settlements, in order.\<close>

fun send_all ::
  "runtime \<Rightarrow> RequestComposer \<Rightarrow> (environment \<times> ComposedRequest) list
     \<Rightarrow> headers CapturedRequest settled list \<times> RequestComposer" where
  "send_all rt rc [] = ([], rc)"
| "send_all rt rc ((env, req) # calls) =
     (case sendRequest rt env rc req of
        (result, rc', sent) \<Rightarrow>
          (case send_all rt rc' calls of
             (results, rc'') \<Rightarrow> (result # results, rc'')))"

section \<open>A runtime for the examples\<close>

text \<open>
  The theorems below hold for every runtime. Their examples run on \<open>demo_runtime\<close>, which
  agrees with Node on the inputs the examples use: a regular-expression matcher for
  patterns made of literal characters, escaped punctuation, \<open>.\<close> and a postfix \<open>*\<close>
  (any other pattern is reported as one that does not compile), a URL parser for
  \<open>scheme://host[:port][/path][?query]\<close>, the identity as UTF-8 codec (ASCII text), and
  decompressors that reject their input.
\<close>

datatype rx_atom = RxAny | RxLit char

definition rx_meta :: "char \<Rightarrow> bool" where
  "rx_meta c = (c \<in> set ''*+?()[]{}|^$'')"

definition rx_alnum :: "char \<Rightarrow> bool" where
  "rx_alnum c = (is_digit c \<or> (97 \<le> (of_char c :: nat) \<and> (of_char c :: nat) \<le> 122)
     \<or> (65 \<le> (of_char c :: nat) \<and> (of_char c :: nat) \<le> 90))"

fun rx_star :: "rx_atom \<Rightarrow> string \<Rightarrow> (rx_atom \<times> bool) \<times> string" where
  "rx_star a [] = ((a, False), [])"
| "rx_star a (c # cs) = (if c = CHR ''*'' then ((a, True), cs) else ((a, False), c # cs))"

lemma rx_star_length [termination_simp]: "rx_star a cs = (p, r) \<Longrightarrow> length r \<le> length cs"
  by (cases cs) (auto split: if_splits)

function rx_atoms :: "string \<Rightarrow> (rx_atom \<times> bool) list option" where
  "rx_atoms [] = Some []"
| "rx_atoms (c # cs) =
     (if c = CHR 0x5C then
        (case cs of
           [] \<Rightarrow> None
         | e # cs' \<Rightarrow>
             if rx_alnum e then None
             else (case rx_star (RxLit e) cs' of
                     (p, r) \<Rightarrow> if length r \<le> length cs' then map_option (Cons p) (rx_atoms r) else None))
      else if rx_meta c then None
      else (case rx_star (if c = CHR ''.'' then RxAny else RxLit c) cs of
              (p, r) \<Rightarrow> if length r \<le> length cs then map_option (Cons p) (rx_atoms r) else None))"
  by pat_completeness auto
termination
  by (relation "measure length") auto

definition rx_ok :: "rx_atom \<Rightarrow> char \<Rightarrow> bool" where
  "rx_ok a c =
     (case a of
        RxAny \<Rightarrow> c \<noteq> CHR 0x0A \<and> c \<noteq> CHR 0x0D
      | RxLit l \<Rightarrow> ascii_lower l = ascii_lower c)"

fun rx_here :: "(rx_atom \<times> bool) list \<Rightarrow> string \<Rightarrow> bool" where
  "rx_here [] s = True"
| "rx_here ((a, starred) # as) s =
     (if starred then
        (if rx_here as s then True
         else (case s of [] \<Rightarrow> False | c # s' \<Rightarrow> if rx_ok a c then rx_here ((a, starred) # as) s' else False))
      else (case s of [] \<Rightarrow> False | c # s' \<Rightarrow> if rx_ok a c then rx_here as s' else False))"

fun rx_search :: "(rx_atom \<times> bool) list \<Rightarrow> string \<Rightarrow> bool" where
  "rx_search as [] = rx_here as []"
| "rx_search as (c # s) = (if rx_here as (c # s) then True else rx_search as s)"

definition demo_regexp :: "string \<Rightarrow> string \<Rightarrow> bool option" where
  "demo_regexp p s = map_option (\<lambda>as. rx_search as s) (rx_atoms p)"

definition demo_url_parse :: "string \<Rightarrow> parsed_url option" where
  "demo_url_parse s =
     (let scheme = takeWhile (\<lambda>c. c \<noteq> CHR '':'') s;
          rest = dropWhile (\<lambda>c. c \<noteq> CHR '':'') s;
          after = drop 3 rest;
          authority = takeWhile (\<lambda>c. c \<notin> set ''/?#'') after;
          tail = takeWhile (\<lambda>c. c \<noteq> CHR ''#'') (dropWhile (\<lambda>c. c \<notin> set ''/?#'') after);
          port = drop 1 (dropWhile (\<lambda>c. c \<noteq> CHR '':'') authority);
          path = takeWhile (\<lambda>c. c \<noteq> CHR ''?'') tail;
          query = dropWhile (\<lambda>c. c \<noteq> CHR ''?'') tail
      in if scheme = [] \<or> take 3 rest \<noteq> ''://'' \<or> authority = [] then None
         else Some \<lparr> pu_protocol = scheme @ '':'',
                     pu_hostname = map ascii_lower (takeWhile (\<lambda>c. c \<noteq> CHR '':'') authority),
                     pu_port = (if (scheme = ''http'' \<and> port = ''80'')
                                   \<or> (scheme = ''https'' \<and> port = ''443'') then [] else port),
                     pu_pathname = (if path = [] then ''/'' else path),
                     pu_search = (if query = ''?'' then [] else query) \<rparr>)"

definition demo_runtime :: runtime where
  "demo_runtime =
     \<lparr> regexp_test = demo_regexp,
       url_parse = demo_url_parse,
       utf8_decode = (\<lambda>b. b),
       utf8_encode = (\<lambda>s. s),
       gunzipSync = (\<lambda>b. None),
       inflateSync = (\<lambda>b. None),
       brotliDecompressSync = (\<lambda>b. None),
       status_text = map_of [(200, ''OK''), (404, ''Not Found''), (502, ''Bad Gateway'')] \<rparr>"

section \<open>Properties of the JSON functions\<close>

lemma is_hex_hex_digit: "n < 16 \<Longrightarrow> is_hex (hex_digit n)"
proof -
  assume "n < 16"
  then consider "n < 10" | "10 \<le> n \<and> n < 16" by linarith
  then show ?thesis
  proof cases
    case 1
    then show ?thesis by (simp add: is_hex_def is_digit_def hex_digit_def)
  next
    case 2
    then show ?thesis by (simp add: is_hex_def is_digit_def hex_digit_def)
  qed
qed

lemma scan_string_quote_char:
  "scan_string (json_quote_char c @ t) =
     map_option (\<lambda>(s, r). (json_quote_char c @ s, r)) (scan_string t)"
proof (cases "(of_char c :: nat) < 32 \<or> c = CHR 0x22 \<or> c = CHR 0x5C")
  case False
  then show ?thesis
    by (simp add: json_quote_char_def)
next
  case True
  show ?thesis
  proof (cases "c \<in> set [CHR 0x22, CHR 0x5C, CHR 0x08, CHR 0x0C, CHR 0x0A, CHR 0x0D, CHR 0x09]")
    case True
    then show ?thesis
      by (auto simp: json_quote_char_def)
  next
    case False
    with True have lt: "(of_char c :: nat) < 32" by auto
    then have h1: "is_hex (hex_digit ((of_char c :: nat) div 16))"
      and h2: "is_hex (hex_digit ((of_char c :: nat) mod 16))"
      by (auto intro!: is_hex_hex_digit)
    have h0: "is_hex CHR ''0''" by (simp add: is_hex_def is_digit_def)
    from False lt h0 h1 h2 show ?thesis
      by (simp add: json_quote_char_def)
  qed
qed

lemma scan_string_escape:
  "scan_string (json_escape s @ CHR 0x22 # rest) = Some (json_escape s, rest)"
proof (induction s)
  case Nil
  then show ?case by (simp add: json_escape_def)
next
  case (Cons c s)
  have "json_escape (c # s) = json_quote_char c @ json_escape s"
    by (simp add: json_escape_def)
  with Cons show ?case
    by (simp add: scan_string_quote_char del: scan_string.simps)
qed

lemma skip_ws_quote [simp]: "skip_ws (CHR 0x22 # t) = CHR 0x22 # t"
  by (simp add: skip_ws_def is_ws_def)

lemma skip_ws_punct [simp]:
  "skip_ws (CHR '':'' # t) = CHR '':'' # t"
  "skip_ws (CHR '','' # t) = CHR '','' # t"
  "skip_ws (CHR ''}'' # t) = CHR ''}'' # t"
  "skip_ws (CHR ''{'' # t) = CHR ''{'' # t"
  by (simp_all add: skip_ws_def is_ws_def)

lemma parse_value_quote:
  "parse_value (json_quote v @ rest) = Some (JString (json_escape v), rest)"
  unfolding json_quote_def
  by (subst parse_value.simps) (simp add: scan_string_escape del: scan_string.simps)

lemma parse_members_single:
  "parse_members (json_quote k @ CHR '':'' # json_quote v @ CHR ''}'' # rest) =
     Some ([(json_escape k, JString (json_escape v))], rest)"
  unfolding json_quote_def [of k]
  by (subst parse_members.simps)
    (simp add: scan_string_escape parse_value_quote del: scan_string.simps)

lemma parse_members_more:
  "parse_members (json_quote k @ CHR '':'' # json_quote v @ CHR '','' # t) =
     map_option (\<lambda>(ms, r). ((json_escape k, JString (json_escape v)) # ms, r)) (parse_members t)"
  unfolding json_quote_def [of k]
  by (subst parse_members.simps)
    (simp add: scan_string_escape parse_value_quote del: scan_string.simps)

lemma parse_members_stringify:
  "h \<noteq> [] \<Longrightarrow>
   parse_members (stringify_members h @ CHR ''}'' # rest) =
     Some (map (\<lambda>(k, v). (json_escape k, JString (json_escape v))) h, rest)"
proof (induction h rule: stringify_members.induct)
  case 1
  then show ?case by simp
next
  case (2 k v)
  show ?case using parse_members_single [of k v rest] by simp
next
  case (3 k v m ms)
  then show ?case
    using parse_members_more [of k v "stringify_members (m # ms) @ CHR ''}'' # rest"] by simp
qed

lemma stringify_members_starts_quote:
  "h \<noteq> [] \<Longrightarrow> \<exists>t. stringify_members h = CHR 0x22 # t"
  by (induction h rule: stringify_members.induct) (simp_all add: json_quote_def)

lemma json_parse_stringify: "json_parse (json_stringify h) = Some (headers_json h)"
proof (cases "h = []")
  case True
  have "parse_value ''{}'' = Some (JObject [], [])"
    by (subst parse_value.simps) simp
  with True show ?thesis
    by (simp add: json_parse_def json_stringify_def headers_json_def skip_ws_def)
next
  case False
  then obtain t where t: "stringify_members h = CHR 0x22 # t"
    using stringify_members_starts_quote by blast
  have "parse_value (CHR ''{'' # stringify_members h @ ''}'') = Some (headers_json h, [])"
    using parse_members_stringify [OF False, of "[]"] t
    by (subst parse_value.simps) (simp add: headers_json_def)
  then show ?thesis
    by (simp add: json_parse_def json_stringify_def skip_ws_def)
qed

lemma json_parse_empty_object: "json_parse ''{}'' = Some (JObject [])"
  using json_parse_stringify [of "[]"] by (simp add: json_stringify_def headers_json_def)

lemma json_parse_open_brace: "json_parse ''{'' = None"
proof -
  have "parse_value ''{'' = None"
    by (subst parse_value.simps) (simp add: skip_ws_def)
  then show ?thesis by (simp add: json_parse_def)
qed

section \<open>Properties of the request store\<close>

subsection \<open>Example data\<close>

definition demo_row :: "int \<Rightarrow> int \<Rightarrow> string \<Rightarrow> int \<Rightarrow> RequestDbRow" where
  "demo_row i ts m code =
     \<lparr> row_id = i, row_timestamp = ts, row_method = m,
       row_url = ''http://example.test/hi'', row_host = ''example.test'', row_path = ''/hi'',
       row_status = code, row_request_headers = ''{}'', row_request_body = None,
       row_response_headers = ''{}'', row_response_body = Some ''hello'',
       row_content_type = ''text/plain'', row_duration = 3, row_size = 5 \<rparr>"

text \<open>
  The planner of the examples gives every row the rank 0, so rows with the same timestamp
  come out in rowid order: the order of a walk along \<open>idx_timestamp\<close>, the index on
  \<open>(timestamp DESC, rowid)\<close>, which serves the query that has no \<open>WHERE\<close> term.
\<close>

definition rowid_order :: "FilterOptions option \<Rightarrow> RequestDbRow list \<Rightarrow> RequestDbRow \<Rightarrow> nat" where
  "rowid_order fo rows r = 0"

definition demo_store :: "RequestDbRow list \<Rightarrow> TrafficStorage" where
  "demo_store rows =
     \<lparr> db_handle = Some \<lparr> requests = rows, sequence = int (length rows),
                           planner = rowid_order \<rparr> \<rparr>"

definition no_filter :: FilterOptions where
  "no_filter = \<lparr> searchQuery = None, methods = None, statusCodes = None, hosts = None,
     contentTypes = None, dateRange = None, limit = None, offset = None \<rparr>"

definition rows_of :: "TrafficStorage \<Rightarrow> RequestDbRow list" where
  "rows_of st = (case db_handle st of None \<Rightarrow> [] | Some d \<Rightarrow> requests d)"

subsection \<open>Reading rows back\<close>

lemma map_rows_length: "map_rows rows = Inr cs \<Longrightarrow> length cs = length rows"
  by (induction rows arbitrary: cs) (auto split: sum.splits)

lemma map_rows_timestamps:
  "map_rows rows = Inr cs \<Longrightarrow> map cr_timestamp cs = map row_timestamp rows"
proof (induction rows arbitrary: cs)
  case Nil
  then show ?case by simp
next
  case (Cons r rows)
  then obtain c cs' where c: "mapRowToRequest r = Inr c" and cs': "map_rows rows = Inr cs'"
    and cs: "cs = c # cs'"
    by (auto split: sum.splits)
  from c have "cr_timestamp c = row_timestamp r"
    by (auto simp: mapRowToRequest_def split: option.splits)
  with Cons.IH [OF cs'] cs show ?case by simp
qed

lemma mapRowToRequest_demo_row:
  "mapRowToRequest (demo_row i ts m code) =
     Inr \<lparr> cr_timestamp = ts, cr_method = m, cr_url = ''http://example.test/hi'',
           cr_host = ''example.test'', cr_path = ''/hi'', cr_status = code,
           cr_requestHeaders = JObject [], cr_requestBody = None,
           cr_responseHeaders = JObject [], cr_responseBody = Some ''hello'',
           cr_contentType = ''text/plain'', cr_duration = 3, cr_size = 5, cr_id = i \<rparr>"
  by (simp add: mapRowToRequest_def demo_row_def truthy_or_def json_parse_empty_object)

subsection \<open>List and count\<close>

definition unset_list :: "'a list option \<Rightarrow> bool" where
  "unset_list vs = (vs = None \<or> vs = Some [])"

text \<open>A filter that sets at most \<open>searchQuery\<close> (and \<open>offset\<close>, which is read only under \<open>limit\<close>).\<close>

definition search_only :: "FilterOptions option \<Rightarrow> bool" where
  "search_only fo =
     (case fo of
        None \<Rightarrow> True
      | Some f \<Rightarrow>
          unset_list (methods f) \<and> unset_list (statusCodes f) \<and> unset_list (hosts f)
            \<and> unset_list (contentTypes f) \<and> dateRange f = None
            \<and> (limit f = None \<or> limit f = Some 0))"

lemma unset_list_in_clause: "unset_list vs \<Longrightarrow> in_clause vs x"
  by (cases vs) (auto simp: unset_list_def in_clause_def)

lemma unset_list_content_type_clause: "unset_list vs \<Longrightarrow> content_type_clause vs r"
  by (cases vs) (auto simp: unset_list_def content_type_clause_def)

lemma search_only_where: "search_only fo \<Longrightarrow> list_where fo r = count_where fo r"
proof (cases fo)
  case None
  then show ?thesis by (simp add: list_where_def count_where_def)
next
  case (Some f)
  assume "search_only fo"
  with Some have u: "unset_list (methods f)" "unset_list (statusCodes f)" "unset_list (hosts f)"
    "unset_list (contentTypes f)" and dr: "dateRange f = None"
    by (simp_all add: search_only_def)
  from Some dr show ?thesis
    by (simp add: list_where_def count_where_def date_clause_def
        unset_list_in_clause [OF u(1)] unset_list_in_clause [OF u(2)]
        unset_list_in_clause [OF u(3)] unset_list_content_type_clause [OF u(4)])
qed

lemma search_only_where_eq: "search_only fo \<Longrightarrow> list_where fo = count_where fo"
  by (rule ext) (rule search_only_where)

lemma search_only_paginate: "search_only fo \<Longrightarrow> paginate fo xs = xs"
proof (cases fo)
  case None
  then show ?thesis by (simp add: paginate_def)
next
  case (Some f)
  assume "search_only fo"
  with Some have "limit f = None \<or> limit f = Some 0"
    by (simp add: search_only_def)
  with Some show ?thesis by (auto simp: paginate_def)
qed

lemma length_order_by_timestamp_desc [simp]:
  "length (order_by_timestamp_desc rank rows) = length rows"
  by (simp add: order_by_timestamp_desc_def)

lemma select_demo_methods:
  "select_requests \<lparr>requests = [demo_row 1 10 ''GET'' 200, demo_row 2 20 ''POST'' 200], sequence = 2, planner = rowid_order\<rparr>
        (Some (no_filter\<lparr>methods := Some [''GET'']\<rparr>)) = [demo_row 1 10 ''GET'' 200]"
  apply (simp add: select_requests_def paginate_def no_filter_def)
  apply (simp add: list_where_def search_clause_def in_clause_def content_type_clause_def date_clause_def)
  apply (simp add: demo_row_def order_by_timestamp_desc_def rowid_order_def)
  done

lemma select_demo_limit:
  "select_requests \<lparr>requests = [demo_row 1 10 ''GET'' 200, demo_row 2 20 ''POST'' 200], sequence = 2, planner = rowid_order\<rparr>
        (Some (no_filter\<lparr>limit := Some 1\<rparr>)) = [demo_row 2 20 ''POST'' 200]"
  apply (simp add: select_requests_def paginate_def no_filter_def sql_limit_def)
  apply (simp add: list_where_def search_clause_def in_clause_def content_type_clause_def date_clause_def)
  apply (simp add: demo_row_def order_by_timestamp_desc_def rowid_order_def)
  done

lemma count_demo:
  "getRequestCount (demo_store [demo_row 1 10 ''GET'' 200, demo_row 2 20 ''POST'' 200])
        (Some (no_filter\<lparr>methods := ms, limit := l\<rparr>)) = Inr 2"
  by (simp add: getRequestCount_def demo_store_def count_where_def search_clause_def no_filter_def)

text \<open>
  C1, as stated: for every filter the list has as many rows as the count reports. It fails
  in two ways on a table of one GET and one POST row: \<open>getRequestCount\<close> reads only
  \<open>searchQuery\<close>, so the filter \<open>methods = [GET]\<close> lists 1 row and counts 2; and the
  count never paginates, so \<open>limit = 1\<close> lists 1 row and counts 2.
\<close>

theorem C1_list_count_differ:
  "map_sum (\<lambda>e. e) length
     (getRequests (demo_store [demo_row 1 10 ''GET'' 200, demo_row 2 20 ''POST'' 200])
        (Some (no_filter\<lparr>methods := Some [''GET'']\<rparr>))) = Inr 1
   \<and> getRequestCount (demo_store [demo_row 1 10 ''GET'' 200, demo_row 2 20 ''POST'' 200])
        (Some (no_filter\<lparr>methods := Some [''GET'']\<rparr>)) = Inr 2
   \<and> map_sum (\<lambda>e. e) length
     (getRequests (demo_store [demo_row 1 10 ''GET'' 200, demo_row 2 20 ''POST'' 200])
        (Some (no_filter\<lparr>limit := Some 1\<rparr>))) = Inr 1
   \<and> getRequestCount (demo_store [demo_row 1 10 ''GET'' 200, demo_row 2 20 ''POST'' 200])
        (Some (no_filter\<lparr>limit := Some 1\<rparr>)) = Inr 2"
proof -
  have c1: "getRequestCount (demo_store [demo_row 1 10 ''GET'' 200, demo_row 2 20 ''POST'' 200])
        (Some (no_filter\<lparr>methods := Some [''GET'']\<rparr>)) = Inr 2"
    by (simp add: getRequestCount_def demo_store_def count_where_def search_clause_def no_filter_def)
  have c2: "getRequestCount (demo_store [demo_row 1 10 ''GET'' 200, demo_row 2 20 ''POST'' 200])
        (Some (no_filter\<lparr>limit := Some 1\<rparr>)) = Inr 2"
    by (simp add: getRequestCount_def demo_store_def count_where_def search_clause_def no_filter_def)
  have l1: "map_sum (\<lambda>e. e) length
     (getRequests (demo_store [demo_row 1 10 ''GET'' 200, demo_row 2 20 ''POST'' 200])
        (Some (no_filter\<lparr>methods := Some [''GET'']\<rparr>))) = Inr 1"
    by (simp add: getRequests_def demo_store_def select_demo_methods mapRowToRequest_demo_row)
  have l2: "map_sum (\<lambda>e. e) length
     (getRequests (demo_store [demo_row 1 10 ''GET'' 200, demo_row 2 20 ''POST'' 200])
        (Some (no_filter\<lparr>limit := Some 1\<rparr>))) = Inr 1"
    by (simp add: getRequests_def demo_store_def select_demo_limit mapRowToRequest_demo_row)
  from c1 c2 l1 l2 show ?thesis by simp
qed


text \<open>
  C1, amended: for every filter that sets at most \<open>searchQuery\<close> (no methods, status codes,
  hosts, content types or date range, and no limit), whenever \<open>getRequests\<close> returns, the
  number of rows it returns is the value of \<open>getRequestCount\<close> for the same filter.
\<close>

theorem C1_search_only_count:
  assumes "search_only fo" and "getRequests st fo = Inr rs"
  shows "getRequestCount st fo = Inr (length rs)"
proof -
  from assms(2) obtain d where d: "db_handle st = Some d"
    and rs: "map_rows (select_requests d fo) = Inr rs"
    by (auto simp: getRequests_def split: option.splits)
  have "length rs = length (select_requests d fo)"
    using rs by (rule map_rows_length)
  also have "\<dots> = length (filter (count_where fo) (requests d))"
    using assms(1)
    by (simp add: select_requests_def search_only_paginate search_only_where_eq)
  finally show ?thesis
    using d by (simp add: getRequestCount_def)
qed


theorem C1_search_only_count_witness:
  "search_only (Some (no_filter\<lparr>searchQuery := Some ''EXAMPLE''\<rparr>))
   \<and> (\<exists>c. getRequests (demo_store [demo_row 1 10 ''GET'' 200]
              \<lparr>db_handle := Some \<lparr>requests =
                [demo_row 1 10 ''GET'' 200,
                 (demo_row 2 20 ''POST'' 200)\<lparr>row_url := ''x'', row_host := ''y'', row_path := ''z''\<rparr>],
                sequence = 2, planner = rowid_order\<rparr>\<rparr>)
            (Some (no_filter\<lparr>searchQuery := Some ''EXAMPLE''\<rparr>)) = Inr [c])
   \<and> getRequestCount (demo_store [demo_row 1 10 ''GET'' 200]
              \<lparr>db_handle := Some \<lparr>requests =
                [demo_row 1 10 ''GET'' 200,
                 (demo_row 2 20 ''POST'' 200)\<lparr>row_url := ''x'', row_host := ''y'', row_path := ''z''\<rparr>],
                sequence = 2, planner = rowid_order\<rparr>\<rparr>)
            (Some (no_filter\<lparr>searchQuery := Some ''EXAMPLE''\<rparr>)) = Inr 1"
proof -
  let ?st = "demo_store [demo_row 1 10 ''GET'' 200]
              \<lparr>db_handle := Some \<lparr>requests =
                [demo_row 1 10 ''GET'' 200,
                 (demo_row 2 20 ''POST'' 200)\<lparr>row_url := ''x'', row_host := ''y'', row_path := ''z''\<rparr>],
                sequence = 2, planner = rowid_order\<rparr>\<rparr>"
  let ?f = "Some (no_filter\<lparr>searchQuery := Some ''EXAMPLE''\<rparr>)"
  have h1: "search_only ?f"
    by (simp add: search_only_def no_filter_def unset_list_def)
  have l1: "like_contains ''EXAMPLE'' ''http://example.test/hi''"
    by code_simp
  have l2: "\<not> like_contains ''EXAMPLE'' ''x''" "\<not> like_contains ''EXAMPLE'' ''y''"
    "\<not> like_contains ''EXAMPLE'' ''z''"
    by code_simp+
  have sel: "select_requests \<lparr>requests =
                [demo_row 1 10 ''GET'' 200,
                 (demo_row 2 20 ''POST'' 200)\<lparr>row_url := ''x'', row_host := ''y'', row_path := ''z''\<rparr>],
                sequence = 2, planner = rowid_order\<rparr> ?f = [demo_row 1 10 ''GET'' 200]"
    using l1 l2
    by (simp add: select_requests_def paginate_def order_by_timestamp_desc_def rowid_order_def list_where_def
        search_clause_def in_clause_def content_type_clause_def date_clause_def no_filter_def
        demo_row_def)
  have h2: "\<exists>c. getRequests ?st ?f = Inr [c]"
    using sel by (simp add: getRequests_def mapRowToRequest_demo_row)
  then obtain c where c: "getRequests ?st ?f = Inr [c]" ..
  from C1_search_only_count [OF h1 c] h1 h2 show ?thesis by simp
qed

subsection \<open>Ordering of the list\<close>

lemma order_by_timestamp_desc_sorted:
  "sorted_wrt (\<lambda>a b. row_timestamp b \<le> row_timestamp a) (order_by_timestamp_desc rank rows)"
proof -
  have "sorted (map (\<lambda>r. - row_timestamp r)
      (sort_key (\<lambda>r. - row_timestamp r) (sort_key rank rows)))"
    by (rule sorted_sort_key)
  then show ?thesis
    by (simp add: order_by_timestamp_desc_def sorted_wrt_map)
qed

lemma sorted_wrt_sql_limit: "sorted_wrt P xs \<Longrightarrow> sorted_wrt P (sql_limit n xs)"
  by (simp add: sql_limit_def sorted_wrt_take)

lemma sorted_wrt_paginate: "sorted_wrt P xs \<Longrightarrow> sorted_wrt P (paginate fo xs)"
  by (auto simp: paginate_def sorted_wrt_sql_limit sorted_wrt_drop split: option.splits)

lemma select_requests_sorted:
  "sorted_wrt (\<lambda>a b. row_timestamp b \<le> row_timestamp a) (select_requests d fo)"
  unfolding select_requests_def
  by (rule sorted_wrt_paginate) (rule order_by_timestamp_desc_sorted)

text \<open>
  Ties follow the planner: of two rows with the same timestamp, a planner that ranks the
  row with id 2 first has it listed first.
\<close>

lemma ties_follow_planner:
  "map row_id (select_requests
       \<lparr> requests = [demo_row 1 5 ''GET'' 200, demo_row 2 5 ''GET'' 200, demo_row 3 7 ''GET'' 200],
         sequence = 3, planner = (\<lambda>fo rows r. if row_id r = 2 then 0 else 1) \<rparr> None)
     = [3, 2, 1]"
  by code_simp

text \<open>The order the claim names: timestamp descending, equal timestamps by id descending.\<close>

definition timestamp_desc_id_desc :: "json CapturedRequest list \<Rightarrow> bool" where
  "timestamp_desc_id_desc rs =
     sorted_wrt (\<lambda>a b. cr_timestamp b < cr_timestamp a
        \<or> (cr_timestamp b = cr_timestamp a \<and> cr_id b < cr_id a)) rs"

text \<open>
  C4, as stated: rows with equal timestamps come out by id descending. The query is
  \<open>ORDER BY timestamp DESC\<close> with no second key: two rows saved in the same millisecond,
  ids 1 and 2, are listed as 1, 2 by the query without a filter, which delivers equal
  timestamps in rowid order.
\<close>

theorem C4_ties_not_by_id_desc:
  "(case getRequests (demo_store [demo_row 1 5 ''GET'' 200, demo_row 2 5 ''GET'' 200]) None of
      Inl e \<Rightarrow> False
    | Inr rs \<Rightarrow> map cr_id rs = [1, 2] \<and> map cr_timestamp rs = [5, 5]
        \<and> \<not> timestamp_desc_id_desc rs)"
  by code_simp

text \<open>
  C4, amended: for every filter and pagination setting the list is sorted by timestamp
  descending; the query fixes no order among rows with equal timestamps.
\<close>

theorem C4_sorted_by_timestamp_desc:
  assumes "getRequests st fo = Inr rs"
  shows "sorted_wrt (\<lambda>a b. cr_timestamp b \<le> cr_timestamp a) rs"
proof -
  from assms obtain d where rs: "map_rows (select_requests d fo) = Inr rs"
    by (auto simp: getRequests_def split: option.splits)
  have "sorted_wrt (\<lambda>x y. y \<le> x) (map row_timestamp (select_requests d fo))"
    using select_requests_sorted [of d fo] by (simp add: sorted_wrt_map)
  then have "sorted_wrt (\<lambda>x y. y \<le> x) (map cr_timestamp rs)"
    by (simp add: map_rows_timestamps [OF rs])
  then show ?thesis by (simp add: sorted_wrt_map)
qed

theorem C4_sorted_by_timestamp_desc_witness:
  "(\<exists>rs. getRequests
        (demo_store [demo_row 1 10 ''GET'' 200, demo_row 2 30 ''GET'' 200, demo_row 3 20 ''GET'' 200])
        None = Inr rs
      \<and> map cr_timestamp rs = [30, 20, 10]
      \<and> sorted_wrt (\<lambda>a b. cr_timestamp b \<le> cr_timestamp a) rs)"
proof -
  define res where "res = getRequests
        (demo_store [demo_row 1 10 ''GET'' 200, demo_row 2 30 ''GET'' 200, demo_row 3 20 ''GET'' 200])
        None"
  have "map_sum (\<lambda>e. e) (map cr_timestamp) res = Inr [30, 20, 10]"
    unfolding res_def by code_simp
  then obtain rs where rs: "res = Inr rs" and ts: "map cr_timestamp rs = [30, 20, 10]"
    by (cases res) simp_all
  have "sorted_wrt (\<lambda>a b. cr_timestamp b \<le> cr_timestamp a) rs"
    using C4_sorted_by_timestamp_desc [OF rs [unfolded res_def]] .
  with rs ts show ?thesis
    unfolding res_def by simp
qed

subsection \<open>Writes to stored rows\<close>

definition request_side ::
  "RequestDbRow \<Rightarrow> int \<times> int \<times> string \<times> string \<times> string \<times> string \<times> string \<times> string option" where
  "request_side r =
     (row_id r, row_timestamp r, row_method r, row_url r, row_host r, row_path r,
      row_request_headers r, row_request_body r)"

definition response_side ::
  "RequestDbRow \<Rightarrow> int \<times> string \<times> string option \<times> string \<times> int \<times> int" where
  "response_side r =
     (row_status r, row_response_headers r, row_response_body r, row_content_type r,
      row_duration r, row_size r)"

definition response_columns ::
  "ResponseData \<Rightarrow> int \<times> string \<times> string option \<times> string \<times> int \<times> int" where
  "response_columns data =
     (rd_status data, json_stringify (rd_responseHeaders data), rd_responseBody data,
      rd_contentType data, rd_duration data, rd_size data)"

definition bad_gateway :: ResponseData where
  "bad_gateway = \<lparr> rd_status = 502, rd_responseHeaders = [], rd_responseBody = Some ''socket hang up'',
     rd_contentType = ''text/plain'', rd_duration = 7, rd_size = 0 \<rparr>"

text \<open>
  C5, as stated: once a row has \<open>status > 0\<close> no store operation short of delete or clear
  changes its response fields. \<open>updateResponse\<close> is \<open>UPDATE ... WHERE id = ?\<close> with no test
  of the status: a row finalised with status 200 is rewritten to 502 by a second update.
\<close>

theorem C5_final_row_rewritten:
  "map response_side (rows_of (demo_store [demo_row 1 10 ''GET'' 200]))
     = [(200, ''{}'', Some ''hello'', ''text/plain'', 3, 5)]
   \<and> map_sum (\<lambda>e. e) (\<lambda>st. map response_side (rows_of st))
       (updateResponse (demo_store [demo_row 1 10 ''GET'' 200]) 1 bad_gateway)
     = Inr [(502, ''{}'', Some ''socket hang up'', ''text/plain'', 7, 0)]"
  by (simp add: updateResponse_def demo_store_def rows_of_def demo_row_def response_side_def
      update_row_def bad_gateway_def json_stringify_def)

text \<open>
  C5, amended: \<open>updateResponse(id, data)\<close> overwrites the six response fields of the row
  with that id with \<open>data\<close>, whatever the row's status was, and changes nothing else: every
  row keeps its id, timestamp, method, url, host, path, request headers and request body,
  and rows with another id keep their response fields; \<open>saveRequest\<close> appends one row
  under the returned id and leaves the stored rows as they were.
\<close>

theorem C5_writes_frame:
  "(updateResponse st i data = Inr st' \<longrightarrow>
      map request_side (rows_of st') = map request_side (rows_of st)
      \<and> map response_side (rows_of st')
          = map (\<lambda>r. if row_id r = i then response_columns data else response_side r) (rows_of st))
   \<and> (saveRequest st q = Inr (j, st'') \<longrightarrow>
        (\<exists>row. rows_of st'' = rows_of st @ [row] \<and> row_id row = j))"
proof (intro conjI impI)
  assume u: "updateResponse st i data = Inr st'"
  then obtain d where d: "db_handle st = Some d"
    by (auto simp: updateResponse_def split: option.splits)
  with u have rows: "rows_of st'
      = map (\<lambda>r. if row_id r = i then update_row data r else r) (rows_of st)"
    by (auto simp: updateResponse_def rows_of_def)
  show "map request_side (rows_of st') = map request_side (rows_of st)"
    by (simp add: rows request_side_def update_row_def)
  show "map response_side (rows_of st')
      = map (\<lambda>r. if row_id r = i then response_columns data else response_side r) (rows_of st)"
    by (simp add: rows response_side_def response_columns_def update_row_def)
next
  assume s: "saveRequest st q = Inr (j, st'')"
  then obtain d where d: "db_handle st = Some d"
    by (auto simp: saveRequest_def split: option.splits)
  with s show "\<exists>row. rows_of st'' = rows_of st @ [row] \<and> row_id row = j"
    by (auto simp: saveRequest_def rows_of_def Let_def insert_row_def)
qed

definition demo_request :: "headers NewRequest" where
  "demo_request =
     \<lparr> cr_timestamp = 40, cr_method = ''GET'', cr_url = ''http://example.test/hi'',
       cr_host = ''example.test'', cr_path = ''/hi'', cr_status = 0,
       cr_requestHeaders = [(''host'', ''example.test'')], cr_requestBody = None,
       cr_responseHeaders = [], cr_responseBody = None, cr_contentType = [],
       cr_duration = 0, cr_size = 0 \<rparr>"

theorem C5_writes_frame_witness:
  "(\<exists>st'. updateResponse (demo_store [demo_row 1 10 ''GET'' 200]) 1 bad_gateway = Inr st'
       \<and> map request_side (rows_of st')
           = map request_side (rows_of (demo_store [demo_row 1 10 ''GET'' 200]))
       \<and> map response_side (rows_of st') = [response_columns bad_gateway])
   \<and> (\<exists>st'' row. saveRequest (demo_store [demo_row 1 10 ''GET'' 200]) demo_request = Inr (2, st'')
       \<and> rows_of st'' = [demo_row 1 10 ''GET'' 200, row] \<and> row_id row = 2)"
proof -
  define st where "st = demo_store [demo_row 1 10 ''GET'' 200]"
  obtain st' where u: "updateResponse st 1 bad_gateway = Inr st'"
    by (simp add: updateResponse_def demo_store_def st_def)
  obtain st'' where s: "saveRequest st demo_request = Inr (2, st'')"
    by (simp add: saveRequest_def demo_store_def st_def Let_def)
  have r: "rows_of st = [demo_row 1 10 ''GET'' 200]"
    by (simp add: rows_of_def demo_store_def st_def)
  have i: "row_id (demo_row 1 10 ''GET'' 200) = 1"
    by (simp add: demo_row_def)
  from C5_writes_frame [of st 1 bad_gateway st' demo_request 2 st''] u s
  have f1: "map request_side (rows_of st') = map request_side (rows_of st)"
    and f2: "map response_side (rows_of st') = [response_columns bad_gateway]"
    and f3: "\<exists>row. rows_of st'' = [demo_row 1 10 ''GET'' 200, row] \<and> row_id row = 2"
    by (simp_all add: r i)
  from f3 obtain row where f4: "rows_of st'' = [demo_row 1 10 ''GET'' 200, row]" "row_id row = 2"
    by (elim exE conjE)
  have a: "\<exists>st'. updateResponse st 1 bad_gateway = Inr st'
       \<and> map request_side (rows_of st') = map request_side (rows_of st)
       \<and> map response_side (rows_of st') = [response_columns bad_gateway]"
    using u f1 f2 by (intro exI [of _ st']) simp
  have b: "\<exists>st'' row. saveRequest st demo_request = Inr (2, st'')
       \<and> rows_of st'' = [demo_row 1 10 ''GET'' 200, row] \<and> row_id row = 2"
    using s f4 by (intro exI [of _ st''] exI [of _ row]) simp
  from a b show ?thesis unfolding st_def by (rule conjI)
qed

section \<open>Properties of the mock engine\<close>

text \<open>
  The rule the specification describes: enabled, its method filter absent (undefined or the
  empty string, which the code and the store treat alike) or equal to the request method,
  and its pattern compiles and matches the URL.
\<close>

definition method_allows :: "string option \<Rightarrow> string \<Rightarrow> bool" where
  "method_allows wanted method = (case wanted of None \<Rightarrow> True | Some m \<Rightarrow> m = [] \<or> m = method)"

definition rule_qualifies :: "runtime \<Rightarrow> string \<Rightarrow> string \<Rightarrow> MockRule \<Rightarrow> bool" where
  "rule_qualifies rt method url rule =
     (rule_enabled rule \<and> method_allows (rule_method rule) method
        \<and> regexp_test rt (rule_urlPattern rule) url = Some True)"

definition demo_rule :: "string \<Rightarrow> bool \<Rightarrow> string option \<Rightarrow> string \<Rightarrow> MockRule" where
  "demo_rule name on method pattern =
     \<lparr> rule_id = name, rule_enabled = on, rule_name = name, rule_urlPattern = pattern,
       rule_method = method, rule_responseStatus = 418,
       rule_responseHeaders = [(''content-type'', ''text/plain'')],
       rule_responseBody = ''teapot'', rule_delay = Some 50 \<rparr>"

definition api_pattern :: string where
  "api_pattern = ''.*'' @ [CHR 0x5C] @ ''.test/api.*''"

lemma findMatchingRule_find:
  "findMatchingRule rt rules method url = find (rule_qualifies rt method url) rules"
proof (induction rules)
  case Nil
  show ?case by simp
next
  case (Cons rule rest)
  show ?case
  proof (cases "rule_qualifies rt method url rule")
    case True
    then show ?thesis
      by (auto simp: rule_qualifies_def method_allows_def split: option.splits)
  next
    case False
    then have "findMatchingRule rt (rule # rest) method url = findMatchingRule rt rest method url"
      by (auto simp: rule_qualifies_def method_allows_def split: option.splits)
    with False Cons.IH show ?thesis by simp
  qed
qed

text \<open>
  C8: \<open>findMatchingRule\<close> returns the first rule, in iteration order, that is enabled, whose
  method filter is absent or equal to the request method and whose pattern, compiled as a
  case-insensitive regular expression, matches the URL; a rule whose pattern does not
  compile never qualifies and is skipped; the result is \<open>None\<close> when no rule qualifies.
\<close>

theorem C8_first_qualifying_rule:
  "findMatchingRule rt rules method url = find (rule_qualifies rt method url) rules"
  by (rule findMatchingRule_find)

theorem C8_first_qualifying_rule_witness:
  "findMatchingRule demo_runtime
     [demo_rule ''off'' False None api_pattern,
      demo_rule ''post'' True (Some ''POST'') api_pattern,
      demo_rule ''broken'' True None ''('',
      demo_rule ''other'' True (Some []) ''/other'',
      demo_rule ''first'' True (Some ''GET'') api_pattern,
      demo_rule ''second'' True None ''.*'']
     ''GET'' ''http://x.test/api/foo''
   = Some (demo_rule ''first'' True (Some ''GET'') api_pattern)
   \<and> findMatchingRule demo_runtime [demo_rule ''broken'' True None ''(''] ''GET''
       ''http://x.test/api/foo'' = None"
proof -
  have "find (rule_qualifies demo_runtime ''GET'' ''http://x.test/api/foo'')
     [demo_rule ''off'' False None api_pattern,
      demo_rule ''post'' True (Some ''POST'') api_pattern,
      demo_rule ''broken'' True None ''('',
      demo_rule ''other'' True (Some []) ''/other'',
      demo_rule ''first'' True (Some ''GET'') api_pattern,
      demo_rule ''second'' True None ''.*'']
     = Some (demo_rule ''first'' True (Some ''GET'') api_pattern)"
    by code_simp
  moreover have "find (rule_qualifies demo_runtime ''GET'' ''http://x.test/api/foo'')
     [demo_rule ''broken'' True None ''(''] = None"
    by code_simp
  ultimately show ?thesis
    by (simp only: C8_first_qualifying_rule simp_thms)
qed

subsection \<open>A saved exchange read back\<close>

text \<open>
  The invariant of the AUTOINCREMENT key: the database is open and no stored id exceeds the
  sequence.
\<close>

definition store_ok :: "TrafficStorage \<Rightarrow> bool" where
  "store_ok st =
     (case db_handle st of
        None \<Rightarrow> False
      | Some d \<Rightarrow> list_all (\<lambda>r. row_id r \<le> sequence d) (requests d))"

text \<open>What \<open>mapRowToRequest\<close> returns for the row inserted for \<open>request\<close> under id \<open>i\<close>.\<close>

definition as_read_back :: "int \<Rightarrow> headers NewRequest \<Rightarrow> json CapturedRequest" where
  "as_read_back i request =
     \<lparr> cr_timestamp = cr_timestamp request,
       cr_method = cr_method request,
       cr_url = cr_url request,
       cr_host = cr_host request,
       cr_path = cr_path request,
       cr_status = cr_status request,
       cr_requestHeaders = headers_json (cr_requestHeaders request),
       cr_requestBody = cr_requestBody request,
       cr_responseHeaders = headers_json (cr_responseHeaders request),
       cr_responseBody = cr_responseBody request,
       cr_contentType = cr_contentType request,
       cr_duration = cr_duration request,
       cr_size = cr_size request,
       cr_id = i \<rparr>"

text \<open>The exchange after \<open>updateResponse\<close> has overwritten its response fields.\<close>

definition apply_response :: "ResponseData \<Rightarrow> headers NewRequest \<Rightarrow> headers NewRequest" where
  "apply_response data request =
     request\<lparr> cr_status := rd_status data,
              cr_responseHeaders := rd_responseHeaders data,
              cr_responseBody := rd_responseBody data,
              cr_contentType := rd_contentType data,
              cr_duration := rd_duration data,
              cr_size := rd_size data \<rparr>"

lemma json_stringify_not_empty [simp]: "json_stringify h \<noteq> []"
  by (simp add: json_stringify_def)

lemma mapRowToRequest_insert_row: "mapRowToRequest (insert_row i q) = Inr (as_read_back i q)"
  by (simp add: mapRowToRequest_def insert_row_def truthy_or_def json_parse_stringify
      as_read_back_def)

lemma update_row_insert_row: "update_row data (insert_row i q) = insert_row i (apply_response data q)"
  by (simp add: update_row_def insert_row_def apply_response_def)

lemma row_id_insert_row [simp]: "row_id (insert_row i q) = i"
  by (simp add: insert_row_def)

lemma find_last_row:
  "\<forall>r\<in>set rows. row_id r \<noteq> i \<Longrightarrow> row_id row = i \<Longrightarrow>
     find (\<lambda>r. row_id r = i) (rows @ [row]) = Some row"
  by (induction rows) auto

lemma store_ok_rows:
  assumes "store_ok st"
  obtains d where "db_handle st = Some d" and "\<forall>r\<in>set (requests d). row_id r \<noteq> sequence d + 1"
proof -
  from assms obtain d where d: "db_handle st = Some d"
    and all: "list_all (\<lambda>r. row_id r \<le> sequence d) (requests d)"
    by (auto simp: store_ok_def split: option.splits)
  from all have "\<forall>r\<in>set (requests d). row_id r \<noteq> sequence d + 1"
    by (auto simp: list_all_iff)
  with d show ?thesis by (rule that)
qed

text \<open>
  \<open>holds_last st rows i q\<close>: the store is open and holds \<open>rows\<close> followed by the row of
  \<open>q\<close> under the fresh id \<open>i\<close>.
\<close>

definition holds_last :: "TrafficStorage \<Rightarrow> RequestDbRow list \<Rightarrow> int \<Rightarrow> headers NewRequest \<Rightarrow> bool" where
  "holds_last st rows i q =
     (case db_handle st of
        None \<Rightarrow> False
      | Some d \<Rightarrow> requests d = rows @ [insert_row i q] \<and> list_all (\<lambda>r. row_id r \<noteq> i) rows)"

lemma saveRequest_holds_last:
  assumes "store_ok st"
  obtains i st' where "saveRequest st q = Inr (i, st')" and "holds_last st' (rows_of st) i q"
proof -
  from assms obtain d where d: "db_handle st = Some d"
    and fresh: "\<forall>r\<in>set (requests d). row_id r \<noteq> sequence d + 1"
    by (rule store_ok_rows)
  have "saveRequest st q = Inr (sequence d + 1,
      st\<lparr>db_handle := Some (d\<lparr>requests := requests d @ [insert_row (sequence d + 1) q],
            sequence := sequence d + 1\<rparr>)\<rparr>)"
    using d by (simp add: saveRequest_def Let_def)
  moreover have "holds_last
      (st\<lparr>db_handle := Some (d\<lparr>requests := requests d @ [insert_row (sequence d + 1) q],
            sequence := sequence d + 1\<rparr>)\<rparr>) (rows_of st) (sequence d + 1) q"
    using d fresh by (simp add: holds_last_def rows_of_def list_all_iff)
  ultimately show ?thesis by (rule that)
qed

lemma getRequestById_holds_last:
  assumes "holds_last st rows i q"
  shows "getRequestById st i = Inr (Some (as_read_back i q))"
proof -
  from assms obtain d where d: "db_handle st = Some d"
    and rows: "requests d = rows @ [insert_row i q]"
    and fresh: "\<forall>r\<in>set rows. row_id r \<noteq> i"
    by (auto simp: holds_last_def list_all_iff split: option.splits)
  have "find (\<lambda>r. row_id r = i) (requests d) = Some (insert_row i q)"
    unfolding rows using fresh by (rule find_last_row) simp
  with d show ?thesis
    by (simp add: getRequestById_def mapRowToRequest_insert_row)
qed

lemma updateResponse_holds_last:
  assumes "holds_last st rows i q"
  obtains st' where "updateResponse st i data = Inr st'"
    and "holds_last st' rows i (apply_response data q)"
proof -
  from assms obtain d where d: "db_handle st = Some d"
    and rows: "requests d = rows @ [insert_row i q]"
    and fresh: "\<forall>r\<in>set rows. row_id r \<noteq> i"
    by (auto simp: holds_last_def list_all_iff split: option.splits)
  have same: "map (\<lambda>r. if row_id r = i then update_row data r else r) rows = rows"
    using fresh by (induction rows) auto
  have "updateResponse st i data = Inr (st\<lparr>db_handle := Some (d\<lparr>requests :=
      rows @ [insert_row i (apply_response data q)]\<rparr>)\<rparr>)"
    using d rows same by (simp add: updateResponse_def update_row_insert_row)
  moreover have "holds_last (st\<lparr>db_handle := Some (d\<lparr>requests :=
      rows @ [insert_row i (apply_response data q)]\<rparr>)\<rparr>) rows i (apply_response data q)"
    using fresh by (simp add: holds_last_def list_all_iff)
  ultimately show ?thesis by (rule that)
qed

lemma holds_last_rows_of: "holds_last st rows i q \<Longrightarrow> rows_of st = rows @ [insert_row i q]"
  by (auto simp: holds_last_def rows_of_def split: option.splits)


subsection \<open>Header columns on read-back\<close>

text \<open>
  Both header columns of the row parse as JSON, each after the \<open>|| '{}'\<close> of
  \<open>mapRowToRequest\<close> has replaced the empty text.
\<close>

definition headers_parse :: "RequestDbRow \<Rightarrow> bool" where
  "headers_parse row =
     (json_parse (truthy_or (row_request_headers row) ''{}'') \<noteq> None
      \<and> json_parse (truthy_or (row_response_headers row) ''{}'') \<noteq> None)"

lemma mapRowToRequest_returns: "(\<exists>c. mapRowToRequest row = Inr c) = headers_parse row"
  by (auto simp: mapRowToRequest_def headers_parse_def split: option.splits)

lemma mapRowToRequest_throws:
  "(mapRowToRequest row = Inl e) = (\<not> headers_parse row \<and> e = SyntaxError)"
  by (auto simp: mapRowToRequest_def headers_parse_def split: option.splits)

lemma mapRowToRequest_headers:
  assumes "mapRowToRequest row = Inr c"
  shows "json_parse (truthy_or (row_request_headers row) ''{}'') = Some (cr_requestHeaders c)"
    and "json_parse (truthy_or (row_response_headers row) ''{}'') = Some (cr_responseHeaders c)"
    and "cr_id c = row_id row"
  using assms by (auto simp: mapRowToRequest_def split: option.splits)

lemma map_rows_returns:
  "(map_rows rows = Inr cs) = (map mapRowToRequest rows = map Inr cs)"
proof (induction rows arbitrary: cs)
  case Nil
  show ?case by auto
next
  case (Cons r rows)
  show ?case
  proof (cases "mapRowToRequest r")
    case (Inl e)
    then show ?thesis by (cases cs) auto
  next
    case c: (Inr c)
    show ?thesis
    proof (cases "map_rows rows")
      case (Inl e)
      with Cons.IH have "\<And>cs'. map mapRowToRequest rows \<noteq> map Inr cs'" by simp
      with c Inl show ?thesis by (cases cs) auto
    next
      case (Inr cs')
      with Cons.IH [of cs'] have m: "map mapRowToRequest rows = map Inr cs'" by simp
      have "(map Inr cs' = map Inr cs'') = (cs' = cs'')" for cs'' :: "json CapturedRequest list"
        by (simp add: inj_map_eq_map)
      with c Inr m show ?thesis by (cases cs) auto
    qed
  qed
qed

lemma map_rows_throws:
  "(map_rows rows = Inl e) = (\<not> list_all headers_parse rows \<and> e = SyntaxError)"
proof (induction rows)
  case Nil
  show ?case by simp
next
  case (Cons r rows)
  show ?case
  proof (cases "mapRowToRequest r")
    case (Inl e')
    with mapRowToRequest_throws [of r e'] show ?thesis by auto
  next
    case (Inr c)
    then have "headers_parse r" using mapRowToRequest_returns [of r] by auto
    with Inr Cons.IH show ?thesis by (auto split: sum.splits)
  qed
qed

lemma map_rows_returns_iff: "(\<exists>cs. map_rows rows = Inr cs) = list_all headers_parse rows"
proof (cases "map_rows rows")
  case (Inl e)
  with map_rows_throws [of rows e] show ?thesis by simp
next
  case (Inr cs)
  have "map_rows rows \<noteq> Inl SyntaxError" using Inr by simp
  with map_rows_throws [of rows SyntaxError] Inr show ?thesis by auto
qed

lemma headers_parse_insert_row: "headers_parse (insert_row i q)"
  by (simp add: headers_parse_def insert_row_def truthy_or_def json_parse_stringify)

text \<open>
  C2, as stated: a header column that is not JSON degrades to \<open>{}\<close> on read. It does not:
  \<open>mapRowToRequest\<close> calls \<open>JSON.parse\<close> outside any \<open>try\<close>, so the row whose
  \<open>request_headers\<close> column holds the text \<open>{\<close> makes \<open>getRequestById\<close> and
  \<open>getRequests\<close> throw.
\<close>

theorem C2_malformed_headers_throw:
  "getRequestById (demo_store [(demo_row 1 10 ''GET'' 200)\<lparr>row_request_headers := ''{''\<rparr>]) 1
     = Inl SyntaxError
   \<and> getRequests (demo_store [(demo_row 1 10 ''GET'' 200)\<lparr>row_request_headers := ''{''\<rparr>]) None
     = Inl SyntaxError"
  by (simp add: getRequestById_def getRequests_def demo_store_def demo_row_def
      mapRowToRequest_def truthy_or_def json_parse_open_brace select_requests_def paginate_def
      order_by_timestamp_desc_def rowid_order_def list_where_def)

text \<open>
  C2, amended: on read-back only the empty column degrades to \<open>{}\<close> (the \<open>|| '{}'\<close> of
  the code); a non-empty column is parsed as it stands. In an open store
  \<open>getRequestById\<close> returns the row with the given id exactly when both its header
  columns, after that default, parse as JSON, with the parsed values as the two header
  mappings, and throws \<open>SyntaxError\<close> exactly when one of them does not parse.
  \<open>getRequests\<close> returns exactly when that holds of every row the query selects, one
  exchange per selected row in the order of the query, and throws \<open>SyntaxError\<close> exactly
  when a selected row has a column that does not parse. The columns \<open>saveRequest\<close> writes
  always parse: the exchange just saved is read back under the id returned.
\<close>

theorem C2_read_back:
  assumes "db_handle st = Some d"
  shows "(\<forall>row.
        (row_request_headers row = [] \<longrightarrow>
           json_parse (truthy_or (row_request_headers row) ''{}'') = Some (JObject []))
        \<and> (row_response_headers row = [] \<longrightarrow>
           json_parse (truthy_or (row_response_headers row) ''{}'') = Some (JObject []))
        \<and> (row_request_headers row \<noteq> [] \<longrightarrow>
           truthy_or (row_request_headers row) ''{}'' = row_request_headers row)
        \<and> (row_response_headers row \<noteq> [] \<longrightarrow>
           truthy_or (row_response_headers row) ''{}'' = row_response_headers row)
        \<and> (\<forall>c. mapRowToRequest row = Inr c \<longrightarrow>
             json_parse (truthy_or (row_request_headers row) ''{}'') = Some (cr_requestHeaders c)
             \<and> json_parse (truthy_or (row_response_headers row) ''{}'')
                 = Some (cr_responseHeaders c)
             \<and> cr_id c = row_id row))
     \<and> (\<forall>i row. find (\<lambda>r. row_id r = i) (requests d) = Some row \<longrightarrow>
          (\<forall>c. (getRequestById st i = Inr (Some c)) = (mapRowToRequest row = Inr c))
          \<and> ((\<exists>c. getRequestById st i = Inr (Some c)) = headers_parse row)
          \<and> ((getRequestById st i = Inl SyntaxError) = (\<not> headers_parse row)))
     \<and> (\<forall>fo.
          (\<forall>cs. (getRequests st fo = Inr cs)
                = (map mapRowToRequest (select_requests d fo) = map Inr cs))
          \<and> ((\<exists>cs. getRequests st fo = Inr cs) = list_all headers_parse (select_requests d fo))
          \<and> ((getRequests st fo = Inl SyntaxError)
                = (\<not> list_all headers_parse (select_requests d fo))))
     \<and> (\<forall>i q. headers_parse (insert_row i q))
     \<and> (store_ok st \<longrightarrow>
          (\<forall>q. \<exists>i st'. saveRequest st q = Inr (i, st')
             \<and> getRequestById st' i = Inr (Some (as_read_back i q))))"
proof -
  have row: "(row_request_headers row = [] \<longrightarrow>
           json_parse (truthy_or (row_request_headers row) ''{}'') = Some (JObject []))
        \<and> (row_response_headers row = [] \<longrightarrow>
           json_parse (truthy_or (row_response_headers row) ''{}'') = Some (JObject []))
        \<and> (row_request_headers row \<noteq> [] \<longrightarrow>
           truthy_or (row_request_headers row) ''{}'' = row_request_headers row)
        \<and> (row_response_headers row \<noteq> [] \<longrightarrow>
           truthy_or (row_response_headers row) ''{}'' = row_response_headers row)
        \<and> (\<forall>c. mapRowToRequest row = Inr c \<longrightarrow>
             json_parse (truthy_or (row_request_headers row) ''{}'') = Some (cr_requestHeaders c)
             \<and> json_parse (truthy_or (row_response_headers row) ''{}'')
                 = Some (cr_responseHeaders c)
             \<and> cr_id c = row_id row)" for row
    apply (intro conjI impI allI)
          apply (simp_all add: mapRowToRequest_headers)
       apply (simp_all add: truthy_or_def json_parse_empty_object)
    done
  have byid: "(\<forall>c. (getRequestById st i = Inr (Some c)) = (mapRowToRequest row = Inr c))
          \<and> ((\<exists>c. getRequestById st i = Inr (Some c)) = headers_parse row)
          \<and> ((getRequestById st i = Inl SyntaxError) = (\<not> headers_parse row))"
    if f: "find (\<lambda>r. row_id r = i) (requests d) = Some row" for i row
  proof -
    have g: "getRequestById st i = map_sum (\<lambda>e. e) Some (mapRowToRequest row)"
      using assms f by (simp add: getRequestById_def)
    show ?thesis
    proof (cases "mapRowToRequest row")
      case (Inl e)
      with mapRowToRequest_throws [of row e] g show ?thesis by auto
    next
      case (Inr c)
      with mapRowToRequest_returns [of row] g show ?thesis by auto
    qed
  qed
  have list: "(\<forall>cs. (getRequests st fo = Inr cs)
                = (map mapRowToRequest (select_requests d fo) = map Inr cs))
          \<and> ((\<exists>cs. getRequests st fo = Inr cs) = list_all headers_parse (select_requests d fo))
          \<and> ((getRequests st fo = Inl SyntaxError)
                = (\<not> list_all headers_parse (select_requests d fo)))" for fo
  proof -
    have g: "getRequests st fo = map_rows (select_requests d fo)"
      using assms by (simp add: getRequests_def)
    show ?thesis
      unfolding g
      apply (intro conjI allI)
        apply (rule map_rows_returns)
       apply (rule map_rows_returns_iff)
      apply (simp add: map_rows_throws)
      done
  qed
  have saved: "\<exists>i st'. saveRequest st q = Inr (i, st')
             \<and> getRequestById st' i = Inr (Some (as_read_back i q))" if ok: "store_ok st" for q
  proof -
    from ok obtain i st' where s: "saveRequest st q = Inr (i, st')"
      and hl: "holds_last st' (rows_of st) i q"
      by (rule saveRequest_holds_last)
    from s getRequestById_holds_last [OF hl] show ?thesis by blast
  qed
  show ?thesis
    apply (intro conjI)
        apply (intro allI, rule row)
       apply (intro allI impI, rule byid, assumption)
      apply (intro allI, rule list)
     apply (intro allI, rule headers_parse_insert_row)
    apply (intro allI impI, rule saved, assumption)
    done
qed

text \<open>
  A store of two rows: the first has the request headers \<open>{"accept":"text/html"}\<close> and an
  empty response column, the second a response column holding the text \<open>{\<close>.
\<close>

definition accept_row :: RequestDbRow where
  "accept_row = (demo_row 1 10 ''GET'' 200)
     \<lparr>row_request_headers := json_stringify [(''accept'', ''text/html'')],
      row_response_headers := []\<rparr>"

definition broken_row :: RequestDbRow where
  "broken_row = (demo_row 2 20 ''POST'' 200)\<lparr>row_response_headers := ''{''\<rparr>"

theorem C2_read_back_witness:
  "(\<exists>c. getRequestById (demo_store [accept_row, broken_row]) 1 = Inr (Some c)
        \<and> cr_requestHeaders c = JObject [(''accept'', JString ''text/html'')]
        \<and> cr_responseHeaders c = JObject [] \<and> cr_id c = 1)
   \<and> getRequestById (demo_store [accept_row, broken_row]) 2 = Inl SyntaxError
   \<and> getRequests (demo_store [accept_row, broken_row]) None = Inl SyntaxError
   \<and> (\<exists>c. getRequests (demo_store [accept_row, broken_row])
              (Some (no_filter\<lparr>methods := Some [''GET'']\<rparr>)) = Inr [c]
        \<and> cr_requestHeaders c = JObject [(''accept'', JString ''text/html'')])
   \<and> (\<exists>st'. saveRequest (demo_store [accept_row, broken_row]) demo_request = Inr (3, st')
        \<and> getRequestById st' 3 = Inr (Some (as_read_back 3 demo_request)))"
proof -
  define st where "st = demo_store [accept_row, broken_row]"
  define d where "d = \<lparr> requests = [accept_row, broken_row], sequence = 2,
    planner = rowid_order \<rparr>"
  have h: "db_handle st = Some d"
    by (simp add: st_def d_def demo_store_def)
  have ok: "store_ok st"
    by (simp add: store_ok_def st_def demo_store_def accept_row_def broken_row_def demo_row_def)
  have ids: "row_id accept_row = 1" "row_id broken_row = 2"
    by (simp_all add: accept_row_def broken_row_def demo_row_def)
  have f1: "find (\<lambda>r. row_id r = 1) (requests d) = Some accept_row"
    and f2: "find (\<lambda>r. row_id r = 2) (requests d) = Some broken_row"
    by (simp_all add: d_def ids)
  have req: "json_parse (truthy_or (row_request_headers accept_row) ''{}'')
      = Some (JObject [(''accept'', JString ''text/html'')])"
    unfolding accept_row_def by code_simp
  have res: "row_response_headers accept_row = []"
    by (simp add: accept_row_def)
  have p1: "headers_parse accept_row"
    unfolding headers_parse_def req
    by (simp add: res truthy_or_def json_parse_empty_object)
  have p2: "\<not> headers_parse broken_row"
    by (simp add: headers_parse_def broken_row_def truthy_or_def json_parse_open_brace)
  have all: "select_requests d None = [broken_row, accept_row]"
    by (simp add: select_requests_def d_def paginate_def list_where_def
        order_by_timestamp_desc_def rowid_order_def accept_row_def broken_row_def demo_row_def)
  have gets: "select_requests d (Some (no_filter\<lparr>methods := Some [''GET'']\<rparr>)) = [accept_row]"
    by (simp add: select_requests_def d_def paginate_def list_where_def no_filter_def
        search_clause_def in_clause_def content_type_clause_def date_clause_def
        order_by_timestamp_desc_def rowid_order_def accept_row_def broken_row_def demo_row_def)
  note inst = C2_read_back [OF h]
  note rows = inst [THEN conjunct1, THEN spec, where x = accept_row]
  note byid = inst [THEN conjunct2, THEN conjunct1]
  note list = inst [THEN conjunct2, THEN conjunct2, THEN conjunct1]
  note saved = inst [THEN conjunct2, THEN conjunct2, THEN conjunct2, THEN conjunct2, THEN mp, OF ok]
  from byid [rule_format, OF f1] p1 obtain c where
    c: "getRequestById st 1 = Inr (Some c)" and m: "mapRowToRequest accept_row = Inr c"
    by auto
  have res': "json_parse (truthy_or (row_response_headers accept_row) ''{}'') = Some (JObject [])"
    by (simp add: res truthy_or_def json_parse_empty_object)
  from rows m
  have "json_parse (truthy_or (row_request_headers accept_row) ''{}'') = Some (cr_requestHeaders c)
      \<and> json_parse (truthy_or (row_response_headers accept_row) ''{}'')
          = Some (cr_responseHeaders c)
      \<and> cr_id c = row_id accept_row"
    by blast
  with req res' ids
  have hdr: "cr_requestHeaders c = JObject [(''accept'', JString ''text/html'')]"
    "cr_responseHeaders c = JObject []" "cr_id c = 1"
    by simp_all
  from byid [rule_format, OF f2] p2 have b: "getRequestById st 2 = Inl SyntaxError"
    by simp
  from list [rule_format, where fo = None] all p1 p2
  have l1: "getRequests st None = Inl SyntaxError"
    by simp
  from list [rule_format, where fo = "Some (no_filter\<lparr>methods := Some [''GET'']\<rparr>)"] gets m
  have l2: "getRequests st (Some (no_filter\<lparr>methods := Some [''GET'']\<rparr>)) = Inr [c]"
    by simp
  from saved [rule_format, where q = demo_request] obtain i st' where
    s: "saveRequest st demo_request = Inr (i, st')"
    and g: "getRequestById st' i = Inr (Some (as_read_back i demo_request))"
    by blast
  have "saveRequest st demo_request = Inr (3, snd (projr (saveRequest st demo_request)))"
    by (simp add: saveRequest_def st_def demo_store_def Let_def)
  with s have i: "i = 3" by simp
  from c hdr b l1 l2 s g i show ?thesis
    unfolding st_def [symmetric] by blast
qed

section \<open>Properties of the breakpoint rendezvous\<close>

lemma settle_after_pause:
  assumes "pauseAtBreakpoint bs i now type method url hdrs body status = (snap, bs1)"
  shows "settle bs1 i ctl =
     (Some (case ctl of
              CtlContinue modified \<Rightarrow> Resolved (Some (case modified of None \<Rightarrow> snap | Some m \<Rightarrow> m))
            | CtlDrop \<Rightarrow> Rejected (Error ''Request dropped by user'')
            | CtlTimeout \<Rightarrow> Resolved None),
      bs\<lparr>pendingRequests := AList.delete i (pendingRequests bs)\<rparr>)"
proof -
  from assms have bs1: "bs1 = bs\<lparr>pendingRequests := AList.update i snap (pendingRequests bs)\<rparr>"
    by (auto simp: pauseAtBreakpoint_def Let_def)
  have m: "map_of (AList.update i snap (pendingRequests bs)) i = Some snap"
    by (simp add: update_conv')
  have d: "AList.delete i (AList.update i snap (pendingRequests bs)) = AList.delete i (pendingRequests bs)"
    by (simp add: delete_update_same)
  show ?thesis
    by (cases ctl) (simp_all add: settle_def continue_bp_def drop_bp_def timeout_bp_def bs1 m d)
qed

section \<open>Properties of the proxy\<close>

fun upstreams :: "action list \<Rightarrow> upstream_request list" where
  "upstreams [] = []"
| "upstreams (Upstream u # as) = u # upstreams as"
| "upstreams (a # as) = upstreams as"

text \<open>The body bytes that reach the client: piped chunks and raw buffer writes.\<close>

fun forwarded_body :: "action list \<Rightarrow> buffer" where
  "forwarded_body [] = []"
| "forwarded_body (ClientWrite b # as) = b @ forwarded_body as"
| "forwarded_body (SocketWrite (Bytes b) # as) = b @ forwarded_body as"
| "forwarded_body (a # as) = forwarded_body as"

lemma upstreams_append [simp]: "upstreams (xs @ ys) = upstreams xs @ upstreams ys"
  by (induction xs rule: upstreams.induct) simp_all

lemma forwarded_body_append [simp]: "forwarded_body (xs @ ys) = forwarded_body xs @ forwarded_body ys"
  by (induction xs rule: forwarded_body.induct) simp_all

lemma upstreams_map_ClientWrite [simp]: "upstreams (map ClientWrite cs) = []"
  by (induction cs) simp_all

lemma forwarded_body_map_ClientWrite [simp]: "forwarded_body (map ClientWrite cs) = concat cs"
  by (induction cs) simp_all

lemma upstreams_mock_delay [simp]: "upstreams (mock_delay rule) = []"
  by (simp add: mock_delay_def split: option.splits)

lemma save_mock_ok:
  assumes "store_ok (storage ps)"
  obtains i ps' where
    "save_mock ps q tr k = k (tr @ [Emit (RequestComplete (as_read_back i q))]) ps'"
    and "holds_last (storage ps') (rows_of (storage ps)) i q"
    and "breakpointService ps' = breakpointService ps"
    and "mockService ps' = mockService ps"
proof -
  from assms obtain i st' where s: "saveRequest (storage ps) q = Inr (i, st')"
    and h: "holds_last st' (rows_of (storage ps)) i q"
    by (rule saveRequest_holds_last)
  have "save_mock ps q tr k
      = k (tr @ [Emit (RequestComplete (as_read_back i q))]) (ps\<lparr>storage := st'\<rparr>)"
    by (simp add: save_mock_def s getRequestById_holds_last [OF h])
  moreover have "holds_last (storage (ps\<lparr>storage := st'\<rparr>)) (rows_of (storage ps)) i q"
    using h by simp
  ultimately show ?thesis by (rule that) simp_all
qed

lemma record_response_ok:
  assumes "holds_last (storage ps) rows i q"
  obtains ps' where
    "record_response ps i data tr k
       = k (tr @ [Emit (RequestComplete (as_read_back i (apply_response data q)))]) ps'"
    and "holds_last (storage ps') rows i (apply_response data q)"
    and "breakpointService ps' = breakpointService ps"
    and "mockService ps' = mockService ps"
proof -
  from assms obtain st' where u: "updateResponse (storage ps) i data = Inr st'"
    and h: "holds_last st' rows i (apply_response data q)"
    by (rule updateResponse_holds_last)
  have "record_response ps i data tr k
      = k (tr @ [Emit (RequestComplete (as_read_back i (apply_response data q)))])
          (ps\<lparr>storage := st'\<rparr>)"
    by (simp add: record_response_def u getRequestById_holds_last [OF h])
  moreover have "holds_last (storage (ps\<lparr>storage := st'\<rparr>)) rows i (apply_response data q)"
    using h by simp
  ultimately show ?thesis by (rule that) simp_all
qed


subsection \<open>The paths of \<open>handleRequest\<close>\<close>

lemma trace_finished [simp]: "trace (finished tr ps) = tr"
  and final_finished [simp]: "final (finished tr ps) = ps"
  and thrown_finished [simp]: "thrown (finished tr ps) = None"
  and suspended_finished [simp]: "suspended (finished tr ps) = False"
  by (simp_all add: finished_def)

lemma trace_threw [simp]: "trace (threw tr ps e) = tr"
  and final_threw [simp]: "final (threw tr ps e) = ps"
  by (simp_all add: threw_def)

text \<open>The snapshot that \<open>handleRequest\<close> hands to \<open>pauseAtBreakpoint\<close>.\<close>

definition snapshot_of :: "runtime \<Rightarrow> environment \<Rightarrow> client_request \<Rightarrow> InterceptedRequest" where
  "snapshot_of rt env clientReq =
     \<lparr> icp_id = env_uuid env, icp_type = OnRequest, icp_timestamp = env_pauseTime env,
       icp_method = opt_or (rq_method clientReq) ''GET'',
       icp_url = opt_or (rq_url clientReq) [],
       icp_headers = headersToRecord (rq_headers clientReq),
       icp_body = or_null (utf8_decode rt (concat (rq_chunks clientReq))),
       icp_status = None \<rparr>"

text \<open>
  The request is paused at the request breakpoint: its target parses, no mock rule
  intercepts it, and the breakpoint service is present and armed for it.
\<close>

definition paused_at_request :: "runtime \<Rightarrow> ProxyServer \<Rightarrow> client_request \<Rightarrow> bool" where
  "paused_at_request rt ps clientReq =
     (url_parse rt (opt_or (rq_url clientReq) []) \<noteq> None
      \<and> (case mockService ps of
            None \<Rightarrow> None
          | Some rules \<Rightarrow> findMatchingRule rt rules (opt_or (rq_method clientReq) ''GET'')
              (opt_or (rq_url clientReq) [])) = None
      \<and> (case breakpointService ps of
            None \<Rightarrow> False
          | Some bs \<Rightarrow> shouldBreak rt bs OnRequest (opt_or (rq_method clientReq) ''GET'')
              (opt_or (rq_url clientReq) [])))"

text \<open>The breakpoint service once the pause \<open>i\<close> is settled.\<close>

definition settled_service :: "ProxyServer \<Rightarrow> string \<Rightarrow> ProxyServer" where
  "settled_service ps i =
     ps\<lparr>breakpointService :=
          map_option (\<lambda>bs. bs\<lparr>pendingRequests := AList.delete i (pendingRequests bs)\<rparr>)
            (breakpointService ps)\<rparr>"

lemma handleRequest_paused:
  assumes "paused_at_request rt ps q"
  obtains pu where "url_parse rt (opt_or (rq_url q) []) = Some pu"
    and "handleRequest rt env ps q =
      (case env_controller env of
         CtlDrop \<Rightarrow>
           finished [Emit (BreakpointHit (snapshot_of rt env q)),
                     ClientWriteHead 499 [(''Content-Type'', HString ''text/plain'')],
                     ClientEnd (Some (Text ''Request dropped by user''))]
             (settled_service ps (env_uuid env))
       | CtlTimeout \<Rightarrow>
           forward_plain rt env (settled_service ps (env_uuid env)) q pu
             (utf8_decode rt (concat (rq_chunks q))) (request_options q pu)
             [Emit (BreakpointHit (snapshot_of rt env q))]
       | CtlContinue modified \<Rightarrow>
           forward_plain rt env (settled_service ps (env_uuid env)) q pu
             (utf8_decode rt (concat (rq_chunks q)))
             ((request_options q pu)
                \<lparr>up_method := Some (icp_method (case modified of
                                                    None \<Rightarrow> snapshot_of rt env q
                                                  | Some m \<Rightarrow> m)),
                 up_headers := record_headers (icp_headers (case modified of
                                                    None \<Rightarrow> snapshot_of rt env q
                                                  | Some m \<Rightarrow> m))\<rparr>)
             [Emit (BreakpointHit (snapshot_of rt env q))])"
proof -
  from assms obtain pu bs where pu: "url_parse rt (opt_or (rq_url q) []) = Some pu"
    and mock: "(case mockService ps of
            None \<Rightarrow> None
          | Some rules \<Rightarrow> findMatchingRule rt rules (opt_or (rq_method q) ''GET'')
              (opt_or (rq_url q) [])) = None"
    and bs: "breakpointService ps = Some bs"
    and armed: "shouldBreak rt bs OnRequest (opt_or (rq_method q) ''GET'') (opt_or (rq_url q) [])"
    by (auto simp: paused_at_request_def split: option.splits)
  define bs1 where "bs1 = bs\<lparr>pendingRequests :=
      AList.update (env_uuid env) (snapshot_of rt env q) (pendingRequests bs)\<rparr>"
  have pause: "pauseAtBreakpoint bs (env_uuid env) (env_pauseTime env) OnRequest
      (opt_or (rq_method q) ''GET'') (opt_or (rq_url q) []) (headersToRecord (rq_headers q))
      (or_null (utf8_decode rt (concat (rq_chunks q)))) None = (snapshot_of rt env q, bs1)"
    by (simp add: pauseAtBreakpoint_def Let_def snapshot_of_def bs1_def)
  note st = settle_after_pause [OF pause, of "env_controller env"]
  have ss: "settled_service ps (env_uuid env)
      = ps\<lparr>breakpointService := Some (bs\<lparr>pendingRequests :=
          AList.delete (env_uuid env) (pendingRequests bs)\<rparr>)\<rparr>"
    by (simp add: settled_service_def bs)
  have "handleRequest rt env ps q =
      (case env_controller env of
         CtlDrop \<Rightarrow>
           finished [Emit (BreakpointHit (snapshot_of rt env q)),
                     ClientWriteHead 499 [(''Content-Type'', HString ''text/plain'')],
                     ClientEnd (Some (Text ''Request dropped by user''))]
             (settled_service ps (env_uuid env))
       | CtlTimeout \<Rightarrow>
           forward_plain rt env (settled_service ps (env_uuid env)) q pu
             (utf8_decode rt (concat (rq_chunks q))) (request_options q pu)
             [Emit (BreakpointHit (snapshot_of rt env q))]
       | CtlContinue modified \<Rightarrow>
           forward_plain rt env (settled_service ps (env_uuid env)) q pu
             (utf8_decode rt (concat (rq_chunks q)))
             ((request_options q pu)
                \<lparr>up_method := Some (icp_method (case modified of
                                                    None \<Rightarrow> snapshot_of rt env q
                                                  | Some m \<Rightarrow> m)),
                 up_headers := record_headers (icp_headers (case modified of
                                                    None \<Rightarrow> snapshot_of rt env q
                                                  | Some m \<Rightarrow> m))\<rparr>)
             [Emit (BreakpointHit (snapshot_of rt env q))])"
    unfolding handleRequest_def Let_def pu option.case mock bs if_P [OF armed] pause prod.case st ss
    by (cases "env_controller env") simp_all
  with pu show ?thesis by (rule that)
qed


lemma record_response_upstreams:
  assumes "\<And>tr' ps'. upstreams (trace (k tr' ps')) = upstreams tr'"
  shows "upstreams (trace (record_response ps i data tr k)) = upstreams tr"
  by (simp add: record_response_def assms split: sum.splits option.splits)

lemma save_mock_upstreams:
  assumes "\<And>tr' ps'. upstreams (trace (k tr' ps')) = upstreams tr'"
  shows "upstreams (trace (save_mock ps q tr k)) = upstreams tr"
  by (simp add: save_mock_def assms split: sum.splits option.splits prod.splits)

lemma forward_plain_upstreams:
  assumes "db_handle (storage ps) \<noteq> None"
  shows "upstreams (trace (forward_plain rt env ps q pu body options tr))
     = upstreams tr @ [options\<lparr>up_body := map_option Text (or_null body)\<rparr>]"
proof -
  from assms obtain d where d: "db_handle (storage ps) = Some d" by auto
  obtain i st' where s: "saveRequest (storage ps)
             (pending_exchange env (opt_or (rq_method q) ''GET'')
                (opt_or (rq_url q) []) (pu_hostname pu)
                (pu_pathname pu @ pu_search pu)
                (headersToRecord (rq_headers q)) (or_null body)) = Inr (i, st')"
    and open': "db_handle st' \<noteq> None"
    using d by (simp add: saveRequest_def Let_def)
  show ?thesis
  proof (cases "env_origin env")
    case (OriginResponse res)
    then show ?thesis
      by (simp add: forward_plain_def s Let_def handleProxyResponse_def record_response_upstreams)
  next
    case (OriginError msg)
    from open' obtain st'' where "updateResponse st' i (error_data env msg) = Inr st''"
      by (auto simp: updateResponse_def split: option.splits)
    with OriginError show ?thesis
      by (simp add: forward_plain_def s Let_def)
  qed
qed

subsection \<open>Example data\<close>

definition demo_env :: "controller \<Rightarrow> origin \<Rightarrow> environment" where
  "demo_env ctl orig =
     \<lparr> env_startTime = 1000, env_endTime = 1012, env_uuid = ''pause-1'', env_pauseTime = 1001,
       env_controller = ctl, env_origin = orig, env_writable = True \<rparr>"

definition demo_post :: client_request where
  "demo_post =
     \<lparr> rq_method = Some ''POST'', rq_url = Some ''http://a.test/p'',
       rq_headers = [(''host'', HString ''a.test''), (''proxy-connection'', HString ''keep-alive'')],
       rq_chunks = [''A''] \<rparr>"

definition demo_hello :: incoming_response where
  "demo_hello =
     \<lparr> res_statusCode = Some 200, res_statusMessage = Some ''OK'',
       res_headers = [(''content-type'', HString ''text/plain''), (''content-length'', HString ''5'')],
       res_chunks = [''hel'', ''lo''] \<rparr>"

definition armed :: BreakpointService where
  "armed =
     \<lparr> bp_config = \<lparr> bp_enabled = True, breakOnRequest = True, breakOnResponse = False,
                     bp_urlPattern = Some ''.*'' \<rparr>,
       pendingRequests = [] \<rparr>"

definition demo_proxy :: "BreakpointService option \<Rightarrow> MockRule list option \<Rightarrow> ProxyServer" where
  "demo_proxy bs rules =
     \<lparr> storage = demo_store [], breakpointService = bs, mockService = rules \<rparr>"

subsection \<open>Dropping a paused request\<close>

text \<open>
  C3, as stated: after \<open>drop(id)\<close> a row with status 499 is stored for the exchange. The
  \<open>catch\<close> branch of \<open>handleRequest\<close> answers 499 and returns before the request is saved:
  on an empty store the dropped \<open>POST http://a.test/p\<close> leaves the store empty.
\<close>

theorem C3_no_row_stored:
  "rows_of (storage (final (handleRequest demo_runtime (demo_env CtlDrop (OriginResponse demo_hello))
       (demo_proxy (Some armed) None) demo_post))) = []
   \<and> trace (handleRequest demo_runtime (demo_env CtlDrop (OriginResponse demo_hello))
       (demo_proxy (Some armed) None) demo_post)
     = [Emit (BreakpointHit (snapshot_of demo_runtime
                (demo_env CtlDrop (OriginResponse demo_hello)) demo_post)),
        ClientWriteHead 499 [(''Content-Type'', HString ''text/plain'')],
        ClientEnd (Some (Text ''Request dropped by user''))]"
  by code_simp

text \<open>
  C3, amended: for every request paused at a request-direction breakpoint, if the controller
  calls \<open>drop(id)\<close> then the client receives a 499 response with body
  \<open>Request dropped by user\<close>, no upstream connection is made, and the store is left as it
  was: nothing is stored for that exchange.
\<close>

theorem C3_drop:
  assumes "paused_at_request rt ps q" and "env_controller env = CtlDrop"
  shows "trace (handleRequest rt env ps q)
       = [Emit (BreakpointHit (snapshot_of rt env q)),
          ClientWriteHead 499 [(''Content-Type'', HString ''text/plain'')],
          ClientEnd (Some (Text ''Request dropped by user''))]
     \<and> upstreams (trace (handleRequest rt env ps q)) = []
     \<and> storage (final (handleRequest rt env ps q)) = storage ps
     \<and> thrown (handleRequest rt env ps q) = None
     \<and> \<not> suspended (handleRequest rt env ps q)"
proof -
  from assms(1) obtain pu where
    "handleRequest rt env ps q =
       finished [Emit (BreakpointHit (snapshot_of rt env q)),
                 ClientWriteHead 499 [(''Content-Type'', HString ''text/plain'')],
                 ClientEnd (Some (Text ''Request dropped by user''))]
         (settled_service ps (env_uuid env))"
    by (rule handleRequest_paused [where env = env]) (simp add: assms(2))
  then show ?thesis
    by (simp add: settled_service_def)
qed

theorem C3_drop_witness:
  "paused_at_request demo_runtime (demo_proxy (Some armed) None) demo_post
   \<and> upstreams (trace (handleRequest demo_runtime (demo_env CtlDrop (OriginResponse demo_hello))
       (demo_proxy (Some armed) None) demo_post)) = []
   \<and> storage (final (handleRequest demo_runtime (demo_env CtlDrop (OriginResponse demo_hello))
       (demo_proxy (Some armed) None) demo_post)) = demo_store []"
proof -
  have p: "paused_at_request demo_runtime (demo_proxy (Some armed) None) demo_post"
    by code_simp
  have c: "env_controller (demo_env CtlDrop (OriginResponse demo_hello)) = CtlDrop"
    by (simp add: demo_env_def)
  have s: "storage (demo_proxy (Some armed) None) = demo_store []"
    by (simp add: demo_proxy_def)
  from C3_drop [OF p c] p s show ?thesis by simp
qed


subsection \<open>Resuming a paused request\<close>

text \<open>
  C9: \<open>continue(i)\<close> with no modification settles the pause \<open>i\<close> with the snapshot stored
  for it, which for a pause just taken is the snapshot of the original request, so that
  \<open>handleRequest\<close> opens the upstream request with the snapshot's method, headers and
  body; \<open>continue\<close> and \<open>drop\<close> on an id with no pending entry deliver nothing and leave
  the service as it was.
\<close>

theorem C9_identity_resume:
  "(map_of (pendingRequests bs) i = Some snap \<longrightarrow>
      continue_bp bs i None
        = (Some (Resolved (Some snap)),
           bs\<lparr>pendingRequests := AList.delete i (pendingRequests bs)\<rparr>))
   \<and> (pauseAtBreakpoint bs i now type method url hdrs body status = (snap', bs1) \<longrightarrow>
        continue_bp bs1 i None
          = (Some (Resolved (Some snap')),
             bs\<lparr>pendingRequests := AList.delete i (pendingRequests bs)\<rparr>)
        \<and> icp_method snap' = method \<and> icp_headers snap' = hdrs \<and> icp_body snap' = body)
   \<and> (map_of (pendingRequests bs) i = None \<longrightarrow>
        continue_bp bs i modified = (None, bs) \<and> drop_bp bs i = (None, bs))
   \<and> (paused_at_request rt ps q \<and> env_controller env = CtlContinue None
        \<and> db_handle (storage ps) \<noteq> None \<and> url_parse rt (opt_or (rq_url q) []) = Some pu \<longrightarrow>
        upstreams (trace (handleRequest rt env ps q))
          = [(request_options q pu)
               \<lparr>up_method := Some (icp_method (snapshot_of rt env q)),
                up_headers := record_headers (icp_headers (snapshot_of rt env q)),
                up_body := map_option Text (icp_body (snapshot_of rt env q))\<rparr>]
        \<and> icp_method (snapshot_of rt env q) = opt_or (rq_method q) ''GET''
        \<and> icp_headers (snapshot_of rt env q) = headersToRecord (rq_headers q)
        \<and> icp_body (snapshot_of rt env q) = or_null (utf8_decode rt (concat (rq_chunks q))))"
proof (intro conjI impI)
  assume "map_of (pendingRequests bs) i = Some snap"
  then show "continue_bp bs i None
        = (Some (Resolved (Some snap)),
           bs\<lparr>pendingRequests := AList.delete i (pendingRequests bs)\<rparr>)"
    by (simp add: continue_bp_def)
next
  assume p: "pauseAtBreakpoint bs i now type method url hdrs body status = (snap', bs1)"
  from settle_after_pause [OF p, of "CtlContinue None"]
  show "continue_bp bs1 i None
          = (Some (Resolved (Some snap')),
             bs\<lparr>pendingRequests := AList.delete i (pendingRequests bs)\<rparr>)"
    by (simp add: settle_def)
  from p show "icp_method snap' = method" "icp_headers snap' = hdrs" "icp_body snap' = body"
    by (auto simp: pauseAtBreakpoint_def Let_def)
next
  assume n: "map_of (pendingRequests bs) i = None"
  then show "continue_bp bs i modified = (None, bs)"
    by (simp add: continue_bp_def)
  from n show "drop_bp bs i = (None, bs)"
    by (simp add: drop_bp_def)
next
  assume a: "paused_at_request rt ps q \<and> env_controller env = CtlContinue None
        \<and> db_handle (storage ps) \<noteq> None \<and> url_parse rt (opt_or (rq_url q) []) = Some pu"
  then have paused: "paused_at_request rt ps q" and ctl: "env_controller env = CtlContinue None"
    and db: "db_handle (storage ps) \<noteq> None" and pu: "url_parse rt (opt_or (rq_url q) []) = Some pu"
    by simp_all
  from paused obtain pu' where pu': "url_parse rt (opt_or (rq_url q) []) = Some pu'"
    and h: "handleRequest rt env ps q =
      forward_plain rt env (settled_service ps (env_uuid env)) q pu'
        (utf8_decode rt (concat (rq_chunks q)))
        ((request_options q pu')
           \<lparr>up_method := Some (icp_method (snapshot_of rt env q)),
            up_headers := record_headers (icp_headers (snapshot_of rt env q))\<rparr>)
        [Emit (BreakpointHit (snapshot_of rt env q))]"
    by (rule handleRequest_paused [where env = env]) (simp add: ctl)
  from pu pu' have eq: "pu' = pu" by simp
  have db': "db_handle (storage (settled_service ps (env_uuid env))) \<noteq> None"
    using db by (simp add: settled_service_def)
  show "upstreams (trace (handleRequest rt env ps q))
          = [(request_options q pu)
               \<lparr>up_method := Some (icp_method (snapshot_of rt env q)),
                up_headers := record_headers (icp_headers (snapshot_of rt env q)),
                up_body := map_option Text (icp_body (snapshot_of rt env q))\<rparr>]"
    unfolding h eq forward_plain_upstreams [OF db']
    by (simp add: snapshot_of_def)
  show "icp_method (snapshot_of rt env q) = opt_or (rq_method q) ''GET''"
    "icp_headers (snapshot_of rt env q) = headersToRecord (rq_headers q)"
    "icp_body (snapshot_of rt env q) = or_null (utf8_decode rt (concat (rq_chunks q)))"
    by (simp_all add: snapshot_of_def)
qed

theorem C9_identity_resume_witness:
  "continue_bp (armed\<lparr>pendingRequests := [(''p1'', snapshot_of demo_runtime
        (demo_env (CtlContinue None) (OriginResponse demo_hello)) demo_post)]\<rparr>) ''p1'' None
     = (Some (Resolved (Some (snapshot_of demo_runtime
          (demo_env (CtlContinue None) (OriginResponse demo_hello)) demo_post))), armed)
   \<and> continue_bp armed ''p1'' None = (None, armed)
   \<and> drop_bp armed ''p1'' = (None, armed)
   \<and> upstreams (trace (handleRequest demo_runtime
        (demo_env (CtlContinue None) (OriginResponse demo_hello))
        (demo_proxy (Some armed) None) demo_post))
     = [\<lparr> up_secure = False, up_hostname = ''a.test'', up_port = ''80'', up_path = ''/p'',
          up_method = Some ''POST'',
          up_headers = [(''host'', HString ''a.test''), (''proxy-connection'', HString ''keep-alive'')],
          up_body = Some (Text ''A'') \<rparr>]"
proof -
  define env where "env = demo_env (CtlContinue None) (OriginResponse demo_hello)"
  define snap where "snap = snapshot_of demo_runtime env demo_post"
  define bs where "bs = armed\<lparr>pendingRequests := [(''p1'', snap)]\<rparr>"
  define pu where "pu = \<lparr> pu_protocol = ''http:'', pu_hostname = ''a.test'', pu_port = [],
     pu_pathname = ''/p'', pu_search = [] \<rparr>"
  have m1: "map_of (pendingRequests bs) ''p1'' = Some snap"
    by (simp add: bs_def)
  have d1: "bs\<lparr>pendingRequests := AList.delete ''p1'' (pendingRequests bs)\<rparr> = armed"
    by (simp add: bs_def armed_def)
  have m2: "map_of (pendingRequests armed) ''p1'' = None"
    by (simp add: armed_def)
  have p: "paused_at_request demo_runtime (demo_proxy (Some armed) None) demo_post"
    by code_simp
  have c: "env_controller env = CtlContinue None"
    by (simp add: env_def demo_env_def)
  have db: "db_handle (storage (demo_proxy (Some armed) None)) \<noteq> None"
    by (simp add: demo_proxy_def demo_store_def)
  have u: "url_parse demo_runtime (opt_or (rq_url demo_post) []) = Some pu"
    unfolding pu_def by code_simp
  have r: "(request_options demo_post pu)
               \<lparr>up_method := Some (opt_or (rq_method demo_post) ''GET''),
                up_headers := record_headers (headersToRecord (rq_headers demo_post)),
                up_body := map_option Text
                  (or_null (utf8_decode demo_runtime (concat (rq_chunks demo_post))))\<rparr>
     = \<lparr> up_secure = False, up_hostname = ''a.test'', up_port = ''80'', up_path = ''/p'',
          up_method = Some ''POST'',
          up_headers = [(''host'', HString ''a.test''), (''proxy-connection'', HString ''keep-alive'')],
          up_body = Some (Text ''A'') \<rparr>"
    unfolding pu_def by code_simp
  from C9_identity_resume [where bs = bs and i = "''p1''" and snap = snap
      and rt = demo_runtime and ps = "demo_proxy (Some armed) None" and q = demo_post
      and env = env and pu = pu] m1 p c db u
  have a: "continue_bp bs ''p1'' None = (Some (Resolved (Some snap)), armed)"
    and b: "upstreams (trace (handleRequest demo_runtime env (demo_proxy (Some armed) None) demo_post))
      = [\<lparr> up_secure = False, up_hostname = ''a.test'', up_port = ''80'', up_path = ''/p'',
          up_method = Some ''POST'',
          up_headers = [(''host'', HString ''a.test''), (''proxy-connection'', HString ''keep-alive'')],
          up_body = Some (Text ''A'') \<rparr>]"
    by (simp_all add: d1 r)
  from C9_identity_resume [where bs = armed and i = "''p1''" and modified = None] m2
  have n: "continue_bp armed ''p1'' None = (None, armed)" "drop_bp armed ''p1'' = (None, armed)"
    by simp_all
  from a b n show ?thesis
    unfolding bs_def snap_def env_def by simp
qed

subsection \<open>Mock short-circuit\<close>


lemma handleRequest_bad_request:
  "url_parse rt (opt_or (rq_url q) []) = None \<Longrightarrow>
     handleRequest rt env ps q
       = finished [ClientWriteHead 400 [], ClientEnd (Some (Text ''Bad Request''))] ps"
  by (simp add: handleRequest_def Let_def)

lemma handleRequest_mock:
  assumes "url_parse rt (opt_or (rq_url q) []) = Some pu"
    and "mockService ps = Some rules"
    and "findMatchingRule rt rules (opt_or (rq_method q) ''GET'') (opt_or (rq_url q) []) = Some rule"
  shows "handleRequest rt env ps q =
     save_mock ps
       (mock_exchange rt env rule (opt_or (rq_method q) ''GET'') (opt_or (rq_url q) [])
          (pu_hostname pu) (pu_pathname pu @ pu_search pu) (headersToRecord (rq_headers q))
          (or_null (utf8_decode rt (concat (rq_chunks q)))))
       (mock_delay rule)
       (\<lambda>tr ps'. finished
          (tr @ [ClientWriteHead (rule_responseStatus rule)
                   (record_headers (rule_responseHeaders rule)),
                 ClientEnd (Some (Text (rule_responseBody rule)))]) ps')"
  using assms by (simp add: handleRequest_def Let_def)

lemma processHttpsRequest_mock:
  assumes "mockService ps = Some rules"
    and "findMatchingRule rt rules method (fullUrl hostname port path) = Some rule"
  shows "processHttpsRequest rt env ps hostname port method path reqHeaders body =
     save_mock ps
       (mock_exchange rt env rule method (fullUrl hostname port path) hostname path reqHeaders
          (if body = [] then None else Some (utf8_decode rt body)))
       (mock_delay rule)
       (\<lambda>tr' ps'.
          if \<not> env_writable env then finished tr' ps'
          else finished
            (tr' @ [SocketWrite (Text (mock_head rt (rule_responseStatus rule)
                       (rule_responseHeaders rule)
                       (length (utf8_encode rt (rule_responseBody rule))))),
                    SocketWrite (Bytes (utf8_encode rt (rule_responseBody rule)))]) ps')"
  using assms
  by (simp add: processHttpsRequest_def Let_def sendMockResponseToHttpsClient_def)



text \<open>
  The observable outcome of a mock short-circuit on the plain path, for the rule returned
  and the parsed request-target: after the rule's delay the synthetic exchange is appended
  to the store under a fresh id and announced, and the rule's status, headers and body are
  written to the client. \<open>mock_answered_mitm\<close> is the same on the MITM path, where head
  and body go to the TLS socket if it is still writable.
\<close>

definition mock_answered_plain ::
  "runtime \<Rightarrow> environment \<Rightarrow> ProxyServer \<Rightarrow> client_request \<Rightarrow> parsed_url \<Rightarrow> MockRule \<Rightarrow> bool" where
  "mock_answered_plain rt env ps q pu rule =
     (\<exists>i. trace (handleRequest rt env ps q)
            = mock_delay rule
              @ [Emit (RequestComplete (as_read_back i
                   (mock_exchange rt env rule (opt_or (rq_method q) ''GET'') (opt_or (rq_url q) [])
                      (pu_hostname pu) (pu_pathname pu @ pu_search pu)
                      (headersToRecord (rq_headers q))
                      (or_null (utf8_decode rt (concat (rq_chunks q))))))),
                 ClientWriteHead (rule_responseStatus rule)
                   (record_headers (rule_responseHeaders rule)),
                 ClientEnd (Some (Text (rule_responseBody rule)))]
        \<and> rows_of (storage (final (handleRequest rt env ps q)))
            = rows_of (storage ps)
              @ [insert_row i
                   (mock_exchange rt env rule (opt_or (rq_method q) ''GET'') (opt_or (rq_url q) [])
                      (pu_hostname pu) (pu_pathname pu @ pu_search pu)
                      (headersToRecord (rq_headers q))
                      (or_null (utf8_decode rt (concat (rq_chunks q)))))]
        \<and> thrown (handleRequest rt env ps q) = None)"

definition mock_answered_mitm ::
  "runtime \<Rightarrow> environment \<Rightarrow> ProxyServer \<Rightarrow> string \<Rightarrow> int \<Rightarrow> string \<Rightarrow> string \<Rightarrow> headers
     \<Rightarrow> buffer \<Rightarrow> MockRule \<Rightarrow> bool" where
  "mock_answered_mitm rt env ps hostname port method path reqHeaders body rule =
     (\<exists>i. trace (processHttpsRequest rt env ps hostname port method path reqHeaders body)
            = mock_delay rule
              @ [Emit (RequestComplete (as_read_back i
                   (mock_exchange rt env rule method (fullUrl hostname port path) hostname path
                      reqHeaders (if body = [] then None else Some (utf8_decode rt body)))))]
              @ (if env_writable env then
                   [SocketWrite (Text (mock_head rt (rule_responseStatus rule)
                      (rule_responseHeaders rule)
                      (length (utf8_encode rt (rule_responseBody rule))))),
                    SocketWrite (Bytes (utf8_encode rt (rule_responseBody rule)))]
                 else [])
        \<and> rows_of (storage (final
              (processHttpsRequest rt env ps hostname port method path reqHeaders body)))
            = rows_of (storage ps)
              @ [insert_row i
                   (mock_exchange rt env rule method (fullUrl hostname port path) hostname path
                      reqHeaders (if body = [] then None else Some (utf8_decode rt body)))]
        \<and> thrown (processHttpsRequest rt env ps hostname port method path reqHeaders body)
            = None)"

lemma mock_plain:
  assumes "mockService ps = Some rules"
    and "findMatchingRule rt rules (opt_or (rq_method q) ''GET'') (opt_or (rq_url q) []) = Some rule"
  shows "upstreams (trace (handleRequest rt env ps q)) = []"
    and "url_parse rt (opt_or (rq_url q) []) = Some pu \<Longrightarrow> store_ok (storage ps) \<Longrightarrow>
         mock_answered_plain rt env ps q pu rule"
proof -
  show "upstreams (trace (handleRequest rt env ps q)) = []"
  proof (cases "url_parse rt (opt_or (rq_url q) [])")
    case None
    then show ?thesis by (simp add: handleRequest_bad_request)
  next
    case (Some pu')
    show ?thesis
      unfolding handleRequest_mock [OF Some assms]
      by (subst save_mock_upstreams) simp_all
  qed
next
  assume pu: "url_parse rt (opt_or (rq_url q) []) = Some pu" and ok: "store_ok (storage ps)"
  define x where "x = mock_exchange rt env rule (opt_or (rq_method q) ''GET'') (opt_or (rq_url q) [])
      (pu_hostname pu) (pu_pathname pu @ pu_search pu) (headersToRecord (rq_headers q))
      (or_null (utf8_decode rt (concat (rq_chunks q))))"
  define k where "k = (\<lambda>tr ps'. finished
        (tr @ [ClientWriteHead (rule_responseStatus rule)
                 (record_headers (rule_responseHeaders rule)),
               ClientEnd (Some (Text (rule_responseBody rule)))]) ps')"
  have h: "handleRequest rt env ps q = save_mock ps x (mock_delay rule) k"
    unfolding handleRequest_mock [OF pu assms] x_def k_def ..
  from ok obtain i ps' where
    s: "save_mock ps x (mock_delay rule) k
          = k (mock_delay rule @ [Emit (RequestComplete (as_read_back i x))]) ps'"
    and hl: "holds_last (storage ps') (rows_of (storage ps)) i x"
    by (rule save_mock_ok)
  show "mock_answered_plain rt env ps q pu rule"
    unfolding mock_answered_plain_def x_def [symmetric] h s
    by (rule exI [of _ i]) (simp add: k_def holds_last_rows_of [OF hl])
qed

lemma mock_mitm:
  assumes "mockService ps = Some rules"
    and "findMatchingRule rt rules method (fullUrl hostname port path) = Some rule"
  shows "upstreams (trace (processHttpsRequest rt env ps hostname port method path reqHeaders body)) = []"
    and "store_ok (storage ps) \<Longrightarrow>
         mock_answered_mitm rt env ps hostname port method path reqHeaders body rule"
proof -
  show "upstreams (trace (processHttpsRequest rt env ps hostname port method path reqHeaders body)) = []"
    unfolding processHttpsRequest_mock [OF assms]
    by (subst save_mock_upstreams) simp_all
next
  assume ok: "store_ok (storage ps)"
  define x where "x = mock_exchange rt env rule method (fullUrl hostname port path) hostname path
      reqHeaders (if body = [] then None else Some (utf8_decode rt body))"
  define k where "k = (\<lambda>tr' ps'.
        if \<not> env_writable env then finished tr' ps'
        else finished
          (tr' @ [SocketWrite (Text (mock_head rt (rule_responseStatus rule)
                     (rule_responseHeaders rule)
                     (length (utf8_encode rt (rule_responseBody rule))))),
                  SocketWrite (Bytes (utf8_encode rt (rule_responseBody rule)))]) ps')"
  have h: "processHttpsRequest rt env ps hostname port method path reqHeaders body
      = save_mock ps x (mock_delay rule) k"
    unfolding processHttpsRequest_mock [OF assms] x_def k_def ..
  from ok obtain i ps' where
    s: "save_mock ps x (mock_delay rule) k
          = k (mock_delay rule @ [Emit (RequestComplete (as_read_back i x))]) ps'"
    and hl: "holds_last (storage ps') (rows_of (storage ps)) i x"
    by (rule save_mock_ok)
  show "mock_answered_mitm rt env ps hostname port method path reqHeaders body rule"
    unfolding mock_answered_mitm_def x_def [symmetric] h s
    by (rule exI [of _ i]) (simp add: k_def holds_last_rows_of [OF hl])
qed








subsection \<open>Size and stored copy of a response\<close>

text \<open>The pending row of a plain exchange, as \<open>handleRequest\<close> saves it.\<close>

definition pending_plain :: "runtime \<Rightarrow> environment \<Rightarrow> client_request \<Rightarrow> parsed_url \<Rightarrow> headers NewRequest" where
  "pending_plain rt env q pu =
     pending_exchange env (opt_or (rq_method q) ''GET'') (opt_or (rq_url q) []) (pu_hostname pu)
       (pu_pathname pu @ pu_search pu) (headersToRecord (rq_headers q))
       (or_null (utf8_decode rt (concat (rq_chunks q))))"

lemma forward_plain_response:
  assumes "store_ok (storage ps)" and "env_origin env = OriginResponse res"
  obtains i ps' tr' where
    "forward_plain rt env ps q pu (utf8_decode rt (concat (rq_chunks q))) options tr = finished tr' ps'"
    and "forwarded_body tr' = forwarded_body tr @ concat (res_chunks res)"
    and "holds_last (storage ps') (rows_of (storage ps)) i
           (apply_response (response_data rt env res) (pending_plain rt env q pu))"
proof -
  from assms(1) obtain i st' where
    s: "saveRequest (storage ps) (pending_plain rt env q pu) = Inr (i, st')"
    and h: "holds_last st' (rows_of (storage ps)) i (pending_plain rt env q pu)"
    by (rule saveRequest_holds_last)
  define tr1 where "tr1 = tr @ [Upstream (options\<lparr>up_body := map_option Text
      (or_null (utf8_decode rt (concat (rq_chunks q))))\<rparr>)]
    @ [ClientWriteHead (case res_statusCode res of
                                 None \<Rightarrow> 200
                               | Some c \<Rightarrow> if c = 0 then 200 else c) (res_headers res)]
           @ map ClientWrite (res_chunks res) @ [ClientEnd None]"
  have h': "holds_last (storage (ps\<lparr>storage := st'\<rparr>)) (rows_of (storage ps)) i
      (pending_plain rt env q pu)"
    using h by simp
  from h' obtain ps' where
    r: "record_response (ps\<lparr>storage := st'\<rparr>) i (response_data rt env res) tr1 finished
       = finished (tr1 @ [Emit (RequestComplete (as_read_back i
            (apply_response (response_data rt env res) (pending_plain rt env q pu))))]) ps'"
    and hl: "holds_last (storage ps') (rows_of (storage ps)) i
           (apply_response (response_data rt env res) (pending_plain rt env q pu))"
    by (rule record_response_ok)
  have "forward_plain rt env ps q pu (utf8_decode rt (concat (rq_chunks q))) options tr
      = finished (tr1 @ [Emit (RequestComplete (as_read_back i
            (apply_response (response_data rt env res) (pending_plain rt env q pu))))]) ps'"
    using s r assms(2)
    by (simp add: forward_plain_def pending_plain_def [symmetric] Let_def handleProxyResponse_def
        tr1_def)
  moreover have "forwarded_body (tr1 @ [Emit (RequestComplete (as_read_back i
            (apply_response (response_data rt env res) (pending_plain rt env q pu))))])
      = forwarded_body tr @ concat (res_chunks res)"
    by (simp add: tr1_def)
  ultimately show ?thesis using hl by (rule that)
qed

lemma handleRequest_forwards:
  assumes "upstreams (trace (handleRequest rt env ps q)) \<noteq> []"
  obtains pu ps0 options tr0 where
    "handleRequest rt env ps q
       = forward_plain rt env ps0 q pu (utf8_decode rt (concat (rq_chunks q))) options tr0"
    and "storage ps0 = storage ps" and "forwarded_body tr0 = []"
    and "url_parse rt (opt_or (rq_url q) []) = Some pu"
proof (cases "url_parse rt (opt_or (rq_url q) [])")
  case None
  with assms show ?thesis by (simp add: handleRequest_bad_request)
next
  case (Some pu)
  show ?thesis
  proof (cases "case mockService ps of
            None \<Rightarrow> None
          | Some rules \<Rightarrow> findMatchingRule rt rules (opt_or (rq_method q) ''GET'')
              (opt_or (rq_url q) [])")
    case (Some rule)
    then obtain rules where "mockService ps = Some rules"
      and "findMatchingRule rt rules (opt_or (rq_method q) ''GET'') (opt_or (rq_url q) []) = Some rule"
      by (auto split: option.splits)
    from mock_plain(1) [OF this] assms show ?thesis by simp
  next
    case nomock: None
    show ?thesis
    proof (cases "case breakpointService ps of
            None \<Rightarrow> False
          | Some bs \<Rightarrow> shouldBreak rt bs OnRequest (opt_or (rq_method q) ''GET'')
              (opt_or (rq_url q) [])")
      case False
      have "handleRequest rt env ps q
          = forward_plain rt env ps q pu (utf8_decode rt (concat (rq_chunks q)))
              (request_options q pu) []"
        using \<open>url_parse rt (opt_or (rq_url q) []) = Some pu\<close> nomock False
        by (simp add: handleRequest_def Let_def split: option.splits)
      then show ?thesis
        by (rule that) (simp_all add: \<open>url_parse rt (opt_or (rq_url q) []) = Some pu\<close>)
    next
      case True
      with nomock \<open>url_parse rt (opt_or (rq_url q) []) = Some pu\<close>
      have paused: "paused_at_request rt ps q"
        by (simp add: paused_at_request_def)
      from paused obtain pu' where pu': "url_parse rt (opt_or (rq_url q) []) = Some pu'"
        and h: "handleRequest rt env ps q =
      (case env_controller env of
         CtlDrop \<Rightarrow>
           finished [Emit (BreakpointHit (snapshot_of rt env q)),
                     ClientWriteHead 499 [(''Content-Type'', HString ''text/plain'')],
                     ClientEnd (Some (Text ''Request dropped by user''))]
             (settled_service ps (env_uuid env))
       | CtlTimeout \<Rightarrow>
           forward_plain rt env (settled_service ps (env_uuid env)) q pu'
             (utf8_decode rt (concat (rq_chunks q))) (request_options q pu')
             [Emit (BreakpointHit (snapshot_of rt env q))]
       | CtlContinue modified \<Rightarrow>
           forward_plain rt env (settled_service ps (env_uuid env)) q pu'
             (utf8_decode rt (concat (rq_chunks q)))
             ((request_options q pu')
                \<lparr>up_method := Some (icp_method (case modified of
                                                    None \<Rightarrow> snapshot_of rt env q
                                                  | Some m \<Rightarrow> m)),
                 up_headers := record_headers (icp_headers (case modified of
                                                    None \<Rightarrow> snapshot_of rt env q
                                                  | Some m \<Rightarrow> m))\<rparr>)
             [Emit (BreakpointHit (snapshot_of rt env q))])"
        by (rule handleRequest_paused [where env = env])
      have st: "storage (settled_service ps (env_uuid env)) = storage ps"
        by (simp add: settled_service_def)
      show ?thesis
      proof (cases "env_controller env")
        case CtlDrop
        with h assms show ?thesis by simp
      next
        case CtlTimeout
        with h have "handleRequest rt env ps q
            = forward_plain rt env (settled_service ps (env_uuid env)) q pu'
                (utf8_decode rt (concat (rq_chunks q))) (request_options q pu')
                [Emit (BreakpointHit (snapshot_of rt env q))]"
          by simp
        then show ?thesis by (rule that) (simp_all add: st pu')
      next
        case (CtlContinue modified)
        with h have "handleRequest rt env ps q
            = forward_plain rt env (settled_service ps (env_uuid env)) q pu'
                (utf8_decode rt (concat (rq_chunks q)))
                ((request_options q pu')
                   \<lparr>up_method := Some (icp_method (case modified of
                                                    None \<Rightarrow> snapshot_of rt env q
                                                  | Some m \<Rightarrow> m)),
                    up_headers := record_headers (icp_headers (case modified of
                                                    None \<Rightarrow> snapshot_of rt env q
                                                  | Some m \<Rightarrow> m))\<rparr>)
                [Emit (BreakpointHit (snapshot_of rt env q))]"
          by simp
        then show ?thesis by (rule that) (simp_all add: st pu')
      qed
    qed
  qed
qed


definition pending_mitm ::
  "runtime \<Rightarrow> environment \<Rightarrow> string \<Rightarrow> int \<Rightarrow> string \<Rightarrow> string \<Rightarrow> headers \<Rightarrow> buffer
     \<Rightarrow> headers NewRequest" where
  "pending_mitm rt env hostname port method path reqHeaders body =
     pending_exchange env method (fullUrl hostname port path) hostname path reqHeaders
       (if body = [] then None else Some (utf8_decode rt body))"

lemma processHttpsRequest_response:
  assumes "(case mockService ps of
              None \<Rightarrow> None
            | Some rules \<Rightarrow> findMatchingRule rt rules method (fullUrl hostname port path)) = None"
    and "store_ok (storage ps)" and "env_origin env = OriginResponse res"
  obtains i ps' tr' where
    "processHttpsRequest rt env ps hostname port method path reqHeaders body = finished tr' ps'"
    and "forwarded_body tr' = (if env_writable env then concat (res_chunks res) else [])"
    and "holds_last (storage ps') (rows_of (storage ps)) i
           (apply_response (response_data rt env res)
              (pending_mitm rt env hostname port method path reqHeaders body))"
proof -
  define pending where "pending = pending_mitm rt env hostname port method path reqHeaders body"
  from assms(2) obtain i st' where
    s: "saveRequest (storage ps) pending = Inr (i, st')"
    and h: "holds_last st' (rows_of (storage ps)) i pending"
    by (rule saveRequest_holds_last)
  define tr1 where "tr1 = [Emit (RequestSaved (NewRequest.extend pending (CapturedRequest.fields i))),
      Upstream \<lparr> up_secure = True, up_hostname = hostname,
        up_port = show_int port, up_path = path,
        up_method = Some method,
        up_headers = record_headers (AList.update ''host'' hostname
          (AList.delete ''proxy-connection'' reqHeaders)),
        up_body = (if body = [] then None else Some (Bytes body)) \<rparr>]"
  define k where "k = (\<lambda>tr' ps''.
      if \<not> env_writable env then finished tr' ps''
      else finished
        (tr' @ [SocketWrite (Text (response_head res (length (concat (res_chunks res))))),
                SocketWrite (Bytes (concat (res_chunks res)))]) ps'')"
  have h': "holds_last (storage (ps\<lparr>storage := st'\<rparr>)) (rows_of (storage ps)) i pending"
    using h by simp
  from h' obtain ps' where
    r: "record_response (ps\<lparr>storage := st'\<rparr>) i (response_data rt env res) tr1 k
       = k (tr1 @ [Emit (RequestComplete (as_read_back i
            (apply_response (response_data rt env res) pending)))]) ps'"
    and hl: "holds_last (storage ps') (rows_of (storage ps)) i
           (apply_response (response_data rt env res) pending)"
    by (rule record_response_ok)
  have p: "processHttpsRequest rt env ps hostname port method path reqHeaders body
      = record_response (ps\<lparr>storage := st'\<rparr>) i (response_data rt env res) tr1 k"
    using assms(1,3) s
    by (simp add: processHttpsRequest_def Let_def pending_def pending_mitm_def tr1_def k_def)
  define tr' where "tr' = (tr1 @ [Emit (RequestComplete (as_read_back i
            (apply_response (response_data rt env res) pending)))])
      @ (if env_writable env then
           [SocketWrite (Text (response_head res (length (concat (res_chunks res))))),
            SocketWrite (Bytes (concat (res_chunks res)))]
         else [])"
  have "processHttpsRequest rt env ps hostname port method path reqHeaders body = finished tr' ps'"
    unfolding p r by (simp add: k_def tr'_def)
  moreover have "forwarded_body tr' = (if env_writable env then concat (res_chunks res) else [])"
    by (simp add: tr'_def tr1_def)
  ultimately show ?thesis using hl unfolding pending_def by (rule that)
qed

lemma processHttpsRequest_forwards:
  assumes "upstreams (trace (processHttpsRequest rt env ps hostname port method path reqHeaders body)) \<noteq> []"
  shows "(case mockService ps of
              None \<Rightarrow> None
            | Some rules \<Rightarrow> findMatchingRule rt rules method (fullUrl hostname port path)) = None"
proof (rule ccontr)
  assume "(case mockService ps of
              None \<Rightarrow> None
            | Some rules \<Rightarrow> findMatchingRule rt rules method (fullUrl hostname port path)) \<noteq> None"
  then obtain rules rule where "mockService ps = Some rules"
    and "findMatchingRule rt rules method (fullUrl hostname port path) = Some rule"
    by (auto split: option.splits)
  from mock_mitm(1) [OF this] assms show False by simp
qed

text \<open>
  The body as it came over the wire, the copy the proxy stores for it, and the decompressor
  the code selects for a \<open>Content-Encoding\<close> (\<open>None\<close> for an encoding it does not
  decompress).
\<close>

definition wire_body :: "incoming_response \<Rightarrow> buffer" where
  "wire_body res = concat (res_chunks res)"

definition stored_copy :: "runtime \<Rightarrow> incoming_response \<Rightarrow> string" where
  "stored_copy rt res =
     stored_body rt (decompress_for_storage rt (header_string (res_headers res) ''content-encoding'')
       (wire_body res))"

definition codec :: "runtime \<Rightarrow> string \<Rightarrow> (buffer \<Rightarrow> buffer option) option" where
  "codec rt contentEncoding =
     (if contentEncoding = ''gzip'' then Some (gunzipSync rt)
      else if contentEncoding = ''deflate'' then Some (inflateSync rt)
      else if contentEncoding = ''br'' then Some (brotliDecompressSync rt)
      else None)"

text \<open>
  The store after the exchange: the rows it had, followed by one row whose \<open>size\<close> is the
  length of the wire body and whose \<open>response_body\<close> is the stored copy.
\<close>

definition response_stored :: "runtime \<Rightarrow> incoming_response \<Rightarrow> TrafficStorage \<Rightarrow> TrafficStorage \<Rightarrow> bool" where
  "response_stored rt res before after =
     (\<exists>row. rows_of after = rows_of before @ [row]
        \<and> row_size row = int (length (wire_body res))
        \<and> row_response_body row = Some (stored_copy rt res))"

lemma holds_last_response_stored:
  assumes "holds_last st' (rows_of st) i (apply_response (response_data rt env res) pending)"
  shows "response_stored rt res st st'"
  unfolding response_stored_def
  by (rule exI [of _ "insert_row i (apply_response (response_data rt env res) pending)"])
    (simp add: holds_last_rows_of [OF assms] insert_row_def apply_response_def response_data_def
      wire_body_def stored_copy_def)

lemma decompress_codec:
  "codec rt enc = Some dec \<Longrightarrow>
     decompress_for_storage rt enc body = (case dec body of None \<Rightarrow> body | Some b \<Rightarrow> b)"
  by (auto simp: codec_def decompress_for_storage_def split: if_splits)

lemma show_nat_digit: "n < 10 \<Longrightarrow> show_nat n = [digit_char n]"
  by (subst show_nat.simps) simp

lemma show_nat_step: "10 \<le> n \<Longrightarrow> show_nat n = show_nat (n div 10) @ [digit_char (n mod 10)]"
  by (subst show_nat.simps) simp

text \<open>
  The gzip stream (level 9, no file name, no modification time) of 5242881 letters \<open>a\<close>,
  one byte more than 5 MiB: 5129 bytes. \<open>a_runtime\<close> is a runtime whose \<open>gunzipSync\<close>
  inflates that stream and knows no other.
\<close>

definition a_stream :: buffer where
  "a_stream =
     [CHR 0x1F, CHR 0x8B, CHR 0x08, CHR 0x00, CHR 0x00, CHR 0x00, CHR 0x00, CHR 0x00, CHR 0x02,
      CHR 0x03, CHR 0xEC, CHR 0xC1, CHR 0x81, CHR 0x00, CHR 0x00, CHR 0x00, CHR 0x00, CHR 0x80,
      CHR 0x20, CHR 0xD6, CHR 0xFD, CHR 0x25, CHR 0x16, CHR 0xA9, CHR 0x0A]
     @ replicate 4094 (CHR 0x00)
     @ [CHR 0x80, CHR 0xDB, CHR 0x83, CHR 0x43, CHR 0x02, CHR 0x00, CHR 0x00, CHR 0x00, CHR 0x00,
        CHR 0x41, CHR 0xFF, CHR 0x5F, CHR 0x3B, CHR 0xC2, CHR 0x0A]
     @ replicate 985 (CHR 0x00)
     @ [CHR 0x2C, CHR 0x01, CHR 0x4B, CHR 0x3E, CHR 0x15, CHR 0x35, CHR 0x01, CHR 0x00, CHR 0x50,
        CHR 0x00]"

definition a_runtime :: runtime where
  "a_runtime =
     demo_runtime\<lparr>gunzipSync :=
       (\<lambda>b. if b = a_stream then Some (replicate 5242881 (CHR ''a'')) else None)\<rparr>"

definition a_response :: incoming_response where
  "a_response =
     \<lparr> res_statusCode = Some 200, res_statusMessage = Some ''OK'',
       res_headers = [(''content-type'', HString ''text/plain''),
                      (''content-encoding'', HString ''gzip'')],
       res_chunks = [a_stream] \<rparr>"

text \<open>
  C6, as stated: whenever the response carries a supported \<open>Content-Encoding\<close>, the stored
  \<open>response_body\<close> holds the decompressed content. The stored copy is capped at 5 MiB
  after decompression: for the gzip body of 5129 bytes that inflates to 5 MiB + 1 bytes the
  row stores the placeholder text, not the content; its \<open>size\<close> is 5129.
\<close>

theorem C6_stored_copy_capped:
  "gunzipSync a_runtime (wire_body a_response) = Some (replicate 5242881 (CHR ''a''))
   \<and> map row_response_body (rows_of (storage (final (processHttpsRequest a_runtime
         (demo_env CtlTimeout (OriginResponse a_response)) (demo_proxy None None)
         ''secure.test'' 443 ''GET'' ''/x'' [] []))))
       = [Some ''[Body too large: 5242881 bytes]'']
   \<and> map row_size (rows_of (storage (final (processHttpsRequest a_runtime
         (demo_env CtlTimeout (OriginResponse a_response)) (demo_proxy None None)
         ''secure.test'' 443 ''GET'' ''/x'' [] []))))
       = [5129]"
proof -
  define env where "env = demo_env CtlTimeout (OriginResponse a_response)"
  define ps where "ps = demo_proxy None None"
  have nomock: "(case mockService ps of
              None \<Rightarrow> None
            | Some rules \<Rightarrow> findMatchingRule a_runtime rules ''GET''
                (fullUrl ''secure.test'' 443 ''/x'')) = None"
    by (simp add: ps_def demo_proxy_def)
  have ok: "store_ok (storage ps)"
    by (simp add: ps_def demo_proxy_def demo_store_def store_ok_def)
  have orig: "env_origin env = OriginResponse a_response"
    by (simp add: env_def demo_env_def)
  from nomock ok orig obtain i ps' tr' where
    p: "processHttpsRequest a_runtime env ps ''secure.test'' 443 ''GET'' ''/x'' [] []
          = finished tr' ps'"
    and hl: "holds_last (storage ps') (rows_of (storage ps)) i
           (apply_response (response_data a_runtime env a_response)
              (pending_mitm a_runtime env ''secure.test'' 443 ''GET'' ''/x'' [] []))"
    by (rule processHttpsRequest_response)
  have empty: "rows_of (storage ps) = []"
    by (simp add: ps_def demo_proxy_def demo_store_def rows_of_def)
  have wire: "concat (res_chunks a_response) = a_stream"
    by (simp add: a_response_def)
  have g: "gunzipSync a_runtime (wire_body a_response) = Some (replicate 5242881 (CHR ''a''))"
    by (simp add: a_runtime_def wire_body_def wire)
  have enc: "header_string (res_headers a_response) ''content-encoding'' = ''gzip''"
    by (simp add: a_response_def header_string_def)
  have len: "length a_stream = 5129"
    by (simp add: a_stream_def)
  have dec: "decompress_for_storage a_runtime ''gzip'' a_stream = replicate 5242881 (CHR ''a'')"
    by (simp add: decompress_for_storage_def a_runtime_def)
  have sb: "stored_body a_runtime (replicate 5242881 (CHR ''a''))
      = ''[Body too large: 5242881 bytes]''"
    by (simp add: stored_body_def maxSize_def show_nat_digit show_nat_step digit_char_def)
  have body: "rd_responseBody (response_data a_runtime env a_response)
      = Some ''[Body too large: 5242881 bytes]''"
    by (simp add: response_data_def enc wire dec sb)
  have size: "rd_size (response_data a_runtime env a_response) = 5129"
    by (simp add: response_data_def wire len)
  from holds_last_rows_of [OF hl] empty body size g show ?thesis
    unfolding env_def [symmetric] ps_def [symmetric] p
    by (simp add: insert_row_def apply_response_def)
qed

text \<open>
  C6, amended: for every proxied exchange (an upstream request was opened and the origin
  answered), on the plain and on the MITM path, the stored row's \<open>size\<close> is the byte length
  of the response body as it came over the wire, and the body bytes forwarded to the client
  are those wire bytes (on the MITM path when the client socket is still writable). When the
  \<open>Content-Encoding\<close> is \<open>gzip\<close>, \<open>deflate\<close> or \<open>br\<close>, the stored \<open>response_body\<close>
  is the decoded text of the decompressed content if decompression succeeds and yields at
  most 5 MiB, the placeholder \<open>[Body too large: N bytes]\<close> with the decompressed length if
  it yields more, and the treatment of the wire bytes themselves if decompression fails.
\<close>

theorem C6_size_and_stored_copy:
  assumes "store_ok (storage ps)" and "env_origin env = OriginResponse res"
  shows "(upstreams (trace (handleRequest rt env ps q)) \<noteq> [] \<longrightarrow>
        response_stored rt res (storage ps) (storage (final (handleRequest rt env ps q)))
        \<and> forwarded_body (trace (handleRequest rt env ps q)) = wire_body res)
     \<and> (upstreams (trace (processHttpsRequest rt env ps hostname port method path reqHeaders body))
          \<noteq> [] \<longrightarrow>
        response_stored rt res (storage ps)
          (storage (final (processHttpsRequest rt env ps hostname port method path reqHeaders body)))
        \<and> forwarded_body (trace (processHttpsRequest rt env ps hostname port method path reqHeaders body))
            = (if env_writable env then wire_body res else []))
     \<and> (\<forall>dec. codec rt (header_string (res_headers res) ''content-encoding'') = Some dec \<longrightarrow>
          (\<forall>plain. dec (wire_body res) = Some plain \<and> length plain \<le> maxSize \<longrightarrow>
             stored_copy rt res = utf8_decode rt plain)
          \<and> (\<forall>plain. dec (wire_body res) = Some plain \<and> maxSize < length plain \<longrightarrow>
             stored_copy rt res = ''[Body too large: '' @ show_nat (length plain) @ '' bytes]'')
          \<and> (dec (wire_body res) = None \<longrightarrow> stored_copy rt res = stored_body rt (wire_body res)))"
proof (intro conjI impI allI)
  assume up: "upstreams (trace (handleRequest rt env ps q)) \<noteq> []"
  then obtain pu ps0 options tr0 where
    h: "handleRequest rt env ps q
       = forward_plain rt env ps0 q pu (utf8_decode rt (concat (rq_chunks q))) options tr0"
    and st: "storage ps0 = storage ps" and fb: "forwarded_body tr0 = []"
    by (rule handleRequest_forwards)
  from assms(1) st have ok0: "store_ok (storage ps0)" by simp
  from ok0 assms(2) obtain i ps' tr' where
    f: "forward_plain rt env ps0 q pu (utf8_decode rt (concat (rq_chunks q))) options tr0
          = finished tr' ps'"
    and fb': "forwarded_body tr' = forwarded_body tr0 @ concat (res_chunks res)"
    and hl: "holds_last (storage ps') (rows_of (storage ps0)) i
           (apply_response (response_data rt env res) (pending_plain rt env q pu))"
    by (rule forward_plain_response)
  show "response_stored rt res (storage ps) (storage (final (handleRequest rt env ps q)))"
    using holds_last_response_stored [of "storage ps'" "storage ps0"] hl
    by (simp add: h f st)
  show "forwarded_body (trace (handleRequest rt env ps q)) = wire_body res"
    by (simp add: h f fb' fb wire_body_def)
next
  assume up: "upstreams (trace (processHttpsRequest rt env ps hostname port method path reqHeaders body)) \<noteq> []"
  then have nomock: "(case mockService ps of
              None \<Rightarrow> None
            | Some rules \<Rightarrow> findMatchingRule rt rules method (fullUrl hostname port path)) = None"
    by (rule processHttpsRequest_forwards)
  from nomock assms obtain i ps' tr' where
    p: "processHttpsRequest rt env ps hostname port method path reqHeaders body = finished tr' ps'"
    and fb: "forwarded_body tr' = (if env_writable env then concat (res_chunks res) else [])"
    and hl: "holds_last (storage ps') (rows_of (storage ps)) i
           (apply_response (response_data rt env res)
              (pending_mitm rt env hostname port method path reqHeaders body))"
    by (rule processHttpsRequest_response)
  show "response_stored rt res (storage ps)
          (storage (final (processHttpsRequest rt env ps hostname port method path reqHeaders body)))"
    using holds_last_response_stored [OF hl] by (simp add: p)
  show "forwarded_body (trace (processHttpsRequest rt env ps hostname port method path reqHeaders body))
            = (if env_writable env then wire_body res else [])"
    by (simp add: p fb wire_body_def)
next
  fix dec plain
  assume c: "codec rt (header_string (res_headers res) ''content-encoding'') = Some dec"
    and d: "dec (wire_body res) = Some plain \<and> length plain \<le> maxSize"
  then show "stored_copy rt res = utf8_decode rt plain"
    by (simp add: stored_copy_def decompress_codec [OF c] stored_body_def)
next
  fix dec plain
  assume c: "codec rt (header_string (res_headers res) ''content-encoding'') = Some dec"
    and d: "dec (wire_body res) = Some plain \<and> maxSize < length plain"
  then show "stored_copy rt res = ''[Body too large: '' @ show_nat (length plain) @ '' bytes]''"
    by (simp add: stored_copy_def decompress_codec [OF c] stored_body_def)
next
  fix dec
  assume c: "codec rt (header_string (res_headers res) ''content-encoding'') = Some dec"
    and d: "dec (wire_body res) = None"
  then show "stored_copy rt res = stored_body rt (wire_body res)"
    by (simp add: stored_copy_def decompress_codec [OF c])
qed

text \<open>
  The gzip stream (level 9, no file name, no modification time) of the text \<open>hello\<close>, 25
  bytes, arriving in two chunks; \<open>gz_runtime\<close> is a runtime whose \<open>gunzipSync\<close> inflates
  that stream and knows no other.
\<close>

definition gz_hello :: buffer where
  "gz_hello =
     [CHR 0x1F, CHR 0x8B, CHR 0x08, CHR 0x00, CHR 0x00, CHR 0x00, CHR 0x00, CHR 0x00, CHR 0x02,
      CHR 0x03, CHR 0xCB, CHR 0x48, CHR 0xCD, CHR 0xC9, CHR 0xC9, CHR 0x07, CHR 0x00, CHR 0x86,
      CHR 0xA6, CHR 0x10, CHR 0x36, CHR 0x05, CHR 0x00, CHR 0x00, CHR 0x00]"

definition gz_runtime :: runtime where
  "gz_runtime =
     demo_runtime\<lparr>gunzipSync := (\<lambda>b. if b = gz_hello then Some ''hello'' else None)\<rparr>"

definition gz_response :: incoming_response where
  "gz_response =
     \<lparr> res_statusCode = Some 200, res_statusMessage = Some ''OK'',
       res_headers = [(''content-type'', HString ''text/plain''),
                      (''content-encoding'', HString ''gzip'')],
       res_chunks = [take 10 gz_hello, drop 10 gz_hello] \<rparr>"

theorem C6_size_and_stored_copy_witness:
  "gunzipSync gz_runtime (wire_body gz_response) = Some ''hello''
   \<and> upstreams (trace (handleRequest gz_runtime (demo_env CtlTimeout (OriginResponse gz_response))
        (demo_proxy None None) demo_post)) \<noteq> []
   \<and> map row_size (rows_of (storage (final (handleRequest gz_runtime
        (demo_env CtlTimeout (OriginResponse gz_response)) (demo_proxy None None) demo_post))))
       = [25]
   \<and> map row_response_body (rows_of (storage (final (handleRequest gz_runtime
        (demo_env CtlTimeout (OriginResponse gz_response)) (demo_proxy None None) demo_post))))
       = [Some ''hello'']
   \<and> forwarded_body (trace (handleRequest gz_runtime
        (demo_env CtlTimeout (OriginResponse gz_response)) (demo_proxy None None) demo_post))
       = gz_hello"
proof -
  define env where "env = demo_env CtlTimeout (OriginResponse gz_response)"
  define ps where "ps = demo_proxy None None"
  define pu where "pu = \<lparr> pu_protocol = ''http:'', pu_hostname = ''a.test'', pu_port = [],
     pu_pathname = ''/p'', pu_search = [] \<rparr>"
  define out where "out = handleRequest gz_runtime env ps demo_post"
  have ok: "store_ok (storage ps)"
    by (simp add: ps_def demo_proxy_def demo_store_def store_ok_def)
  have db: "db_handle (storage ps) \<noteq> None"
    by (simp add: ps_def demo_proxy_def demo_store_def)
  have orig: "env_origin env = OriginResponse gz_response"
    by (simp add: env_def demo_env_def)
  have "url_parse demo_runtime (opt_or (rq_url demo_post) []) = Some pu"
    unfolding pu_def by code_simp
  then have u: "url_parse gz_runtime (opt_or (rq_url demo_post) []) = Some pu"
    by (simp add: gz_runtime_def)
  have "out = forward_plain gz_runtime env ps demo_post pu
      (utf8_decode gz_runtime (concat (rq_chunks demo_post))) (request_options demo_post pu) []"
    unfolding out_def by (simp add: handleRequest_def Let_def u ps_def demo_proxy_def)
  then have up: "upstreams (trace out) \<noteq> []"
    by (simp add: forward_plain_upstreams [OF db])
  have wire: "wire_body gz_response = gz_hello"
    by (simp add: wire_body_def gz_response_def)
  have len: "length gz_hello = 25"
    by (simp add: gz_hello_def)
  have enc: "header_string (res_headers gz_response) ''content-encoding'' = ''gzip''"
    by (simp add: gz_response_def header_string_def)
  have c: "codec gz_runtime ''gzip'' = Some (gunzipSync gz_runtime)"
    by (simp add: codec_def)
  have g: "gunzipSync gz_runtime gz_hello = Some ''hello''"
    by (simp add: gz_runtime_def)
  have small: "length ''hello'' \<le> maxSize"
    by (simp add: maxSize_def)
  have dec: "utf8_decode gz_runtime ''hello'' = ''hello''"
    by (simp add: gz_runtime_def demo_runtime_def)
  have empty: "rows_of (storage ps) = []"
    by (simp add: ps_def demo_proxy_def demo_store_def rows_of_def)
  note inst = C6_size_and_stored_copy [OF ok orig, where rt = gz_runtime and q = demo_post]
  from inst [THEN conjunct1, THEN mp] up
  have rs: "response_stored gz_runtime gz_response (storage ps) (storage (final out))"
    and fb: "forwarded_body (trace out) = wire_body gz_response"
    unfolding out_def by simp_all
  from inst [THEN conjunct2, THEN conjunct2, THEN spec, where x = "gunzipSync gz_runtime"]
    c enc
  have "\<forall>plain. gunzipSync gz_runtime (wire_body gz_response) = Some plain
        \<and> length plain \<le> maxSize \<longrightarrow>
      stored_copy gz_runtime gz_response = utf8_decode gz_runtime plain"
    by simp
  from this [THEN spec, where x = "''hello''"] wire g small dec
  have sc: "stored_copy gz_runtime gz_response = ''hello''"
    by simp
  from rs obtain row where
    rows: "rows_of (storage (final out)) = rows_of (storage ps) @ [row]"
    and sz: "row_size row = int (length (wire_body gz_response))"
    and rb: "row_response_body row = Some (stored_copy gz_runtime gz_response)"
    unfolding response_stored_def by (elim exE conjE)
  have r1: "map row_size (rows_of (storage (final out))) = [25]"
    by (simp add: rows empty sz wire len)
  have r2: "map row_response_body (rows_of (storage (final out))) = [Some ''hello'']"
    by (simp add: rows empty rb sc)
  have r3: "forwarded_body (trace out) = gz_hello"
    by (simp add: fb wire)
  have r4: "gunzipSync gz_runtime (wire_body gz_response) = Some ''hello''"
    by (simp add: wire g)
  from r4 up r1 r2 r3 show ?thesis
    unfolding out_def env_def ps_def by (intro conjI)
qed

section \<open>Properties of the composer\<close>

lemma sendRequest_counter:
  "sendRequest rt env rc req = (result, rc', sent) \<Longrightarrow>
     requestIdCounter rc' = requestIdCounter rc + 1"
  by (auto simp: sendRequest_def Let_def split: option.splits origin.splits)

lemma sendRequest_id:
  "sendRequest rt env rc req = (Resolved c, rc', sent) \<Longrightarrow> cr_id c = requestIdCounter rc"
  by (auto simp: sendRequest_def Let_def split: option.splits origin.splits)

lemma send_all_ids:
  "send_all rt rc calls = (results, rc') \<Longrightarrow>
     requestIdCounter rc' = requestIdCounter rc + int (length calls)
     \<and> length results = length calls
     \<and> (\<forall>k<length calls. \<forall>c. results ! k = Resolved c \<longrightarrow>
           cr_id c = requestIdCounter rc + int k)"
proof (induction calls arbitrary: rc results rc')
  case Nil
  then show ?case by simp
next
  case (Cons call calls)
  obtain env req where call: "call = (env, req)" by (cases call)
  obtain result rc1 sent where s: "sendRequest rt env rc req = (result, rc1, sent)"
    by (cases "sendRequest rt env rc req")
  obtain results1 rc2 where a: "send_all rt rc1 calls = (results1, rc2)"
    by (cases "send_all rt rc1 calls")
  from Cons.prems call s a have r: "results = result # results1" and rc': "rc' = rc2"
    by simp_all
  note ih = Cons.IH [OF a]
  have c1: "requestIdCounter rc1 = requestIdCounter rc + 1"
    using s by (rule sendRequest_counter)
  show ?case
  proof (intro conjI allI impI)
    show "requestIdCounter rc' = requestIdCounter rc + int (length (call # calls))"
      using ih c1 rc' by simp
    show "length results = length (call # calls)"
      using ih r by simp
  next
    fix k c
    assume k: "k < length (call # calls)" and res: "results ! k = Resolved c"
    show "cr_id c = requestIdCounter rc + int k"
    proof (cases k)
      case 0
      with res r s have "sendRequest rt env rc req = (Resolved c, rc1, sent)" by simp
      then have "cr_id c = requestIdCounter rc" by (rule sendRequest_id)
      with 0 show ?thesis by simp
    next
      case (Suc k')
      with k res r have "k' < length calls" and "results1 ! k' = Resolved c" by simp_all
      with ih have "cr_id c = requestIdCounter rc1 + int k'" by blast
      with c1 Suc show ?thesis by simp
    qed
  qed
qed

text \<open>
  C10: on a fresh composer the \<open>k\<close>-th call (counting from 0) of \<open>sendRequest\<close>, and so
  of \<open>replayRequest\<close>, draws the id \<open>1000000 + k\<close> from the private counter, whether or
  not the call succeeds, and every \<open>CapturedRequest\<close> it returns carries that id. The
  store assigns \<open>sequence + 1\<close> on its own: a store id below 1,000,000 differs from every
  composer id, and a store whose sequence has reached \<open>999999 + k\<close> assigns exactly the id
  of the composer's \<open>k\<close>-th result.
\<close>

theorem C10_composer_ids:
  assumes "send_all rt new_composer calls = (results, rc')"
  shows "requestIdCounter rc' = 1000000 + int (length calls)
     \<and> length results = length calls
     \<and> (\<forall>k<length calls. \<forall>c. results ! k = Resolved c \<longrightarrow> cr_id c = 1000000 + int k)
     \<and> (\<forall>env rc orig. replayRequest rt env rc orig
           = sendRequest rt env rc
               \<lparr> cmp_method = cr_method orig, cmp_url = cr_url orig,
                 cmp_headers = cr_requestHeaders orig,
                 cmp_body = (case cr_requestBody orig of None \<Rightarrow> None | Some b \<Rightarrow> or_null b) \<rparr>)
     \<and> (\<forall>st q j st'. saveRequest st q = Inr (j, st') \<and> j < 1000000 \<longrightarrow>
           (\<forall>k<length calls. \<forall>c. results ! k = Resolved c \<longrightarrow> cr_id c \<noteq> j))
     \<and> (\<forall>(st :: TrafficStorage) d q k c. db_handle st = Some d \<and> sequence d = 999999 + int k
           \<and> k < length calls \<and> results ! k = Resolved c \<longrightarrow>
           (\<exists>st'. saveRequest st q = Inr (cr_id c, st')))"
proof -
  note ids = send_all_ids [OF assms, unfolded new_composer_def, simplified]
  have ids3: "\<And>k c. k < length calls \<Longrightarrow> results ! k = Resolved c \<Longrightarrow> cr_id c = 1000000 + int k"
    using ids by blast
  show ?thesis
  proof (intro conjI allI impI)
    show "requestIdCounter rc' = 1000000 + int (length calls)" using ids by simp
    show "length results = length calls" using ids by simp
  next
    fix k c
    assume "k < length calls" "results ! k = Resolved c"
    then show "cr_id c = 1000000 + int k" by (rule ids3)
  next
    fix env rc orig
    show "replayRequest rt env rc orig
           = sendRequest rt env rc
               \<lparr> cmp_method = cr_method orig, cmp_url = cr_url orig,
                 cmp_headers = cr_requestHeaders orig,
                 cmp_body = (case cr_requestBody orig of None \<Rightarrow> None | Some b \<Rightarrow> or_null b) \<rparr>"
      by (simp add: replayRequest_def)
  next
    fix st q j st' k c
    assume "saveRequest st q = Inr (j, st') \<and> j < 1000000"
      and "k < length calls" and "results ! k = Resolved c"
    then show "cr_id c \<noteq> j" using ids3 [of k c] by simp
  next
    fix st :: TrafficStorage and d q k c
    assume a: "db_handle st = Some d \<and> sequence d = 999999 + int k
           \<and> k < length calls \<and> results ! k = Resolved c"
    then have "cr_id c = 1000000 + int k" using ids3 [of k c] by simp
    with a show "\<exists>st'. saveRequest st q = Inr (cr_id c, st')"
      by (simp add: saveRequest_def Let_def)
  qed
qed

definition demo_get :: ComposedRequest where
  "demo_get =
     \<lparr> cmp_method = ''GET'', cmp_url = ''http://example.test/hi'',
       cmp_headers = [(''accept'', ''*/*'')], cmp_body = None \<rparr>"

definition demo_calls :: "(environment \<times> ComposedRequest) list" where
  "demo_calls =
     [(demo_env CtlTimeout (OriginResponse demo_hello), demo_get),
      (demo_env CtlTimeout (OriginError ''connect ECONNREFUSED''), demo_get),
      (demo_env CtlTimeout (OriginResponse demo_hello), demo_get)]"

definition settled_id :: "headers CapturedRequest settled \<Rightarrow> int option" where
  "settled_id r = (case r of Resolved c \<Rightarrow> Some (cr_id c) | Rejected e \<Rightarrow> None)"

theorem C10_composer_ids_witness:
  "requestIdCounter (snd (send_all demo_runtime new_composer demo_calls)) = 1000003
   \<and> map settled_id (fst (send_all demo_runtime new_composer demo_calls))
       = [Some 1000000, None, Some 1000002]
   \<and> (\<exists>c st'. fst (send_all demo_runtime new_composer demo_calls) ! 2 = Resolved c
        \<and> saveRequest \<lparr>db_handle = Some \<lparr>requests = [], sequence = 1000001, planner = rowid_order\<rparr>\<rparr> demo_request
          = Inr (cr_id c, st'))"
proof -
  obtain results rc' where s: "send_all demo_runtime new_composer demo_calls = (results, rc')"
    by (cases "send_all demo_runtime new_composer demo_calls")
  have ids: "map settled_id (fst (send_all demo_runtime new_composer demo_calls))
       = [Some 1000000, None, Some 1000002]"
    by code_simp
  have len: "length demo_calls = 3"
    by (simp add: demo_calls_def)
  note inst = C10_composer_ids [OF s]
  from inst have rl: "length results = 3"
    by (simp add: len)
  from ids s have "map settled_id results ! 2 = Some 1000002"
    by simp
  with rl have "settled_id (results ! 2) = Some 1000002"
    by simp
  then obtain c where c: "results ! 2 = Resolved c"
    by (cases "results ! 2") (simp_all add: settled_id_def)
  from inst have counter: "requestIdCounter rc' = 1000003"
    by (simp add: len)
  from inst have "\<forall>(st :: TrafficStorage) d q k c. db_handle st = Some d \<and> sequence d = 999999 + int k
           \<and> k < length demo_calls \<and> results ! k = Resolved c \<longrightarrow>
           (\<exists>st'. saveRequest st q = Inr (cr_id c, st'))"
    by (elim conjE)
  from this [rule_format, where st = "\<lparr>db_handle = Some \<lparr>requests = [], sequence = 1000001, planner = rowid_order\<rparr>\<rparr>"
      and d = "\<lparr>requests = [], sequence = 1000001, planner = rowid_order\<rparr>" and q = demo_request and k = 2 and c = c] c
  have "\<exists>st'. saveRequest \<lparr>db_handle = Some \<lparr>requests = [], sequence = 1000001, planner = rowid_order\<rparr>\<rparr> demo_request
          = Inr (cr_id c, st')"
    by (simp add: len)
  with c counter ids s show ?thesis by auto
qed

end
